theory Spec2Isabelle
  imports Main "HOL-Library.Word"
begin

unbundle bit_operations_syntax

section \<open>The c-ares wrapper of the DNS resolver: data model\<close>

text \<open>
  This theory embeds \<^verbatim>\<open>grpc_ares_wrapper.c\<close>. The file resolves one name through the
  c-ares library: it issues address queries (and, for load-balancer output, one SRV query),
  folds every completion into one request object and schedules the caller's closure when
  the last query has completed.

  The C code works on one heap-allocated request per call, on the caller's output slot and
  on the library's channel. The embedding keeps those three in one \<open>world\<close> record, passed
  through every function. Calls that leave the file (mutex, event driver, closure
  scheduler, c-ares, the release of the request) are recorded in order in the \<open>trace\<close> of
  the world, and so are the reads and writes of the request's \<open>success\<close> and \<open>error\<close> in
  the two callbacks, so that "exactly once", "before" and "under the lock" are statements
  about a list of events. Debug logging and the release of strings and sub-requests are
  left out: they touch nothing a later step reads.
\<close>

type_synonym byte = "8 word"
type_synonym uint16 = "16 word"

text \<open>
  Modelled from the spec: \<^verbatim>\<open>grpc_error\<close> and its constructors live in
  \<^verbatim>\<open>src/core/lib/iomgr/error.c\<close>, which is not part of the sources at hand. An error is
  the no-error sentinel or a record of a description, an optional target-address detail
  and the child errors linked under it.
\<close>

datatype grpc_error =
    GRPC_ERROR_NONE
  | GRPC_ERROR string "string option" "grpc_error list"

text \<open>Modelled from the spec: \<^verbatim>\<open>GRPC_ERROR_CREATE_FROM_STATIC_STRING\<close> and
  \<^verbatim>\<open>GRPC_ERROR_CREATE_FROM_COPIED_STRING\<close>, an error holding the description only.\<close>

definition GRPC_ERROR_CREATE :: "string \<Rightarrow> grpc_error" where
  "GRPC_ERROR_CREATE msg = GRPC_ERROR msg None []"

text \<open>Modelled from the spec: \<^verbatim>\<open>grpc_error_set_str\<close> with the key
  \<^verbatim>\<open>GRPC_ERROR_STR_TARGET_ADDRESS\<close>, "attaching the offending name as structured error
  detail".\<close>

fun grpc_error_set_str_target_address :: "grpc_error \<Rightarrow> string \<Rightarrow> grpc_error" where
  "grpc_error_set_str_target_address GRPC_ERROR_NONE name = GRPC_ERROR_NONE"
| "grpc_error_set_str_target_address (GRPC_ERROR msg t cs) name = GRPC_ERROR msg (Some name) cs"

text \<open>Modelled from the spec: \<^verbatim>\<open>grpc_error_add_child\<close>, "a new root whose child is the
  prior chain".\<close>

fun grpc_error_add_child :: "grpc_error \<Rightarrow> grpc_error \<Rightarrow> grpc_error" where
  "grpc_error_add_child GRPC_ERROR_NONE child = child"
| "grpc_error_add_child (GRPC_ERROR msg t cs) child = GRPC_ERROR msg t (cs @ [child])"

text \<open>The status code of c-ares for a completed query, and the two address families
  (their values on Linux).\<close>

definition ARES_SUCCESS :: int where "ARES_SUCCESS = 0"
definition AF_INET :: int where "AF_INET = 2"
definition AF_INET6 :: int where "AF_INET6 = 10"

text \<open>\<^verbatim>\<open>sizeof(struct sockaddr_in)\<close>, \<^verbatim>\<open>sizeof(struct sockaddr_in6)\<close>,
  \<^verbatim>\<open>sizeof(struct in_addr)\<close> and \<^verbatim>\<open>sizeof(struct in6_addr)\<close>.\<close>

definition sizeof_sockaddr_in :: nat where "sizeof_sockaddr_in = 16"
definition sizeof_sockaddr_in6 :: nat where "sizeof_sockaddr_in6 = 28"
definition sizeof_in_addr :: nat where "sizeof_in_addr = 4"
definition sizeof_in6_addr :: nat where "sizeof_in6_addr = 16"

text \<open>\<^verbatim>\<open>struct grpc_ares_hostbyname_request\<close>. The back pointer \<open>parent_request\<close> is
  left out: a world holds one request.\<close>

record grpc_ares_hostbyname_request =
  host :: string
  port :: uint16
  is_balancer :: bool

text \<open>\<^verbatim>\<open>struct hostent\<close> as the callback reads it: the address family and the
  NULL-terminated list of raw addresses.\<close>

record hostent =
  h_addrtype :: int
  h_addr_list :: "byte list list"

text \<open>One record of the list the SRV parser of c-ares returns. c-ares decodes the port of
  the wire into a number of the host (\<^verbatim>\<open>unsigned short port\<close>).\<close>

record ares_srv_reply =
  srv_host :: string
  srv_port :: uint16

text \<open>A socket address inside \<^verbatim>\<open>grpc_resolved_address\<close>: the recorded length and the
  fields the callback writes (family, port, address bytes).\<close>

record grpc_resolved_address =
  len :: nat
  sa_family :: int
  sa_port :: uint16
  sa_addr :: "byte list"

record grpc_lb_address =
  address :: grpc_resolved_address
  lb_is_balancer :: bool
  balancer_name :: "string option"
  user_data :: "nat option"

text \<open>\<^verbatim>\<open>struct grpc_ares_request\<close>. The closure and the driver are handles; the
  union \<open>addrs_out\<close> points at the caller's slot, which is a field of the world.\<close>

record grpc_ares_request =
  on_done :: nat
  lb_addrs_out :: bool
  ev_driver :: nat
  pending_queries :: int
  success :: bool
  error :: grpc_error

text \<open>What c-ares hands to a completion callback: the status, the host entry (read on
  success only), and for an SRV answer what \<^verbatim>\<open>ares_parse_srv_reply\<close> makes of the
  answer buffer: its status and the list it stores in the reply holder (empty for NULL).\<close>

record ares_result =
  status :: int
  hostent :: hostent
  parse_status :: int
  reply :: "ares_srv_reply list"

text \<open>A query c-ares holds: an address query for a sub-request and a family, or the SRV
  query for a service name.\<close>

datatype query =
    Hostbyname grpc_ares_hostbyname_request int
  | Srv_query string

text \<open>The events of a trace. \<open>Sched\<close> is \<^verbatim>\<open>grpc_closure_sched\<close> with the closure and the
  error; \<open>Ref_init\<close>, \<open>Ref\<close> and \<open>Unref\<close> are \<^verbatim>\<open>gpr_ref_init\<close>, \<^verbatim>\<open>gpr_ref\<close> and
  \<^verbatim>\<open>gpr_unref\<close> on the count; \<open>Gethostbyname\<close> and \<open>Query\<close> are the calls of
  \<^verbatim>\<open>ares_gethostbyname\<close> and \<^verbatim>\<open>ares_query\<close>; \<open>Callback\<close> is c-ares calling the callback
  of a query with a result; \<open>Parse_srv_reply\<close> and \<open>Free_data\<close> are
  \<^verbatim>\<open>ares_parse_srv_reply\<close> and \<^verbatim>\<open>ares_free_data\<close>; \<open>Rd\<close> and \<open>Wr\<close> are a read and a write
  of a field of the request.\<close>

datatype field = F_success | F_error

datatype event =
    Sched nat grpc_error
  | Exec_ctx_finish
  | Log_if_error grpc_error
  | Mu_init
  | Mu_lock
  | Mu_unlock
  | Mu_destroy
  | Driver_start nat
  | Driver_destroy nat
  | Free_request
  | Ref_init int
  | Ref
  | Unref
  | Gethostbyname grpc_ares_hostbyname_request int
  | Query string
  | Callback query ares_result
  | Parse_srv_reply
  | Free_data
  | Rd field
  | Wr field

text \<open>
  The world: the request, the caller's two possible output slots (\<open>None\<close> is a NULL slot),
  the queries c-ares holds and has not completed, and the trace. \<open>script\<close> is the
  library's choice at each call that issues a query: \<open>Some res\<close> completes the query
  inside the call (c-ares does so for an address literal or an immediate failure),
  \<open>None\<close> or an exhausted script leaves it in flight.
\<close>

record world =
  req :: grpc_ares_request
  addrs :: "grpc_resolved_address list option"
  lb_addrs :: "grpc_lb_address list option"
  inflight :: "query list"
  script :: "ares_result option list"
  trace :: "event list"

text \<open>What the file takes from its surroundings: the host/port splitter of gpr, the
  result of creating the event driver (an error and the driver handle), the IPv6 probe,
  the status texts of c-ares and the byte order of the host.\<close>

record env =
  gpr_split_host_port :: "string \<Rightarrow> string option \<times> string option"
  grpc_ares_ev_driver_create :: "grpc_error \<times> nat"
  grpc_ipv6_loopback_available :: bool
  ares_strerror :: "int \<Rightarrow> string"
  big_endian :: bool

section \<open>Ports\<close>

text \<open>\<^verbatim>\<open>htons\<close>: the identity on a big-endian host, a swap of the two bytes on a
  little-endian one. \<open>mem_bytes\<close> gives the two bytes of a 16-bit value as they lie in the
  host's memory, lowest address first.\<close>

definition htons :: "env \<Rightarrow> uint16 \<Rightarrow> uint16" where
  "htons E x = (if big_endian E then x else push_bit 8 x OR drop_bit 8 x)"

definition hi_byte :: "uint16 \<Rightarrow> byte" where "hi_byte x = ucast (drop_bit 8 x)"
definition lo_byte :: "uint16 \<Rightarrow> byte" where "lo_byte x = ucast x"

definition mem_bytes :: "env \<Rightarrow> uint16 \<Rightarrow> byte list" where
  "mem_bytes E x = (if big_endian E then [hi_byte x, lo_byte x] else [lo_byte x, hi_byte x])"

text \<open>\<^verbatim>\<open>atoi\<close>: white space is skipped, one sign is read, then decimal digits up to the
  first other character. C leaves the result undefined when it does not fit an \<open>int\<close>
  (glibc then saturates at the range of \<^verbatim>\<open>long\<close>); the model gives the number read.\<close>

definition is_space :: "char \<Rightarrow> bool" where
  "is_space c = ((of_char c :: nat) = 32 \<or> (9 \<le> (of_char c :: nat) \<and> (of_char c :: nat) \<le> 13))"

definition is_digit :: "char \<Rightarrow> bool" where
  "is_digit c = (48 \<le> (of_char c :: nat) \<and> (of_char c :: nat) \<le> 57)"

fun digits :: "int \<Rightarrow> string \<Rightarrow> int" where
  "digits acc [] = acc"
| "digits acc (c # cs) =
     (if is_digit c then digits (10 * acc + (int (of_char c) - 48)) cs else acc)"

definition atoi :: "string \<Rightarrow> int" where
  "atoi s =
     (case dropWhile is_space s of
        [] \<Rightarrow> 0
      | c # cs \<Rightarrow>
          if c = CHR ''-'' then - digits 0 cs
          else if c = CHR ''+'' then digits 0 cs
          else digits 0 (c # cs))"

definition strhtons :: "env \<Rightarrow> string \<Rightarrow> uint16" where
  "strhtons E p =
     (if p = ''http'' then htons E 80
      else if p = ''https'' then htons E 443
      else htons E (word_of_int (atoi p)))"

section \<open>Reference counting and completion\<close>

text \<open>Appending an event to the trace, and storing into the request.\<close>

definition emit :: "event \<Rightarrow> world \<Rightarrow> world" where
  "emit e w = w\<lparr>trace := trace w @ [e]\<rparr>"

definition set_req :: "grpc_ares_request \<Rightarrow> world \<Rightarrow> world" where
  "set_req r w = w\<lparr>req := r\<rparr>"

text \<open>\<^verbatim>\<open>gpr_ref\<close> adds one to the count.\<close>

definition grpc_ares_request_ref :: "world \<Rightarrow> world" where
  "grpc_ares_request_ref w =
     emit Ref (set_req ((req w)\<lparr>pending_queries := pending_queries (req w) + 1\<rparr>) w)"

text \<open>\<^verbatim>\<open>gpr_unref\<close> takes one from the count and answers whether it reached zero, that is
  whether it was 1. On zero the closure is scheduled with the request's error (on a fresh
  execution context, finished at once, when the caller has none), the mutex and the driver
  are destroyed and the request is freed.\<close>

definition grpc_ares_request_unref :: "bool \<Rightarrow> world \<Rightarrow> world" where
  "grpc_ares_request_unref has_exec_ctx w =
     (let r = req w;
          w1 = emit Unref (set_req (r\<lparr>pending_queries := pending_queries r - 1\<rparr>) w)
      in if pending_queries r = 1 then
           (let w2 = (if has_exec_ctx then emit (Sched (on_done r) (error r)) w1
                      else emit Exec_ctx_finish (emit (Sched (on_done r) (error r)) w1))
            in emit Free_request (emit (Driver_destroy (ev_driver r)) (emit Mu_destroy w2)))
         else w1)"

text \<open>A sub-request holds a copy of the host name, the port as given and the flag;
  creating it takes a reference on the request, destroying it releases one.\<close>

definition create_hostbyname_request ::
  "string \<Rightarrow> uint16 \<Rightarrow> bool \<Rightarrow> world \<Rightarrow> grpc_ares_hostbyname_request \<times> world" where
  "create_hostbyname_request h p b w =
     (\<lparr>host = h, port = p, is_balancer = b\<rparr>, grpc_ares_request_ref w)"

definition destroy_hostbyname_request ::
  "bool \<Rightarrow> grpc_ares_hostbyname_request \<Rightarrow> world \<Rightarrow> world" where
  "destroy_hostbyname_request has_exec_ctx hr w = grpc_ares_request_unref has_exec_ctx w"

section \<open>The address result builder\<close>

text \<open>The entry the plain loop writes at one index: the cell is zeroed, then length,
  family, port and the address bytes are set. The family is \<^verbatim>\<open>(sa_family_t)h_addrtype\<close>;
  c-ares gives \<^verbatim>\<open>AF_INET\<close> or \<^verbatim>\<open>AF_INET6\<close> there, which the cast leaves as they are, and
  the model keeps the number.\<close>

definition resolved_address_of ::
  "grpc_ares_hostbyname_request \<Rightarrow> hostent \<Rightarrow> byte list \<Rightarrow> grpc_resolved_address" where
  "resolved_address_of hr he a =
     (if h_addrtype he = AF_INET6
      then \<lparr>len = sizeof_sockaddr_in6, sa_family = h_addrtype he, sa_port = port hr,
            sa_addr = take sizeof_in6_addr a\<rparr>
      else \<lparr>len = sizeof_sockaddr_in, sa_family = h_addrtype he, sa_port = port hr,
            sa_addr = take sizeof_in_addr a\<rparr>)"

definition zero_address :: grpc_resolved_address where
  "zero_address = \<lparr>len = 0, sa_family = 0, sa_port = 0, sa_addr = []\<rparr>"

definition zero_lb_address :: grpc_lb_address where
  "zero_lb_address =
     \<lparr>address = zero_address, lb_is_balancer = False, balancer_name = None, user_data = None\<rparr>"

text \<open>Modelled from the spec: \<^verbatim>\<open>grpc_lb_addresses_set_address\<close> (in
  \<^verbatim>\<open>lb_policy_factory.c\<close>, not part of the sources at hand) stores the address and its
  length, the is-balancer flag, the balancer name and the user data at the index.\<close>

definition grpc_lb_addresses_set_address ::
  "grpc_lb_address list \<Rightarrow> nat \<Rightarrow> grpc_resolved_address \<Rightarrow> bool \<Rightarrow> string option \<Rightarrow>
   nat option \<Rightarrow> grpc_lb_address list" where
  "grpc_lb_addresses_set_address xs i a b n u =
     xs[i := \<lparr>address = a, lb_is_balancer = b, balancer_name = n, user_data = u\<rparr>]"

text \<open>The plain branch of the callback: count the returned addresses, grow the array by
  that many cells, then fill the cells from \<open>prev_naddr\<close> on, reading the address at
  \<open>i - prev_naddr\<close>.\<close>

definition append_addresses ::
  "grpc_ares_hostbyname_request \<Rightarrow> hostent \<Rightarrow> grpc_resolved_address list \<Rightarrow>
   grpc_resolved_address list" where
  "append_addresses hr he xs =
     (let prev_naddr = length xs;
          naddrs = prev_naddr + length (h_addr_list he);
          grown = xs @ replicate (length (h_addr_list he)) zero_address
      in fold (\<lambda>i ys. ys[i := resolved_address_of hr he (h_addr_list he ! (i - prev_naddr))])
           [prev_naddr ..< naddrs] grown)"

text \<open>The load-balancer branch: the same loop, storing through
  \<open>grpc_lb_addresses_set_address\<close> with the flag of the sub-request, a copy of its host
  name when the flag is set, and no user data.\<close>

definition append_lb_addresses ::
  "grpc_ares_hostbyname_request \<Rightarrow> hostent \<Rightarrow> grpc_lb_address list \<Rightarrow> grpc_lb_address list" where
  "append_lb_addresses hr he xs =
     (let prev_naddr = length xs;
          num_addresses = prev_naddr + length (h_addr_list he);
          grown = xs @ replicate (length (h_addr_list he)) zero_lb_address
      in fold (\<lambda>i ys. grpc_lb_addresses_set_address ys i
                  (resolved_address_of hr he (h_addr_list he ! (i - prev_naddr)))
                  (is_balancer hr)
                  (if is_balancer hr then Some (host hr) else None)
                  None)
           [prev_naddr ..< num_addresses] grown)"

section \<open>Completion callbacks\<close>

text \<open>The block both callbacks run for a failed query while no query has succeeded: an
  error is made from the status text and becomes the request's error, with the error so
  far as its child when there is one.\<close>

definition chain_status_error :: "env \<Rightarrow> int \<Rightarrow> world \<Rightarrow> world" where
  "chain_status_error E st w =
     (let err = GRPC_ERROR_CREATE (''C-ares status is not ARES_SUCCESS: '' @ ares_strerror E st);
          w1 = emit (Rd F_error) w;
          r = req w1;
          e = (if error r = GRPC_ERROR_NONE then err else grpc_error_add_child err (error r))
      in emit (Wr F_error) (set_req (r\<lparr>error := e\<rparr>) w1))"

text \<open>The callback of an address query. Under the mutex: on success the error is
  dropped, the flag set and the returned addresses appended to the list of the request's
  mode (created when the slot is NULL); on failure the error is chained while no query has
  succeeded. After unlocking, the sub-request is destroyed with no execution context.\<close>

definition on_hostbyname_done_cb ::
  "env \<Rightarrow> grpc_ares_hostbyname_request \<Rightarrow> ares_result \<Rightarrow> world \<Rightarrow> world" where
  "on_hostbyname_done_cb E hr res w =
     (let w1 = emit Mu_lock w;
          w2 =
            (if status res = ARES_SUCCESS then
               (let wa = emit (Wr F_success) (emit (Wr F_error) (emit (Rd F_error) w1));
                    wb = set_req ((req wa)\<lparr>success := True, error := GRPC_ERROR_NONE\<rparr>) wa
                in if lb_addrs_out (req wb) then
                     wb\<lparr>lb_addrs := Some (append_lb_addresses hr (hostent res)
                           (case lb_addrs wb of None \<Rightarrow> [] | Some xs \<Rightarrow> xs))\<rparr>
                   else
                     wb\<lparr>addrs := Some (append_addresses hr (hostent res)
                           (case addrs wb of None \<Rightarrow> [] | Some xs \<Rightarrow> xs))\<rparr>)
             else
               (let wa = emit (Rd F_success) w1
                in if \<not> success (req wa) then chain_status_error E (status res) wa else wa));
          w3 = emit Mu_unlock w2
      in destroy_hostbyname_request False hr w3)"

text \<open>c-ares, for an address query: the query is handed over; the library either runs the
  callback before the call returns or keeps the query in flight.\<close>

definition next_outcome :: "world \<Rightarrow> ares_result option \<times> world" where
  "next_outcome w =
     (case script w of [] \<Rightarrow> (None, w) | x # xs \<Rightarrow> (x, w\<lparr>script := xs\<rparr>))"

definition ares_gethostbyname ::
  "env \<Rightarrow> grpc_ares_hostbyname_request \<Rightarrow> int \<Rightarrow> world \<Rightarrow> world" where
  "ares_gethostbyname E hr family w =
     (case next_outcome (emit (Gethostbyname hr family) w) of
        (None, w1) \<Rightarrow> w1\<lparr>inflight := inflight w1 @ [Hostbyname hr family]\<rparr>
      | (Some res, w1) \<Rightarrow>
          on_hostbyname_done_cb E hr res (emit (Callback (Hostbyname hr family) res) w1))"

text \<open>The loop of the SRV callback over the parsed records.\<close>

primrec srv_loop :: "env \<Rightarrow> ares_srv_reply list \<Rightarrow> world \<Rightarrow> world" where
  "srv_loop E [] w = w"
| "srv_loop E (srv_it # rest) w =
     (let w1 = (if grpc_ipv6_loopback_available E then
                  (let (hr, wa) = create_hostbyname_request (srv_host srv_it) (srv_port srv_it) True w
                   in ares_gethostbyname E hr AF_INET6 wa)
                else w);
          (hr, w2) = create_hostbyname_request (srv_host srv_it) (srv_port srv_it) True w1;
          w3 = ares_gethostbyname E hr AF_INET w2;
          w4 = emit (Driver_start (ev_driver (req w3))) w3
      in srv_loop E rest w4)"

text \<open>The SRV callback. The reply holder is a local of the success branch;
  \<open>Parse_srv_reply\<close> marks the call of the parser, which stores into the holder (the spec:
  "the parsed-reply holder is only assigned when parsing is attempted"), \<open>Free_data\<close> the
  call of \<^verbatim>\<open>ares_free_data\<close> on it.\<close>

definition on_srv_query_done_cb :: "env \<Rightarrow> ares_result \<Rightarrow> world \<Rightarrow> world" where
  "on_srv_query_done_cb E res w =
     (let w1 =
            (if status res = ARES_SUCCESS then
               (let wp = emit Parse_srv_reply w;
                    wl = (if parse_status res = ARES_SUCCESS then srv_loop E (reply res) wp
                          else wp)
                in if reply res \<noteq> [] then emit Free_data wl else wl)
             else
               (let wa = emit (Rd F_success) w
                in if \<not> success (req wa) then chain_status_error E (status res) wa else wa));
          w2 = grpc_ares_request_unref True w1
      in emit Exec_ctx_finish w2)"

text \<open>c-ares, for the SRV query: as for an address query.\<close>

definition ares_query :: "env \<Rightarrow> string \<Rightarrow> world \<Rightarrow> world" where
  "ares_query E name w =
     (case next_outcome (emit (Query name) w) of
        (None, w1) \<Rightarrow> w1\<lparr>inflight := inflight w1 @ [Srv_query name]\<rparr>
      | (Some res, w1) \<Rightarrow> on_srv_query_done_cb E res (emit (Callback (Srv_query name) res) w1))"

text \<open>A later completion: c-ares takes the query at an index out of those in flight and
  calls its callback with a result; the callback runs to its end before anything else
  touches the request. An index out of range is no completion.\<close>

definition deliver :: "env \<Rightarrow> nat \<times> ares_result \<Rightarrow> world \<Rightarrow> world" where
  "deliver E d w =
     (let i = fst d; res = snd d in
      if i < length (inflight w) then
        (let q = inflight w ! i;
             w1 = emit (Callback q res)
                    (w\<lparr>inflight := take i (inflight w) @ drop (Suc i) (inflight w)\<rparr>)
         in case q of
              Hostbyname hr family \<Rightarrow> on_hostbyname_done_cb E hr res w1
            | Srv_query name \<Rightarrow> on_srv_query_done_cb E res w1)
      else w)"

section \<open>The resolve operation\<close>

text \<open>The resolve call. The two parse errors schedule the closure at once; a failed
  driver is logged; all three leave through \<^verbatim>\<open>error_cleanup\<close>, which frees the two
  strings. Otherwise the request is set up with a count of 1, the address queries for the
  host are issued (IPv6 first, if available), in load-balancer mode a reference is taken
  and the SRV query issued, the driver is started and the creator's reference released.\<close>

definition resolve_address_ares_impl ::
  "env \<Rightarrow> string \<Rightarrow> string option \<Rightarrow> nat \<Rightarrow> bool \<Rightarrow> world \<Rightarrow> world" where
  "resolve_address_ares_impl E name default_port on_done_cl is_lb_addrs_out w =
     (case gpr_split_host_port E name of
        (None, p) \<Rightarrow>
          emit (Sched on_done_cl
                  (grpc_error_set_str_target_address
                     (GRPC_ERROR_CREATE ''unparseable host:port'') name)) w
      | (Some h, p) \<Rightarrow>
          (case (case p of None \<Rightarrow> default_port | Some s \<Rightarrow> Some s) of
             None \<Rightarrow>
               emit (Sched on_done_cl
                       (grpc_error_set_str_target_address
                          (GRPC_ERROR_CREATE ''no port in name'') name)) w
           | Some prt \<Rightarrow>
               (let (err, drv) = grpc_ares_ev_driver_create E in
                if err \<noteq> GRPC_ERROR_NONE then emit (Log_if_error err) w
                else
                  (let w1 = emit Mu_init w;
                       w2 = emit (Ref_init 1)
                              (set_req \<lparr>on_done = on_done_cl, lb_addrs_out = is_lb_addrs_out,
                                        ev_driver = drv, pending_queries = 1, success = False,
                                        error = GRPC_ERROR_NONE\<rparr> w1);
                       w3 = (if grpc_ipv6_loopback_available E then
                               (let (hr, wa) = create_hostbyname_request h (strhtons E prt) False w2
                                in ares_gethostbyname E hr AF_INET6 wa)
                             else w2);
                       (hr, w4) = create_hostbyname_request h (strhtons E prt) False w3;
                       w5 = ares_gethostbyname E hr AF_INET w4;
                       w6 = (if is_lb_addrs_out then
                               ares_query E (''_grpclb._tcp.'' @ h) (grpc_ares_request_ref w5)
                             else w5);
                       w7 = emit (Driver_start (ev_driver (req w6))) w6
                   in grpc_ares_request_unref True w7))))"

text \<open>The two entry points.\<close>

definition grpc_resolve_address_ares_impl ::
  "env \<Rightarrow> string \<Rightarrow> string option \<Rightarrow> nat \<Rightarrow> world \<Rightarrow> world" where
  "grpc_resolve_address_ares_impl E name default_port on_done_cl w =
     resolve_address_ares_impl E name default_port on_done_cl False w"

definition grpc_resolve_grpclb_address_ares ::
  "env \<Rightarrow> string \<Rightarrow> string option \<Rightarrow> nat \<Rightarrow> world \<Rightarrow> world" where
  "grpc_resolve_grpclb_address_ares E name default_port on_done_cl w =
     resolve_address_ares_impl E name default_port on_done_cl True w"

text \<open>A run: the resolve call, then the completions of queries in flight in the order and
  with the results the library chooses, one at a time: each callback has returned when
  the next is called.\<close>

definition run ::
  "env \<Rightarrow> string \<Rightarrow> string option \<Rightarrow> nat \<Rightarrow> bool \<Rightarrow> (nat \<times> ares_result) list \<Rightarrow> world \<Rightarrow> world" where
  "run E name default_port on_done_cl is_lb ds w =
     fold (deliver E) ds (resolve_address_ares_impl E name default_port on_done_cl is_lb w)"

section \<open>The code in parts\<close>

text \<open>
  The definitions of this section cut the functions above at the places the proofs need:
  the events one call of \<open>grpc_ares_request_unref\<close> and of \<open>on_hostbyname_done_cb\<close>
  appends, the request after a completion has been folded in, and the body of the resolve
  call after the request exists. Each is tied to the function it comes from by an equation
  proved below (\<open>unref_simps\<close>, \<open>host_cb_simps\<close>, \<open>srv_cb_body\<close>, \<open>resolve_created\<close>).
\<close>

text \<open>The error \<open>chain_status_error\<close> stores, as a function of the error so far.\<close>

definition link_error :: "env \<Rightarrow> int \<Rightarrow> grpc_error \<Rightarrow> grpc_error" where
  "link_error E st e =
     (let err = GRPC_ERROR_CREATE (''C-ares status is not ARES_SUCCESS: '' @ ares_strerror E st)
      in if e = GRPC_ERROR_NONE then err else grpc_error_add_child err e)"

text \<open>The events of one \<open>grpc_ares_request_unref\<close> on a request \<open>r\<close>.\<close>

definition unref_events :: "bool \<Rightarrow> grpc_ares_request \<Rightarrow> event list" where
  "unref_events has_exec_ctx r =
     Unref # (if pending_queries r = 1
              then Sched (on_done r) (error r) # (if has_exec_ctx then [] else [Exec_ctx_finish])
                   @ [Mu_destroy, Driver_destroy (ev_driver r), Free_request]
              else [])"

text \<open>The request after \<open>on_hostbyname_done_cb\<close> has looked at the status and before it
  releases its reference, and the events up to there.\<close>

definition fold_req :: "env \<Rightarrow> int \<Rightarrow> grpc_ares_request \<Rightarrow> grpc_ares_request" where
  "fold_req E st r =
     (if st = ARES_SUCCESS then r\<lparr>success := True, error := GRPC_ERROR_NONE\<rparr>
      else if success r then r else r\<lparr>error := link_error E st (error r)\<rparr>)"

definition host_cb_events :: "int \<Rightarrow> grpc_ares_request \<Rightarrow> event list" where
  "host_cb_events st r =
     Mu_lock #
     (if st = ARES_SUCCESS then [Rd F_error, Wr F_error, Wr F_success]
      else if success r then [Rd F_success] else [Rd F_success, Rd F_error, Wr F_error])
     @ [Mu_unlock]"

text \<open>The description of the error made for a failed query.\<close>

definition status_message :: "env \<Rightarrow> int \<Rightarrow> string" where
  "status_message E st = ''C-ares status is not ARES_SUCCESS: '' @ ares_strerror E st"

text \<open>The entry the load-balancer loop stores for one returned address.\<close>

definition lb_address_of ::
  "grpc_ares_hostbyname_request \<Rightarrow> hostent \<Rightarrow> byte list \<Rightarrow> grpc_lb_address" where
  "lb_address_of hr he a =
     \<lparr>address = resolved_address_of hr he a, lb_is_balancer = is_balancer hr,
      balancer_name = (if is_balancer hr then Some (host hr) else None), user_data = None\<rparr>"

text \<open>The call gets as far as creating a request: the name has a host, a port is known
  (from the name or the default) and the driver was created. \<open>parsed_host\<close> and
  \<open>used_port\<close> are the host and the port string it then works with.\<close>

definition request_created :: "env \<Rightarrow> string \<Rightarrow> string option \<Rightarrow> bool" where
  "request_created E name dp =
     (case gpr_split_host_port E name of
        (None, p) \<Rightarrow> False
      | (Some h, p) \<Rightarrow>
          (case (case p of None \<Rightarrow> dp | Some s \<Rightarrow> Some s) of
             None \<Rightarrow> False
           | Some prt \<Rightarrow> fst (grpc_ares_ev_driver_create E) = GRPC_ERROR_NONE))"

definition parsed_host :: "env \<Rightarrow> string \<Rightarrow> string" where
  "parsed_host E name = (case fst (gpr_split_host_port E name) of None \<Rightarrow> [] | Some h \<Rightarrow> h)"

definition used_port :: "env \<Rightarrow> string \<Rightarrow> string option \<Rightarrow> string" where
  "used_port E name dp =
     (case snd (gpr_split_host_port E name) of
        Some s \<Rightarrow> s
      | None \<Rightarrow> (case dp of None \<Rightarrow> [] | Some d \<Rightarrow> d))"

text \<open>The request as the call initialises it; what the call does from there up to its
  last statement (\<open>issue_body\<close>), and with it (\<open>issue_all\<close>).\<close>

definition new_request :: "env \<Rightarrow> nat \<Rightarrow> bool \<Rightarrow> grpc_ares_request" where
  "new_request E cl lb =
     \<lparr>on_done = cl, lb_addrs_out = lb, ev_driver = snd (grpc_ares_ev_driver_create E),
      pending_queries = 1, success = False, error = GRPC_ERROR_NONE\<rparr>"

definition issue_body :: "env \<Rightarrow> string \<Rightarrow> string \<Rightarrow> bool \<Rightarrow> world \<Rightarrow> world" where
  "issue_body E h prt lb w2 =
     (let w3 = (if grpc_ipv6_loopback_available E then
                  ares_gethostbyname E \<lparr>host = h, port = strhtons E prt, is_balancer = False\<rparr> AF_INET6
                    (grpc_ares_request_ref w2)
                else w2);
          w5 = ares_gethostbyname E \<lparr>host = h, port = strhtons E prt, is_balancer = False\<rparr> AF_INET
                 (grpc_ares_request_ref w3);
          w6 = (if lb then ares_query E (''_grpclb._tcp.'' @ h) (grpc_ares_request_ref w5) else w5)
      in emit (Driver_start (ev_driver (req w6))) w6)"

definition issue_all :: "env \<Rightarrow> string \<Rightarrow> string \<Rightarrow> bool \<Rightarrow> world \<Rightarrow> world" where
  "issue_all E h prt lb w2 =
     (let w3 = (if grpc_ipv6_loopback_available E then
                  ares_gethostbyname E \<lparr>host = h, port = strhtons E prt, is_balancer = False\<rparr> AF_INET6
                    (grpc_ares_request_ref w2)
                else w2);
          w5 = ares_gethostbyname E \<lparr>host = h, port = strhtons E prt, is_balancer = False\<rparr> AF_INET
                 (grpc_ares_request_ref w3);
          w6 = (if lb then ares_query E (''_grpclb._tcp.'' @ h) (grpc_ares_request_ref w5) else w5);
          w7 = emit (Driver_start (ev_driver (req w6))) w6
      in grpc_ares_request_unref True w7)"

text \<open>The SRV callback up to the release of its reference.\<close>

definition srv_body :: "env \<Rightarrow> ares_result \<Rightarrow> world \<Rightarrow> world" where
  "srv_body E res w =
     (if status res = ARES_SUCCESS then
        (let wp = emit Parse_srv_reply w;
             wl = (if parse_status res = ARES_SUCCESS then srv_loop E (reply res) wp else wp)
         in if reply res \<noteq> [] then emit Free_data wl else wl)
      else
        (let wa = emit (Rd F_success) w
         in if \<not> success (req wa) then chain_status_error E (status res) wa else wa))"

text \<open>What the SRV callback issues for one record of the parsed reply.\<close>

definition spawned :: "env \<Rightarrow> nat \<Rightarrow> ares_srv_reply \<Rightarrow> event list" where
  "spawned E drv r =
     (if grpc_ipv6_loopback_available E
      then [Gethostbyname \<lparr>host = srv_host r, port = srv_port r, is_balancer = True\<rparr> AF_INET6]
      else [])
     @ [Gethostbyname \<lparr>host = srv_host r, port = srv_port r, is_balancer = True\<rparr> AF_INET,
        Driver_start drv]"

section \<open>Completions that overlap\<close>

text \<open>
  \<open>deliver\<close> runs a callback from its first statement to its last before anything else
  touches the request, and a \<open>run\<close> is a sequence of such completions. The callback of
  an address query holds the mutex around its reads and writes of \<open>success\<close> and
  \<open>error\<close>. The SRV callback takes no mutex, so where completions run on several
  threads another one may run between its test \<^verbatim>\<open>!r->success\<close> and its assignment to
  \<^verbatim>\<open>r->error\<close>. The definitions of this section cut the failure branch of the SRV
  callback at that point.
\<close>

text \<open>The test \<^verbatim>\<open>!r->success\<close> of the failure branch: the flag is read, and the value
  read is what the rest of the callback goes by.\<close>

definition srv_failed_begin :: "world \<Rightarrow> bool \<times> world" where
  "srv_failed_begin w = (let wa = emit (Rd F_success) w in (success (req wa), wa))"

text \<open>The rest of the SRV callback after that test: with \<open>seen\<close> the value read, the
  error is made and stored if the flag was seen false; then the reference is released and
  the execution context finished.\<close>

definition srv_failed_end :: "env \<Rightarrow> ares_result \<Rightarrow> bool \<Rightarrow> world \<Rightarrow> world" where
  "srv_failed_end E res seen w =
     (let w1 = (if \<not> seen then chain_status_error E (status res) w else w);
          w2 = grpc_ares_request_unref True w1
      in emit Exec_ctx_finish w2)"

text \<open>A failed completion \<open>s\<close> of the SRV query in flight at an index, with the
  completion \<open>d\<close> of another query delivered between the test and the rest. For any
  other \<open>s\<close> nothing happens.\<close>

definition deliver_overlapped ::
  "env \<Rightarrow> nat \<times> ares_result \<Rightarrow> nat \<times> ares_result \<Rightarrow> world \<Rightarrow> world" where
  "deliver_overlapped E s d w =
     (let i = fst s; res = snd s in
      if i < length (inflight w) \<and> status res \<noteq> ARES_SUCCESS then
        (case inflight w ! i of
           Hostbyname hr family \<Rightarrow> w
         | Srv_query name \<Rightarrow>
             (let w1 = emit (Callback (Srv_query name) res)
                         (w\<lparr>inflight := take i (inflight w) @ drop (Suc i) (inflight w)\<rparr>);
                  (seen, w2) = srv_failed_begin w1;
                  w3 = deliver E d w2
              in srv_failed_end E res seen w3))
      else w)"

section \<open>Reading a trace\<close>

text \<open>Classes of events, and what a trace says about references, queries, completions,
  the error chain and the addresses collected.\<close>

text \<open>The four steps of completion, and the list of them for a request.\<close>

fun is_teardown :: "event \<Rightarrow> bool" where
  "is_teardown (Sched c e) = True"
| "is_teardown Mu_destroy = True"
| "is_teardown (Driver_destroy d) = True"
| "is_teardown Free_request = True"
| "is_teardown _ = False"

definition teardown_of :: "grpc_ares_request \<Rightarrow> event list" where
  "teardown_of r = [Sched (on_done r) (error r), Mu_destroy, Driver_destroy (ev_driver r), Free_request]"

text \<open>A query handed to c-ares; a callback run by c-ares; a reference taken or released;
  the initialisation of the count.\<close>

fun is_issue :: "event \<Rightarrow> bool" where
  "is_issue (Gethostbyname hr f) = True"
| "is_issue (Query n) = True"
| "is_issue _ = False"

fun is_callback :: "event \<Rightarrow> bool" where
  "is_callback (Callback q r) = True"
| "is_callback _ = False"

fun is_ref :: "event \<Rightarrow> bool" where
  "is_ref Ref = True"
| "is_ref _ = False"

fun is_unref :: "event \<Rightarrow> bool" where
  "is_unref Unref = True"
| "is_unref _ = False"

fun is_ref_init :: "event \<Rightarrow> bool" where
  "is_ref_init (Ref_init n) = True"
| "is_ref_init _ = False"

text \<open>The SRV query; the events the SRV callback issues (address queries and restarts
  of the driver); the two events on the reply holder; the events only the resolve call
  itself emits.\<close>

fun is_query :: "event \<Rightarrow> bool" where
  "is_query (Query n) = True"
| "is_query _ = False"

fun is_spawn :: "event \<Rightarrow> bool" where
  "is_spawn (Gethostbyname hr f) = True"
| "is_spawn (Driver_start d) = True"
| "is_spawn _ = False"

fun is_holder :: "event \<Rightarrow> bool" where
  "is_holder Parse_srv_reply = True"
| "is_holder Free_data = True"
| "is_holder _ = False"

fun is_setup :: "event \<Rightarrow> bool" where
  "is_setup Mu_init = True"
| "is_setup (Ref_init n) = True"
| "is_setup (Query n) = True"
| "is_setup (Log_if_error e) = True"
| "is_setup _ = False"

text \<open>Scheduling of the closure, and what may no longer happen after it.\<close>

fun is_sched :: "event \<Rightarrow> bool" where
  "is_sched (Sched c e) = True"
| "is_sched _ = False"

fun is_activity :: "event \<Rightarrow> bool" where
  "is_activity (Gethostbyname hr f) = True"
| "is_activity (Query n) = True"
| "is_activity (Callback q r) = True"
| "is_activity Ref = True"
| "is_activity Unref = True"
| "is_activity _ = False"

text \<open>Address queries, their callbacks, and the ones that report success.\<close>

fun is_host_query :: "query \<Rightarrow> bool" where
  "is_host_query (Hostbyname hr f) = True"
| "is_host_query (Srv_query n) = False"

fun is_host_callback :: "event \<Rightarrow> bool" where
  "is_host_callback (Callback q res) = is_host_query q"
| "is_host_callback _ = False"

fun host_ok :: "event \<Rightarrow> bool" where
  "host_ok (Callback (Hostbyname hr f) res) = (status res = ARES_SUCCESS)"
| "host_ok _ = False"

definition count_ev :: "(event \<Rightarrow> bool) \<Rightarrow> world \<Rightarrow> nat" where
  "count_ev P w = length (filter P (trace w))"

text \<open>Three balances of a world. Each weighs the events of the trace: references taken
  against queries issued; queries issued against callbacks run and queries in flight;
  references released against callbacks run and the count itself.\<close>

fun wt_ref :: "event \<Rightarrow> int" where
  "wt_ref Ref = 1"
| "wt_ref (Gethostbyname hr f) = - 1"
| "wt_ref (Query n) = - 1"
| "wt_ref _ = 0"

fun wt_fly :: "event \<Rightarrow> int" where
  "wt_fly (Gethostbyname hr f) = 1"
| "wt_fly (Query n) = 1"
| "wt_fly (Callback q r) = - 1"
| "wt_fly _ = 0"

fun wt_unref :: "event \<Rightarrow> int" where
  "wt_unref Unref = 1"
| "wt_unref (Callback q r) = - 1"
| "wt_unref _ = 0"

definition b_ref :: "world \<Rightarrow> int" where
  "b_ref w = sum_list (map wt_ref (trace w))"

definition b_fly :: "world \<Rightarrow> int" where
  "b_fly w = sum_list (map wt_fly (trace w)) - int (length (inflight w))"

definition b_unref :: "world \<Rightarrow> int" where
  "b_unref w =
     sum_list (map wt_unref (trace w)) + pending_queries (req w) - int (length (inflight w))"

text \<open>Every query is handed to c-ares right after a reference was taken: \<open>b\<close> says
  whether the event before the list was \<open>Ref\<close>.\<close>

fun ref_precedes :: "bool \<Rightarrow> event list \<Rightarrow> bool" where
  "ref_precedes b [] = True"
| "ref_precedes b (e # es) = ((if is_issue e then b else True) \<and> ref_precedes (e = Ref) es)"

text \<open>The events after the first scheduling of the closure.\<close>

fun after_sched :: "event list \<Rightarrow> event list" where
  "after_sched [] = []"
| "after_sched (e # es) = (if is_sched e then es else after_sched es)"

text \<open>Every read and write of \<open>success\<close> and \<open>error\<close> in the list happens between
  a lock and the next unlock of the mutex; \<open>held\<close> says whether it is locked at the start.\<close>

fun guarded :: "bool \<Rightarrow> event list \<Rightarrow> bool" where
  "guarded held [] = True"
| "guarded held (Mu_lock # es) = guarded True es"
| "guarded held (Mu_unlock # es) = guarded False es"
| "guarded held (Rd f # es) = (held \<and> guarded held es)"
| "guarded held (Wr f # es) = (held \<and> guarded held es)"
| "guarded held (e # es) = guarded held es"

text \<open>The messages of the failed completions of a trace, in the order they arrived.\<close>

fun failure_of :: "env \<Rightarrow> event \<Rightarrow> string list" where
  "failure_of E (Callback q res) =
     (if status res = ARES_SUCCESS then [] else [status_message E (status res)])"
| "failure_of E _ = []"

fun failures :: "env \<Rightarrow> event list \<Rightarrow> string list" where
  "failures E [] = []"
| "failures E (e # es) = failure_of E e @ failures E es"

text \<open>The chain the spec describes, from the messages of the failures, the latest first:
  each failure is "a new root whose child is the prior chain, or the sole error if the
  chain was empty".\<close>

fun chain_of :: "string list \<Rightarrow> grpc_error" where
  "chain_of [] = GRPC_ERROR_NONE"
| "chain_of (m # ms) =
     (if ms = [] then GRPC_ERROR m None [] else GRPC_ERROR m None [chain_of ms])"

text \<open>The addresses of the successful address completions of a trace, in the order the
  completions arrived, in both output shapes.\<close>

fun plain_batch :: "event \<Rightarrow> grpc_resolved_address list" where
  "plain_batch (Callback (Hostbyname hr f) res) =
     (if status res = ARES_SUCCESS
      then map (resolved_address_of hr (hostent res)) (h_addr_list (hostent res)) else [])"
| "plain_batch _ = []"

fun plain_batches :: "event list \<Rightarrow> grpc_resolved_address list" where
  "plain_batches [] = []"
| "plain_batches (e # es) = plain_batch e @ plain_batches es"

fun lb_batch :: "event \<Rightarrow> grpc_lb_address list" where
  "lb_batch (Callback (Hostbyname hr f) res) =
     (if status res = ARES_SUCCESS
      then map (lb_address_of hr (hostent res)) (h_addr_list (hostent res)) else [])"
| "lb_batch _ = []"

fun lb_batches :: "event list \<Rightarrow> grpc_lb_address list" where
  "lb_batches [] = []"
| "lb_batches (e # es) = lb_batch e @ lb_batches es"

section \<open>Invariants of a run\<close>

text \<open>\<open>counted h w\<close>: the count is the number of queries in flight plus the \<open>h\<close>
  references held by code that is running (the creator, a callback), and the completion
  steps have happened, once and in order, exactly if nothing is in flight and nothing is
  held.\<close>

definition counted :: "nat \<Rightarrow> world \<Rightarrow> bool" where
  "counted h w =
     (pending_queries (req w) = int h + int (length (inflight w)) \<and>
      filter is_teardown (trace w) =
        (if h = 0 \<and> inflight w = [] then teardown_of (req w) else []))"

definition balanced :: "int \<Rightarrow> int \<Rightarrow> int \<Rightarrow> world \<Rightarrow> bool" where
  "balanced a b c w = (b_ref w = a \<and> b_fly w = b \<and> b_unref w = c)"

text \<open>Queries follow references; nothing is issued or completed after the closure was
  scheduled.\<close>

definition dispatch_ok :: "world \<Rightarrow> bool" where
  "dispatch_ok w = ref_precedes False (trace w)"

definition calm :: "world \<Rightarrow> bool" where
  "calm w = (filter is_activity (after_sched (trace w)) = [])"

text \<open>\<open>folded E w\<close>: the success flag, the error and the two output slots are what the
  completions in the trace make them.\<close>

definition folded :: "env \<Rightarrow> world \<Rightarrow> bool" where
  "folded E w =
     (success (req w) = (filter host_ok (trace w) \<noteq> []) \<and>
      error (req w) =
        (if success (req w) then GRPC_ERROR_NONE else chain_of (rev (failures E (trace w)))) \<and>
      addrs w =
        (if success (req w) \<and> \<not> lb_addrs_out (req w)
         then Some (plain_batches (trace w)) else None) \<and>
      lb_addrs w =
        (if success (req w) \<and> lb_addrs_out (req w)
         then Some (lb_batches (trace w)) else None))"

text \<open>What stays as the call set it up: the handles of the request and the set-up events
  of the trace.\<close>

definition core :: "world \<Rightarrow> nat \<times> bool \<times> nat \<times> event list" where
  "core w =
     (on_done (req w), lb_addrs_out (req w), ev_driver (req w), filter is_setup (trace w))"

text \<open>Some address query is in flight or has completed.\<close>

definition served :: "world \<Rightarrow> bool" where
  "served w =
     (filter is_host_query (inflight w) \<noteq> [] \<or> filter is_host_callback (trace w) \<noteq> [])"

section \<open>Example inputs\<close>

text \<open>A little-endian host without IPv6 loopback, a splitter that knows two names, a
  world in which nothing has happened yet, and the results c-ares may deliver.\<close>

definition example_split :: "string \<Rightarrow> string option \<times> string option" where
  "example_split n =
     (if n = ''example.com:8080'' then (Some ''example.com'', Some ''8080'')
      else if n = ''example.com'' then (Some ''example.com'', None)
      else (None, None))"

definition example_env :: env where
  "example_env =
     \<lparr>gpr_split_host_port = example_split,
      grpc_ares_ev_driver_create = (GRPC_ERROR_NONE, 7),
      grpc_ipv6_loopback_available = False,
      ares_strerror = (\<lambda>st. if st = 4 then ''Domain name not found'' else ''unknown''),
      big_endian = False\<rparr>"

definition failing_driver_env :: env where
  "failing_driver_env =
     example_env\<lparr>grpc_ares_ev_driver_create := (GRPC_ERROR ''ares_init_options failed'' None [], 0)\<rparr>"

definition fresh_world :: world where
  "fresh_world =
     \<lparr>req = \<lparr>on_done = 0, lb_addrs_out = False, ev_driver = 0, pending_queries = 0,
             success = False, error = GRPC_ERROR_NONE\<rparr>,
      addrs = None, lb_addrs = None, inflight = [], script = [], trace = []\<rparr>"

definition host_failure :: ares_result where
  "host_failure = \<lparr>status = 4, hostent = \<lparr>h_addrtype = 0, h_addr_list = []\<rparr>,
                    parse_status = 0, reply = []\<rparr>"

definition srv_answer :: "int \<Rightarrow> ares_srv_reply list \<Rightarrow> ares_result" where
  "srv_answer ps rs = \<lparr>status = 0, hostent = \<lparr>h_addrtype = 0, h_addr_list = []\<rparr>,
                     parse_status = ps, reply = rs\<rparr>"

definition host_answer :: "int \<Rightarrow> byte list list \<Rightarrow> ares_result" where
  "host_answer fam as = \<lparr>status = 0, hostent = \<lparr>h_addrtype = fam, h_addr_list = as\<rparr>,
                     parse_status = 0, reply = []\<rparr>"

definition srv_one :: ares_result where
  "srv_one = srv_answer 0 [\<lparr>srv_host = ''lb.example.com'', srv_port = 1234\<rparr>]"

definition host_one :: ares_result where
  "host_one = host_answer 2 [[10, 0, 0, 1]]"

definition not_found :: grpc_error where
  "not_found = GRPC_ERROR ''C-ares status is not ARES_SUCCESS: Domain name not found'' None []"

definition both_not_found :: grpc_error where
  "both_not_found =
     GRPC_ERROR ''C-ares status is not ARES_SUCCESS: Domain name not found'' None [not_found]"

definition direct_hr :: grpc_ares_hostbyname_request where
  "direct_hr = \<lparr>host = ''example.com'', port = 36895, is_balancer = False\<rparr>"

definition balancer_hr :: grpc_ares_hostbyname_request where
  "balancer_hr = \<lparr>host = ''lb.example.com'', port = 1234, is_balancer = True\<rparr>"

text \<open>The load-balancer entry for the address 10.0.0.1 of \<open>example.com:8080\<close>.\<close>

definition direct_entry :: grpc_lb_address where
  "direct_entry =
     \<lparr>address = \<lparr>len = 16, sa_family = 2, sa_port = 36895, sa_addr = [10, 0, 0, 1]\<rparr>,
      lb_is_balancer = False, balancer_name = None, user_data = None\<rparr>"

text \<open>The world after a resolve call for \<open>example.com:8080\<close>, in both modes, while every
  query is still in flight.\<close>

definition lb_world :: world where
  "lb_world = run example_env ''example.com:8080'' None 1 True [] fresh_world"

definition plain_world :: world where
  "plain_world = run example_env ''example.com:8080'' None 1 False [] fresh_world"

section \<open>What each operation does to the world\<close>

lemma emit_simps [simp]:
  "trace (emit e w) = trace w @ [e]"
  "req (emit e w) = req w"
  "addrs (emit e w) = addrs w"
  "lb_addrs (emit e w) = lb_addrs w"
  "inflight (emit e w) = inflight w"
  "script (emit e w) = script w"
  by (simp_all add: emit_def)

lemma set_req_simps [simp]:
  "trace (set_req r w) = trace w"
  "req (set_req r w) = r"
  "addrs (set_req r w) = addrs w"
  "lb_addrs (set_req r w) = lb_addrs w"
  "inflight (set_req r w) = inflight w"
  "script (set_req r w) = script w"
  by (simp_all add: set_req_def)

lemma ref_simps [simp]:
  "trace (grpc_ares_request_ref w) = trace w @ [Ref]"
  "req (grpc_ares_request_ref w) = (req w)\<lparr>pending_queries := pending_queries (req w) + 1\<rparr>"
  "addrs (grpc_ares_request_ref w) = addrs w"
  "lb_addrs (grpc_ares_request_ref w) = lb_addrs w"
  "inflight (grpc_ares_request_ref w) = inflight w"
  "script (grpc_ares_request_ref w) = script w"
  by (simp_all add: grpc_ares_request_ref_def)

lemma unref_simps [simp]:
  "trace (grpc_ares_request_unref b w) = trace w @ unref_events b (req w)"
  "req (grpc_ares_request_unref b w) = (req w)\<lparr>pending_queries := pending_queries (req w) - 1\<rparr>"
  "addrs (grpc_ares_request_unref b w) = addrs w"
  "lb_addrs (grpc_ares_request_unref b w) = lb_addrs w"
  "inflight (grpc_ares_request_unref b w) = inflight w"
  "script (grpc_ares_request_unref b w) = script w"
  by (simp_all add: grpc_ares_request_unref_def unref_events_def Let_def)

lemma chain_simps [simp]:
  "trace (chain_status_error E st w) = trace w @ [Rd F_error, Wr F_error]"
  "req (chain_status_error E st w) = (req w)\<lparr>error := link_error E st (error (req w))\<rparr>"
  "addrs (chain_status_error E st w) = addrs w"
  "lb_addrs (chain_status_error E st w) = lb_addrs w"
  "inflight (chain_status_error E st w) = inflight w"
  "script (chain_status_error E st w) = script w"
  by (simp_all add: chain_status_error_def link_error_def Let_def)

lemma host_cb_simps [simp]:
  "trace (on_hostbyname_done_cb E hr res w) =
     trace w @ host_cb_events (status res) (req w) @ unref_events False (fold_req E (status res) (req w))"
  "req (on_hostbyname_done_cb E hr res w) =
     (fold_req E (status res) (req w))\<lparr>pending_queries := pending_queries (req w) - 1\<rparr>"
  "addrs (on_hostbyname_done_cb E hr res w) =
     (if status res = ARES_SUCCESS \<and> \<not> lb_addrs_out (req w)
      then Some (append_addresses hr (hostent res) (case addrs w of None \<Rightarrow> [] | Some xs \<Rightarrow> xs))
      else addrs w)"
  "lb_addrs (on_hostbyname_done_cb E hr res w) =
     (if status res = ARES_SUCCESS \<and> lb_addrs_out (req w)
      then Some (append_lb_addresses hr (hostent res) (case lb_addrs w of None \<Rightarrow> [] | Some xs \<Rightarrow> xs))
      else lb_addrs w)"
  "inflight (on_hostbyname_done_cb E hr res w) = inflight w"
  "script (on_hostbyname_done_cb E hr res w) = script w"
  by (simp_all add: on_hostbyname_done_cb_def destroy_hostbyname_request_def fold_req_def
        host_cb_events_def Let_def)

section \<open>The count and the completion steps\<close>

lemma teardown_unref_events:
  "filter is_teardown (unref_events b r) = (if pending_queries r = 1 then teardown_of r else [])"
  by (simp add: unref_events_def teardown_of_def)

lemma teardown_host_cb_events [simp]: "filter is_teardown (host_cb_events st r) = []"
  by (simp add: host_cb_events_def)

lemma teardown_of_pending [simp]:
  "teardown_of (r\<lparr>pending_queries := n\<rparr>) = teardown_of r"
  by (simp add: teardown_of_def)

lemma int_sum_zero [simp]: "(int h + int n = 0) = (h = 0 \<and> n = 0)"
  by linarith

lemma counted_emit: "\<not> is_teardown e \<Longrightarrow> counted h w \<Longrightarrow> counted h (emit e w)"
  by (simp add: counted_def)

lemma counted_ref: "counted (Suc h) w \<Longrightarrow> counted (Suc (Suc h)) (grpc_ares_request_ref w)"
  by (simp add: counted_def)

lemma counted_unref: "counted (Suc h) w \<Longrightarrow> counted h (grpc_ares_request_unref b w)"
  by (auto simp add: counted_def teardown_unref_events)

lemma fold_req_fields [simp]:
  "pending_queries (fold_req E st r) = pending_queries r"
  "on_done (fold_req E st r) = on_done r"
  "ev_driver (fold_req E st r) = ev_driver r"
  "lb_addrs_out (fold_req E st r) = lb_addrs_out r"
  by (simp_all add: fold_req_def)

lemma counted_host_cb: "counted (Suc h) w \<Longrightarrow> counted h (on_hostbyname_done_cb E hr res w)"
  by (auto simp add: counted_def teardown_unref_events)

lemma counted_gethostbyname:
  "counted (Suc h) w \<Longrightarrow> counted h (ares_gethostbyname E hr fam w)"
proof -
  assume c: "counted (Suc h) w"
  let ?w1 = "emit (Gethostbyname hr fam) w"
  have c1: "counted (Suc h) ?w1" using c by (simp add: counted_emit)
  show ?thesis
  proof (cases "script w")
    case Nil
    then show ?thesis using c by (simp add: ares_gethostbyname_def next_outcome_def counted_def)
  next
    case (Cons x xs)
    show ?thesis
    proof (cases x)
      case None
      then show ?thesis using c Cons
        by (simp add: ares_gethostbyname_def next_outcome_def counted_def)
    next
      case (Some res)
      have "counted (Suc h) (emit (Callback (Hostbyname hr fam) res) (?w1\<lparr>script := xs\<rparr>))"
        using c by (simp add: counted_def)
      then show ?thesis using Some Cons
        by (simp add: ares_gethostbyname_def next_outcome_def counted_host_cb)
    qed
  qed
qed

lemma counted_issue_host:
  "counted (Suc h) w \<Longrightarrow>
   counted (Suc h) (ares_gethostbyname E (fst (create_hostbyname_request a p b w)) fam
                      (snd (create_hostbyname_request a p b w)))"
  by (simp add: create_hostbyname_request_def counted_gethostbyname counted_ref)

lemma counted_srv_loop: "counted (Suc h) w \<Longrightarrow> counted (Suc h) (srv_loop E rs w)"
proof (induction rs arbitrary: w)
  case Nil
  then show ?case by simp
next
  case (Cons r rs)
  let ?w1 = "if grpc_ipv6_loopback_available E
             then ares_gethostbyname E (fst (create_hostbyname_request (srv_host r) (srv_port r) True w)) AF_INET6
                      (snd (create_hostbyname_request (srv_host r) (srv_port r) True w))
             else w"
  have 1: "counted (Suc h) ?w1" using Cons.prems by (simp add: counted_issue_host)
  let ?w3 = "ares_gethostbyname E (fst (create_hostbyname_request (srv_host r) (srv_port r) True ?w1)) AF_INET
                      (snd (create_hostbyname_request (srv_host r) (srv_port r) True ?w1))"
  have 3: "counted (Suc h) ?w3" using 1 by (rule counted_issue_host)
  have 4: "counted (Suc h) (emit (Driver_start (ev_driver (req ?w3))) ?w3)"
    using 3 by (simp add: counted_emit)
  have "srv_loop E (r # rs) w = srv_loop E rs (emit (Driver_start (ev_driver (req ?w3))) ?w3)"
    by (simp add: Let_def split_def)
  then show ?case using Cons.IH [OF 4] by simp
qed

lemma counted_srv_cb: "counted (Suc h) w \<Longrightarrow> counted h (on_srv_query_done_cb E res w)"
proof -
  assume c: "counted (Suc h) w"
  let ?w1 = "(if status res = ARES_SUCCESS then
               (let wp = emit Parse_srv_reply w;
                    wl = (if parse_status res = ARES_SUCCESS then srv_loop E (reply res) wp
                          else wp)
                in if reply res \<noteq> [] then emit Free_data wl else wl)
             else
               (let wa = emit (Rd F_success) w
                in if \<not> success (req wa) then chain_status_error E (status res) wa else wa))"
  have "counted (Suc h) ?w1"
    using c by (auto simp add: Let_def counted_emit counted_srv_loop) (simp_all add: counted_def)
  then have "counted h (emit Exec_ctx_finish (grpc_ares_request_unref True ?w1))"
    by (simp add: counted_emit counted_unref)
  then show ?thesis by (simp add: on_srv_query_done_cb_def Let_def)
qed

text \<open>A query the library keeps in flight.\<close>

lemma gethostbyname_async:
  "script w = [] \<Longrightarrow>
   ares_gethostbyname E hr fam w =
     (emit (Gethostbyname hr fam) w)\<lparr>inflight := inflight w @ [Hostbyname hr fam]\<rparr>"
  by (simp add: ares_gethostbyname_def next_outcome_def)

lemma query_async:
  "script w = [] \<Longrightarrow>
   ares_query E n w = (emit (Query n) w)\<lparr>inflight := inflight w @ [Srv_query n]\<rparr>"
  by (simp add: ares_query_def next_outcome_def)

text \<open>A call that creates a request is the issuing part run on the new request.\<close>

lemma resolve_created:
  assumes "request_created E name dp"
  shows "resolve_address_ares_impl E name dp cl lb w =
     issue_all E (parsed_host E name) (used_port E name dp) lb
       (emit (Ref_init 1) (set_req (new_request E cl lb) (emit Mu_init w)))"
proof -
  obtain ho p where sp: "gpr_split_host_port E name = (ho, p)"
    by (cases "gpr_split_host_port E name")
  obtain h where h: "ho = Some h"
    using assms sp by (cases ho) (simp_all add: request_created_def)
  obtain prt where prt: "(case p of None \<Rightarrow> dp | Some s \<Rightarrow> Some s) = Some prt"
    using assms sp h
    by (cases "case p of None \<Rightarrow> dp | Some s \<Rightarrow> Some s") (simp_all add: request_created_def)
  obtain drv where drv: "grpc_ares_ev_driver_create E = (GRPC_ERROR_NONE, drv)"
    using assms sp h prt
    by (cases "grpc_ares_ev_driver_create E") (simp add: request_created_def)
  have ph: "parsed_host E name = h" by (simp add: parsed_host_def sp h)
  have up: "used_port E name dp = prt"
    using prt by (simp add: used_port_def sp split: option.splits)
  have nr: "new_request E cl lb =
      \<lparr>on_done = cl, lb_addrs_out = lb, ev_driver = drv, pending_queries = 1, success = False,
       error = GRPC_ERROR_NONE\<rparr>"
    by (simp add: new_request_def drv)
  show ?thesis
    unfolding ph up nr resolve_address_ares_impl_def issue_all_def sp h
    by (simp only: prod.case option.case prt drv create_hostbyname_request_def Let_def
          simp_thms if_False)
qed

lemma counted_query: "counted (Suc h) w \<Longrightarrow> counted h (ares_query E n w)"
proof -
  assume c: "counted (Suc h) w"
  show ?thesis
  proof (cases "script w")
    case Nil
    then show ?thesis using c by (simp add: ares_query_def next_outcome_def counted_def)
  next
    case (Cons x xs)
    show ?thesis
    proof (cases x)
      case None
      then show ?thesis using c Cons
        by (simp add: ares_query_def next_outcome_def counted_def)
    next
      case (Some res)
      have "counted (Suc h) (emit (Callback (Srv_query n) res) ((emit (Query n) w)\<lparr>script := xs\<rparr>))"
        using c by (simp add: counted_def)
      then show ?thesis using Some Cons
        by (simp add: ares_query_def next_outcome_def counted_srv_cb)
    qed
  qed
qed

lemma counted_issue_all: "counted 1 w \<Longrightarrow> counted 0 (issue_all E h p lb w)"
proof -
  assume c: "counted 1 w"
  let ?hr = "\<lparr>host = h, port = strhtons E p, is_balancer = False\<rparr>"
  let ?w3 = "(if grpc_ipv6_loopback_available E then
                  ares_gethostbyname E ?hr AF_INET6 (grpc_ares_request_ref w)
                else w)"
  have 3: "counted (Suc 0) ?w3" using c by (simp add: counted_gethostbyname counted_ref)
  let ?w5 = "ares_gethostbyname E ?hr AF_INET (grpc_ares_request_ref ?w3)"
  have 5: "counted (Suc 0) ?w5" using 3 by (intro counted_gethostbyname counted_ref)
  let ?w6 = "(if lb then ares_query E (''_grpclb._tcp.'' @ h) (grpc_ares_request_ref ?w5) else ?w5)"
  have 6: "counted (Suc 0) ?w6" using 5 by (simp add: counted_query counted_ref)
  have "counted 0 (grpc_ares_request_unref True (emit (Driver_start (ev_driver (req ?w6))) ?w6))"
    using 6 by (intro counted_unref counted_emit) simp_all
  then show ?thesis by (simp add: issue_all_def Let_def)
qed

lemma counted_resolve:
  "request_created E name dp \<Longrightarrow> inflight w = [] \<Longrightarrow> trace w = [] \<Longrightarrow>
   counted 0 (resolve_address_ares_impl E name dp cl lb w)"
  by (simp add: resolve_created) (rule counted_issue_all, simp add: counted_def new_request_def)

lemma counted_deliver: "counted 0 w \<Longrightarrow> counted 0 (deliver E d w)"
proof (cases "fst d < length (inflight w)")
  case False
  assume "counted 0 w"
  then show ?thesis using False by (simp add: deliver_def)
next
  case True
  assume c: "counted 0 w"
  let ?w1 = "emit (Callback (inflight w ! fst d) (snd d))
               (w\<lparr>inflight := take (fst d) (inflight w) @ drop (Suc (fst d)) (inflight w)\<rparr>)"
  have "counted (Suc 0) ?w1" using c True by (auto simp add: counted_def)
  then show ?thesis using True
    by (cases "inflight w ! fst d")
       (simp_all add: deliver_def Let_def counted_host_cb counted_srv_cb)
qed

lemma counted_fold_deliver: "counted 0 w \<Longrightarrow> counted 0 (fold (deliver E) ds w)"
  by (induction ds arbitrary: w) (simp_all add: counted_deliver)

lemma counted_run:
  "request_created E name dp \<Longrightarrow> inflight w = [] \<Longrightarrow> trace w = [] \<Longrightarrow>
   counted 0 (run E name dp cl lb ds w)"
  by (simp add: run_def counted_fold_deliver counted_resolve)

section \<open>References, queries and callbacks balance\<close>

lemma wt_unref_events [simp]:
  "sum_list (map wt_ref (unref_events b r)) = 0"
  "sum_list (map wt_fly (unref_events b r)) = 0"
  "sum_list (map wt_unref (unref_events b r)) = 1"
  by (simp_all add: unref_events_def)

lemma wt_host_cb_events [simp]:
  "sum_list (map wt_ref (host_cb_events st r)) = 0"
  "sum_list (map wt_fly (host_cb_events st r)) = 0"
  "sum_list (map wt_unref (host_cb_events st r)) = 0"
  by (simp_all add: host_cb_events_def)

lemma balanced_emit:
  "balanced a b c w \<Longrightarrow> balanced (a + wt_ref e) (b + wt_fly e) (c + wt_unref e) (emit e w)"
  by (simp add: balanced_def b_ref_def b_fly_def b_unref_def)

lemma balanced_emit0:
  "wt_ref e = 0 \<Longrightarrow> wt_fly e = 0 \<Longrightarrow> wt_unref e = 0 \<Longrightarrow>
   balanced a b c w \<Longrightarrow> balanced a b c (emit e w)"
  by (simp add: balanced_def b_ref_def b_fly_def b_unref_def)

lemma balanced_ref:
  "balanced a b c w \<Longrightarrow> balanced (a + 1) b (c + 1) (grpc_ares_request_ref w)"
  by (simp add: balanced_def b_ref_def b_fly_def b_unref_def)

lemma balanced_unref:
  "balanced a b c w \<Longrightarrow> balanced a b c (grpc_ares_request_unref x w)"
  by (simp add: balanced_def b_ref_def b_fly_def b_unref_def)

lemma balanced_chain:
  "balanced a b c w \<Longrightarrow> balanced a b c (chain_status_error E st w)"
  by (simp add: balanced_def b_ref_def b_fly_def b_unref_def)

lemma balanced_host_cb:
  "balanced a b c w \<Longrightarrow> balanced a b c (on_hostbyname_done_cb E hr res w)"
  by (simp add: balanced_def b_ref_def b_fly_def b_unref_def)

lemma balanced_gethostbyname:
  "balanced a b c w \<Longrightarrow> balanced (a - 1) b (c - 1) (ares_gethostbyname E hr fam w)"
proof -
  assume c: "balanced a b c w"
  show ?thesis
  proof (cases "script w")
    case Nil
    then show ?thesis using c
      by (simp add: ares_gethostbyname_def next_outcome_def balanced_def b_ref_def b_fly_def b_unref_def)
  next
    case (Cons x xs)
    show ?thesis
    proof (cases x)
      case None
      then show ?thesis using c Cons
        by (simp add: ares_gethostbyname_def next_outcome_def balanced_def b_ref_def b_fly_def b_unref_def)
    next
      case (Some res)
      have "balanced (a - 1) b (c - 1)
              (emit (Callback (Hostbyname hr fam) res) ((emit (Gethostbyname hr fam) w)\<lparr>script := xs\<rparr>))"
        using c by (simp add: balanced_def b_ref_def b_fly_def b_unref_def)
      then show ?thesis using Some Cons
        by (simp add: ares_gethostbyname_def next_outcome_def balanced_host_cb)
    qed
  qed
qed

lemma balanced_issue_host:
  "balanced a b c w \<Longrightarrow>
   balanced a b c (ares_gethostbyname E hr fam (grpc_ares_request_ref w))"
  using balanced_gethostbyname [OF balanced_ref, of a b c w E hr fam] by simp

lemma srv_loop_Cons:
  "srv_loop E (r # rs) w =
     srv_loop E rs
       (let w1 = (if grpc_ipv6_loopback_available E
                  then ares_gethostbyname E \<lparr>host = srv_host r, port = srv_port r, is_balancer = True\<rparr>
                         AF_INET6 (grpc_ares_request_ref w)
                  else w);
            w3 = ares_gethostbyname E \<lparr>host = srv_host r, port = srv_port r, is_balancer = True\<rparr>
                   AF_INET (grpc_ares_request_ref w1)
        in emit (Driver_start (ev_driver (req w3))) w3)"
  by (simp add: Let_def create_hostbyname_request_def)

lemma balanced_srv_loop: "balanced a b c w \<Longrightarrow> balanced a b c (srv_loop E rs w)"
proof (induction rs arbitrary: w)
  case Nil
  then show ?case by simp
next
  case (Cons r rs)
  show ?case
    unfolding srv_loop_Cons Let_def
    by (intro Cons.IH balanced_emit0 balanced_issue_host) (simp_all add: Cons.prems balanced_issue_host)
qed

lemma balanced_srv_cb: "balanced a b c w \<Longrightarrow> balanced a b c (on_srv_query_done_cb E res w)"
  unfolding on_srv_query_done_cb_def Let_def
  by (intro balanced_emit0 balanced_unref)
     (auto intro!: balanced_emit0 balanced_srv_loop balanced_chain)

lemma balanced_query:
  "balanced a b c w \<Longrightarrow> balanced (a - 1) b (c - 1) (ares_query E n w)"
proof -
  assume c: "balanced a b c w"
  show ?thesis
  proof (cases "script w")
    case Nil
    then show ?thesis using c
      by (simp add: ares_query_def next_outcome_def balanced_def b_ref_def b_fly_def b_unref_def)
  next
    case (Cons x xs)
    show ?thesis
    proof (cases x)
      case None
      then show ?thesis using c Cons
        by (simp add: ares_query_def next_outcome_def balanced_def b_ref_def b_fly_def b_unref_def)
    next
      case (Some res)
      have "balanced (a - 1) b (c - 1)
              (emit (Callback (Srv_query n) res) ((emit (Query n) w)\<lparr>script := xs\<rparr>))"
        using c by (simp add: balanced_def b_ref_def b_fly_def b_unref_def)
      then show ?thesis using Some Cons
        by (simp add: ares_query_def next_outcome_def balanced_srv_cb)
    qed
  qed
qed

lemma balanced_issue_srv:
  "balanced a b c w \<Longrightarrow> balanced a b c (ares_query E n (grpc_ares_request_ref w))"
  using balanced_query [OF balanced_ref, of a b c w E n] by simp

lemma balanced_issue_all: "balanced a b c w \<Longrightarrow> balanced a b c (issue_all E h p lb w)"
  unfolding issue_all_def Let_def
  by (intro balanced_unref balanced_emit0)
     (auto intro!: balanced_issue_host balanced_issue_srv)

lemma balanced_resolve:
  "request_created E name dp \<Longrightarrow> inflight w = [] \<Longrightarrow> trace w = [] \<Longrightarrow>
   balanced 0 0 1 (resolve_address_ares_impl E name dp cl lb w)"
  by (simp add: resolve_created)
     (rule balanced_issue_all, simp add: balanced_def b_ref_def b_fly_def b_unref_def new_request_def)

lemma balanced_deliver: "balanced a b c w \<Longrightarrow> balanced a b c (deliver E d w)"
proof (cases "fst d < length (inflight w)")
  case False
  assume "balanced a b c w"
  then show ?thesis using False by (simp add: deliver_def)
next
  case True
  assume c: "balanced a b c w"
  let ?w1 = "emit (Callback (inflight w ! fst d) (snd d))
               (w\<lparr>inflight := take (fst d) (inflight w) @ drop (Suc (fst d)) (inflight w)\<rparr>)"
  have "balanced a b c ?w1" using c True
    by (auto simp add: balanced_def b_ref_def b_fly_def b_unref_def)
  then show ?thesis using True
    by (cases "inflight w ! fst d")
       (simp_all add: deliver_def Let_def balanced_host_cb balanced_srv_cb)
qed

lemma balanced_run:
  "request_created E name dp \<Longrightarrow> inflight w = [] \<Longrightarrow> trace w = [] \<Longrightarrow>
   balanced 0 0 1 (run E name dp cl lb ds w)"
proof -
  have f: "\<And>w. balanced 0 0 1 w \<Longrightarrow> balanced 0 0 1 (fold (deliver E) ds w)"
    by (induction ds) (simp_all add: balanced_deliver)
  assume "request_created E name dp" "inflight w = []" "trace w = []"
  then show ?thesis by (simp add: run_def f balanced_resolve)
qed

text \<open>The balances as counts of events.\<close>

lemma sum_wt_ref:
  "sum_list (map wt_ref tr) = int (length (filter is_ref tr)) - int (length (filter is_issue tr))"
proof (induction tr)
  case Nil
  then show ?case by simp
next
  case (Cons e tr)
  then show ?case by (cases e) simp_all
qed

lemma sum_wt_fly:
  "sum_list (map wt_fly tr) = int (length (filter is_issue tr)) - int (length (filter is_callback tr))"
proof (induction tr)
  case Nil
  then show ?case by simp
next
  case (Cons e tr)
  then show ?case by (cases e) simp_all
qed

lemma sum_wt_unref:
  "sum_list (map wt_unref tr) = int (length (filter is_unref tr)) - int (length (filter is_callback tr))"
proof (induction tr)
  case Nil
  then show ?case by simp
next
  case (Cons e tr)
  then show ?case by (cases e) simp_all
qed

section \<open>A reference is taken right before each query\<close>

lemma ref_precedes_append:
  "ref_precedes b (xs @ ys) =
     (ref_precedes b xs \<and> ref_precedes (if xs = [] then b else last xs = Ref) ys)"
  by (induction xs arbitrary: b) auto

lemma ref_precedes_no_issue: "filter is_issue ys = [] \<Longrightarrow> ref_precedes c ys"
  by (induction ys arbitrary: c) (auto split: if_splits)

lemma no_issue_unref_events [simp]: "filter is_issue (unref_events b r) = []"
  by (simp add: unref_events_def)

lemma no_issue_host_cb_events [simp]: "filter is_issue (host_cb_events st r) = []"
  by (simp add: host_cb_events_def)

lemma dispatch_emit: "\<not> is_issue e \<Longrightarrow> dispatch_ok w \<Longrightarrow> dispatch_ok (emit e w)"
  by (simp add: dispatch_ok_def ref_precedes_append)

lemma dispatch_unref: "dispatch_ok w \<Longrightarrow> dispatch_ok (grpc_ares_request_unref b w)"
  by (simp add: dispatch_ok_def ref_precedes_append ref_precedes_no_issue)

lemma dispatch_chain: "dispatch_ok w \<Longrightarrow> dispatch_ok (chain_status_error E st w)"
  by (simp add: dispatch_ok_def ref_precedes_append)

lemma dispatch_host_cb: "dispatch_ok w \<Longrightarrow> dispatch_ok (on_hostbyname_done_cb E hr res w)"
  by (simp add: dispatch_ok_def ref_precedes_append ref_precedes_no_issue
        del: append_assoc add: append_assoc [symmetric])

lemma dispatch_issue_host:
  "dispatch_ok w \<Longrightarrow> dispatch_ok (ares_gethostbyname E hr fam (grpc_ares_request_ref w))"
proof -
  assume c: "dispatch_ok w"
  let ?w0 = "grpc_ares_request_ref w"
  have g: "dispatch_ok (emit (Gethostbyname hr fam) ?w0)"
    using c by (simp add: dispatch_ok_def ref_precedes_append)
  show ?thesis
  proof (cases "script w")
    case Nil
    then show ?thesis using g
      by (simp add: ares_gethostbyname_def next_outcome_def dispatch_ok_def)
  next
    case (Cons x xs)
    show ?thesis
    proof (cases x)
      case None
      then show ?thesis using g Cons
        by (simp add: ares_gethostbyname_def next_outcome_def dispatch_ok_def)
    next
      case (Some res)
      have "dispatch_ok (emit (Callback (Hostbyname hr fam) res)
                          ((emit (Gethostbyname hr fam) ?w0)\<lparr>script := xs\<rparr>))"
        using g by (simp add: dispatch_ok_def ref_precedes_append)
      then show ?thesis using Some Cons
        by (simp add: ares_gethostbyname_def next_outcome_def dispatch_host_cb)
    qed
  qed
qed

lemma dispatch_srv_loop: "dispatch_ok w \<Longrightarrow> dispatch_ok (srv_loop E rs w)"
proof (induction rs arbitrary: w)
  case Nil
  then show ?case by simp
next
  case (Cons r rs)
  show ?case
    unfolding srv_loop_Cons Let_def
    by (intro Cons.IH dispatch_emit dispatch_issue_host) (simp_all add: Cons.prems dispatch_issue_host)
qed

lemma dispatch_srv_cb: "dispatch_ok w \<Longrightarrow> dispatch_ok (on_srv_query_done_cb E res w)"
  unfolding on_srv_query_done_cb_def Let_def
  by (intro dispatch_emit dispatch_unref)
     (auto intro!: dispatch_emit dispatch_srv_loop dispatch_chain)

lemma dispatch_issue_srv:
  "dispatch_ok w \<Longrightarrow> dispatch_ok (ares_query E n (grpc_ares_request_ref w))"
proof -
  assume c: "dispatch_ok w"
  let ?w0 = "grpc_ares_request_ref w"
  have g: "dispatch_ok (emit (Query n) ?w0)"
    using c by (simp add: dispatch_ok_def ref_precedes_append)
  show ?thesis
  proof (cases "script w")
    case Nil
    then show ?thesis using g
      by (simp add: ares_query_def next_outcome_def dispatch_ok_def)
  next
    case (Cons x xs)
    show ?thesis
    proof (cases x)
      case None
      then show ?thesis using g Cons
        by (simp add: ares_query_def next_outcome_def dispatch_ok_def)
    next
      case (Some res)
      have "dispatch_ok (emit (Callback (Srv_query n) res) ((emit (Query n) ?w0)\<lparr>script := xs\<rparr>))"
        using g by (simp add: dispatch_ok_def ref_precedes_append)
      then show ?thesis using Some Cons
        by (simp add: ares_query_def next_outcome_def dispatch_srv_cb)
    qed
  qed
qed

lemma dispatch_issue_all: "dispatch_ok w \<Longrightarrow> dispatch_ok (issue_all E h p lb w)"
  unfolding issue_all_def Let_def
  by (intro dispatch_unref dispatch_emit)
     (auto intro!: dispatch_issue_host dispatch_issue_srv)

lemma dispatch_resolve:
  "request_created E name dp \<Longrightarrow> trace w = [] \<Longrightarrow>
   dispatch_ok (resolve_address_ares_impl E name dp cl lb w)"
  by (simp add: resolve_created) (rule dispatch_issue_all, simp add: dispatch_ok_def)

lemma dispatch_deliver: "dispatch_ok w \<Longrightarrow> dispatch_ok (deliver E d w)"
proof (cases "fst d < length (inflight w)")
  case False
  assume "dispatch_ok w"
  then show ?thesis using False by (simp add: deliver_def)
next
  case True
  assume c: "dispatch_ok w"
  let ?w1 = "emit (Callback (inflight w ! fst d) (snd d))
               (w\<lparr>inflight := take (fst d) (inflight w) @ drop (Suc (fst d)) (inflight w)\<rparr>)"
  have "dispatch_ok ?w1" using c
    by (simp add: dispatch_ok_def ref_precedes_append)
  then show ?thesis using True
    by (cases "inflight w ! fst d")
       (simp_all add: deliver_def Let_def dispatch_host_cb dispatch_srv_cb)
qed

lemma dispatch_run:
  "request_created E name dp \<Longrightarrow> trace w = [] \<Longrightarrow>
   dispatch_ok (run E name dp cl lb ds w)"
proof -
  have f: "\<And>w. dispatch_ok w \<Longrightarrow> dispatch_ok (fold (deliver E) ds w)"
    by (induction ds) (simp_all add: dispatch_deliver)
  assume "request_created E name dp" "trace w = []"
  then show ?thesis by (simp add: run_def f dispatch_resolve)
qed

section \<open>The loops of the result builder append\<close>

lemma fold_update_range:
  "m \<le> length zs \<Longrightarrow>
   fold (\<lambda>i ys. ys[i := g i]) [length xs ..< length xs + m] (xs @ zs) =
     xs @ map g [length xs ..< length xs + m] @ drop m zs"
proof (induction m)
  case 0
  then show ?case by simp
next
  case (Suc m)
  then have m: "m < length zs" by simp
  have d: "drop m zs = zs ! m # drop (Suc m) zs"
    using m by (simp add: Cons_nth_drop_Suc)
  have "fold (\<lambda>i ys. ys[i := g i]) [length xs ..< length xs + Suc m] (xs @ zs) =
        (xs @ map g [length xs ..< length xs + m] @ drop m zs)[length xs + m := g (length xs + m)]"
    using Suc.IH m by simp
  also have "\<dots> = xs @ map g [length xs ..< length xs + m] @ (g (length xs + m) # drop (Suc m) zs)"
    by (simp add: list_update_append d)
  finally show ?case by simp
qed

lemma map_shifted_nth:
  "map (\<lambda>i. f (as ! (i - k))) [k ..< k + length as] = map f as"
proof -
  have "map (\<lambda>i. f (as ! (i - k))) [k ..< k + length as] =
        map (\<lambda>j. f (as ! j)) [0 ..< length as]"
    by (rule nth_equalityI) simp_all
  also have "\<dots> = map f as"
    by (rule nth_equalityI) simp_all
  finally show ?thesis .
qed

lemma append_addresses_eq:
  "append_addresses hr he xs = xs @ map (resolved_address_of hr he) (h_addr_list he)"
  using fold_update_range
          [of "length (h_addr_list he)" "replicate (length (h_addr_list he)) zero_address"
              "\<lambda>i. resolved_address_of hr he (h_addr_list he ! (i - length xs))" xs]
  by (simp add: append_addresses_def Let_def map_shifted_nth)

lemma append_lb_addresses_eq:
  "append_lb_addresses hr he xs = xs @ map (lb_address_of hr he) (h_addr_list he)"
proof -
  have "append_lb_addresses hr he xs =
        fold (\<lambda>i ys. ys[i := lb_address_of hr he (h_addr_list he ! (i - length xs))])
          [length xs ..< length xs + length (h_addr_list he)]
          (xs @ replicate (length (h_addr_list he)) zero_lb_address)"
    by (simp add: append_lb_addresses_def grpc_lb_addresses_set_address_def lb_address_of_def
          Let_def)
  also have "\<dots> = xs @ map (\<lambda>i. lb_address_of hr he (h_addr_list he ! (i - length xs)))
                        [length xs ..< length xs + length (h_addr_list he)]"
    using fold_update_range
          [of "length (h_addr_list he)" "replicate (length (h_addr_list he)) zero_lb_address"
              "\<lambda>i. lb_address_of hr he (h_addr_list he ! (i - length xs))" xs]
    by simp
  finally show ?thesis by (simp only: map_shifted_nth)
qed

section \<open>Success, error and output follow the completions\<close>

lemma failures_append [simp]: "failures E (xs @ ys) = failures E xs @ failures E ys"
  by (induction xs) simp_all

lemma plain_batches_append [simp]:
  "plain_batches (xs @ ys) = plain_batches xs @ plain_batches ys"
  by (induction xs) simp_all

lemma lb_batches_append [simp]: "lb_batches (xs @ ys) = lb_batches xs @ lb_batches ys"
  by (induction xs) simp_all

lemma chain_of_None [simp]: "(chain_of ms = GRPC_ERROR_NONE) = (ms = [])"
  by (cases ms) simp_all

lemma link_error_chain:
  "link_error E st (chain_of ms) = chain_of (status_message E st # ms)"
  by (cases ms) (simp_all add: link_error_def status_message_def GRPC_ERROR_CREATE_def)

lemma no_ok_plain: "filter host_ok tr = [] \<Longrightarrow> plain_batches tr = []"
proof (induction tr)
  case Nil
  then show ?case by simp
next
  case (Cons e tr)
  then show ?case
  proof (cases e)
    case (Callback q res)
    then show ?thesis using Cons by (cases q) (auto split: if_splits)
  qed (auto split: if_splits)
qed

lemma no_ok_lb: "filter host_ok tr = [] \<Longrightarrow> lb_batches tr = []"
proof (induction tr)
  case Nil
  then show ?case by simp
next
  case (Cons e tr)
  then show ?case
  proof (cases e)
    case (Callback q res)
    then show ?thesis using Cons by (cases q) (auto split: if_splits)
  qed (auto split: if_splits)
qed

lemma folded_emit:
  "\<not> is_callback e \<Longrightarrow> folded E w \<Longrightarrow> folded E (emit e w)"
  by (cases e) (simp_all add: folded_def)

lemma folded_ref: "folded E w \<Longrightarrow> folded E (grpc_ares_request_ref w)"
  by (simp add: folded_def)

lemma J_unref_events [simp]:
  "filter host_ok (unref_events b r) = []"
  "failures E (unref_events b r) = []"
  "plain_batches (unref_events b r) = []"
  "lb_batches (unref_events b r) = []"
  by (simp_all add: unref_events_def)

lemma J_host_cb_events [simp]:
  "filter host_ok (host_cb_events st r) = []"
  "failures E (host_cb_events st r) = []"
  "plain_batches (host_cb_events st r) = []"
  "lb_batches (host_cb_events st r) = []"
  by (simp_all add: host_cb_events_def)

lemma folded_unref: "folded E w \<Longrightarrow> folded E (grpc_ares_request_unref b w)"
  by (simp add: folded_def)

lemma fold_req_simps [simp]:
  "success (fold_req E st r) = (st = ARES_SUCCESS \<or> success r)"
  "error (fold_req E st r) =
     (if st = ARES_SUCCESS then GRPC_ERROR_NONE
      else if success r then error r else link_error E st (error r))"
  by (simp_all add: fold_req_def)

lemma folded_complete_host:
  assumes "folded E w"
  shows "folded E (on_hostbyname_done_cb E hr res (emit (Callback (Hostbyname hr fam) res) w))"
proof (cases "status res = ARES_SUCCESS")
  case True
  show ?thesis
  proof (cases "success (req w)")
    case True
    then show ?thesis using assms \<open>status res = ARES_SUCCESS\<close>
      by (auto simp add: folded_def append_addresses_eq append_lb_addresses_eq)
  next
    case False
    then have n: "filter host_ok (trace w) = []" using assms by (simp add: folded_def)
    show ?thesis using assms \<open>status res = ARES_SUCCESS\<close> False
      by (auto simp add: folded_def append_addresses_eq append_lb_addresses_eq
            no_ok_plain [OF n] no_ok_lb [OF n])
  qed
next
  case False
  then show ?thesis using assms
    by (auto simp add: folded_def link_error_chain)
qed

lemma folded_script: "folded E (w\<lparr>script := s\<rparr>) = folded E w"
  by (simp add: folded_def)

lemma folded_inflight: "folded E (w\<lparr>inflight := s\<rparr>) = folded E w"
  by (simp add: folded_def)

lemma folded_chain_srv:
  assumes "folded E w" "status res \<noteq> ARES_SUCCESS"
  shows "folded E (let wa = emit (Rd F_success) (emit (Callback (Srv_query n) res) w)
                   in if \<not> success (req wa) then chain_status_error E (status res) wa else wa)"
  using assms by (auto simp add: folded_def Let_def link_error_chain)

lemma folded_gethostbyname:
  "folded E w \<Longrightarrow> folded E (ares_gethostbyname E hr fam w)"
proof -
  assume c: "folded E w"
  have g: "folded E (emit (Gethostbyname hr fam) w)" using c by (simp add: folded_emit)
  show ?thesis
  proof (cases "script w")
    case Nil
    then show ?thesis using g
      by (simp add: ares_gethostbyname_def next_outcome_def folded_inflight)
  next
    case (Cons x xs)
    show ?thesis
    proof (cases x)
      case None
      then show ?thesis using g Cons
        by (simp add: ares_gethostbyname_def next_outcome_def folded_inflight folded_script)
    next
      case (Some res)
      have "folded E ((emit (Gethostbyname hr fam) w)\<lparr>script := xs\<rparr>)"
        using g by (simp add: folded_script)
      then show ?thesis using Some Cons
        by (simp add: ares_gethostbyname_def next_outcome_def folded_complete_host)
    qed
  qed
qed

lemma folded_issue_host:
  "folded E w \<Longrightarrow> folded E (ares_gethostbyname E hr fam (grpc_ares_request_ref w))"
  by (simp add: folded_gethostbyname folded_ref)

lemma folded_srv_loop: "folded E w \<Longrightarrow> folded E (srv_loop E rs w)"
proof (induction rs arbitrary: w)
  case Nil
  then show ?case by simp
next
  case (Cons r rs)
  show ?case
    unfolding srv_loop_Cons Let_def
    by (intro Cons.IH folded_emit folded_issue_host) (simp_all add: Cons.prems folded_issue_host)
qed

lemma folded_complete_srv:
  assumes "folded E w"
  shows "folded E (on_srv_query_done_cb E res (emit (Callback (Srv_query n) res) w))"
proof (cases "status res = ARES_SUCCESS")
  case True
  have c: "folded E (emit (Callback (Srv_query n) res) w)"
    using assms True by (simp add: folded_def)
  show ?thesis
    unfolding on_srv_query_done_cb_def Let_def
    using True
    by (auto intro!: folded_emit folded_unref folded_srv_loop c)
next
  case False
  show ?thesis
    using folded_chain_srv [OF assms False, of n] False
    by (simp add: on_srv_query_done_cb_def Let_def folded_emit folded_unref)
qed

lemma folded_query: "folded E w \<Longrightarrow> folded E (ares_query E n w)"
proof -
  assume c: "folded E w"
  have g: "folded E (emit (Query n) w)" using c by (simp add: folded_emit)
  show ?thesis
  proof (cases "script w")
    case Nil
    then show ?thesis using g
      by (simp add: ares_query_def next_outcome_def folded_inflight)
  next
    case (Cons x xs)
    show ?thesis
    proof (cases x)
      case None
      then show ?thesis using g Cons
        by (simp add: ares_query_def next_outcome_def folded_inflight folded_script)
    next
      case (Some res)
      have "folded E ((emit (Query n) w)\<lparr>script := xs\<rparr>)"
        using g by (simp add: folded_script)
      then show ?thesis using Some Cons
        by (simp add: ares_query_def next_outcome_def folded_complete_srv)
    qed
  qed
qed

lemma folded_issue_all: "folded E w \<Longrightarrow> folded E (issue_all E h p lb w)"
  unfolding issue_all_def Let_def
  by (intro folded_unref folded_emit)
     (auto intro!: folded_issue_host folded_query folded_ref)

lemma folded_resolve:
  "request_created E name dp \<Longrightarrow> trace w = [] \<Longrightarrow> addrs w = None \<Longrightarrow> lb_addrs w = None \<Longrightarrow>
   folded E (resolve_address_ares_impl E name dp cl lb w)"
  by (simp add: resolve_created)
     (rule folded_issue_all, simp add: folded_def new_request_def)

lemma folded_deliver: "folded E w \<Longrightarrow> folded E (deliver E d w)"
proof (cases "fst d < length (inflight w)")
  case False
  assume "folded E w"
  then show ?thesis using False by (simp add: deliver_def)
next
  case True
  assume c: "folded E w"
  let ?w1 = "w\<lparr>inflight := take (fst d) (inflight w) @ drop (Suc (fst d)) (inflight w)\<rparr>"
  have 1: "folded E ?w1" using c by (simp add: folded_inflight)
  show ?thesis using True
    by (cases "inflight w ! fst d")
       (simp_all add: deliver_def Let_def folded_complete_host [OF 1] folded_complete_srv [OF 1])
qed

lemma folded_run:
  "request_created E name dp \<Longrightarrow> trace w = [] \<Longrightarrow> addrs w = None \<Longrightarrow> lb_addrs w = None \<Longrightarrow>
   folded E (run E name dp cl lb ds w)"
proof -
  have f: "\<And>w. folded E w \<Longrightarrow> folded E (fold (deliver E) ds w)"
    by (induction ds) (simp_all add: folded_deliver)
  assume "request_created E name dp" "trace w = []" "addrs w = None" "lb_addrs w = None"
  then show ?thesis by (simp add: run_def f folded_resolve)
qed

section \<open>Handles and set-up events stay\<close>

lemma setup_unref_events [simp]: "filter is_setup (unref_events b r) = []"
  by (simp add: unref_events_def)

lemma setup_host_cb_events [simp]: "filter is_setup (host_cb_events st r) = []"
  by (simp add: host_cb_events_def)

lemma core_emit [simp]: "\<not> is_setup e \<Longrightarrow> core (emit e w) = core w"
  by (simp add: core_def)

lemma core_fields [simp]:
  "core (w\<lparr>script := s\<rparr>) = core w"
  "core (w\<lparr>inflight := i\<rparr>) = core w"
  by (simp_all add: core_def)

lemma core_ref [simp]: "core (grpc_ares_request_ref w) = core w"
  by (simp add: core_def)

lemma core_unref [simp]: "core (grpc_ares_request_unref b w) = core w"
  by (simp add: core_def)

lemma core_chain [simp]: "core (chain_status_error E st w) = core w"
  by (simp add: core_def)

lemma core_host_cb [simp]: "core (on_hostbyname_done_cb E hr res w) = core w"
  by (simp add: core_def)

lemma core_gethostbyname [simp]: "core (ares_gethostbyname E hr fam w) = core w"
proof (cases "script w")
  case Nil
  then show ?thesis by (simp add: ares_gethostbyname_def next_outcome_def)
next
  case (Cons x xs)
  then show ?thesis
    by (cases x) (simp_all add: ares_gethostbyname_def next_outcome_def)
qed

lemma core_srv_loop [simp]: "core (srv_loop E rs w) = core w"
proof (induction rs arbitrary: w)
  case Nil
  then show ?case by simp
next
  case (Cons r rs)
  show ?case unfolding srv_loop_Cons Let_def by (simp add: Cons.IH)
qed

lemma core_srv_cb [simp]: "core (on_srv_query_done_cb E res w) = core w"
  by (simp add: on_srv_query_done_cb_def Let_def)

lemma core_deliver [simp]: "core (deliver E d w) = core w"
proof (cases "fst d < length (inflight w)")
  case False
  then show ?thesis by (simp add: deliver_def)
next
  case True
  then show ?thesis
    by (cases "inflight w ! fst d") (simp_all add: deliver_def Let_def)
qed

lemma core_fold_deliver [simp]: "core (fold (deliver E) ds w) = core w"
  by (induction ds arbitrary: w) simp_all

lemma core_query:
  "core (ares_query E n w) =
     (on_done (req w), lb_addrs_out (req w), ev_driver (req w),
      filter is_setup (trace w) @ [Query n])"
proof -
  have e: "core (emit (Query n) w) =
     (on_done (req w), lb_addrs_out (req w), ev_driver (req w),
      filter is_setup (trace w) @ [Query n])"
    by (simp add: core_def)
  show ?thesis
  proof (cases "script w")
    case Nil
    then show ?thesis using e by (simp add: ares_query_def next_outcome_def)
  next
    case (Cons x xs)
    then show ?thesis using e
      by (cases x) (simp_all add: ares_query_def next_outcome_def)
  qed
qed

lemma core_issue_all:
  "core (issue_all E h p lb w) =
     (on_done (req w), lb_addrs_out (req w), ev_driver (req w),
      filter is_setup (trace w) @ (if lb then [Query (''_grpclb._tcp.'' @ h)] else []))"
proof -
  let ?hr = "\<lparr>host = h, port = strhtons E p, is_balancer = False\<rparr>"
  let ?w3 = "(if grpc_ipv6_loopback_available E then
                  ares_gethostbyname E ?hr AF_INET6 (grpc_ares_request_ref w)
                else w)"
  let ?w5 = "ares_gethostbyname E ?hr AF_INET (grpc_ares_request_ref ?w3)"
  have 5: "core ?w5 = core w" by simp
  then have r: "core (grpc_ares_request_ref ?w5) = core w" by simp
  have q: "core (ares_query E (''_grpclb._tcp.'' @ h) (grpc_ares_request_ref ?w5)) =
     (on_done (req w), lb_addrs_out (req w), ev_driver (req w),
      filter is_setup (trace w) @ [Query (''_grpclb._tcp.'' @ h)])"
    unfolding core_query using r by (simp add: core_def)
  show ?thesis
  proof (cases lb)
    case True
    then show ?thesis using q by (simp add: issue_all_def Let_def)
  next
    case False
    then show ?thesis using 5 by (simp add: issue_all_def Let_def) (simp add: core_def)
  qed
qed

lemma core_run:
  assumes "request_created E name dp" "trace w = []"
  shows "core (run E name dp cl lb ds w) =
           (cl, lb, snd (grpc_ares_ev_driver_create E),
            [Mu_init, Ref_init 1] @
            (if lb then [Query (''_grpclb._tcp.'' @ parsed_host E name)] else []))"
  using assms
  by (simp add: run_def resolve_created core_issue_all new_request_def)

section \<open>Nothing happens after the closure is scheduled\<close>

lemma srv_cb_body:
  "on_srv_query_done_cb E res w =
     emit Exec_ctx_finish (grpc_ares_request_unref True (srv_body E res w))"
  by (simp add: on_srv_query_done_cb_def srv_body_def Let_def)

lemma issue_all_body:
  "issue_all E h p lb w = grpc_ares_request_unref True (issue_body E h p lb w)"
  by (simp add: issue_all_def issue_body_def Let_def)

lemma counted_srv_body: "counted (Suc h) w \<Longrightarrow> counted (Suc h) (srv_body E res w)"
  unfolding srv_body_def Let_def
  by (auto simp add: counted_emit counted_srv_loop) (simp_all add: counted_def)

lemma counted_issue_body: "counted (Suc 0) w \<Longrightarrow> counted (Suc 0) (issue_body E h p lb w)"
  unfolding issue_body_def Let_def
  by (intro counted_emit)
     (auto intro!: counted_gethostbyname counted_ref counted_query)

lemma sched_teardown: "is_sched e \<Longrightarrow> is_teardown e"
  by (cases e) simp_all

lemma after_sched_append:
  "filter is_teardown xs = [] \<Longrightarrow> after_sched (xs @ ys) = after_sched ys"
proof (induction xs)
  case Nil
  then show ?case by simp
next
  case (Cons e xs)
  then show ?case using sched_teardown [of e] by (auto split: if_splits)
qed

lemma after_sched_none: "filter is_teardown xs = [] \<Longrightarrow> after_sched xs = []"
  using after_sched_append [of xs "[]"] by simp

lemma calm_unref_events [simp]:
  "filter is_activity (after_sched (unref_events b r)) = []"
  "filter is_activity (after_sched (unref_events b r @ [Exec_ctx_finish])) = []"
  by (simp_all add: unref_events_def)

lemma calm_of_counted: "counted (Suc h) w \<Longrightarrow> calm w"
  by (simp add: counted_def calm_def after_sched_none)

lemma calm_unref: "counted (Suc h) w \<Longrightarrow> calm (grpc_ares_request_unref b w)"
  by (simp add: counted_def calm_def after_sched_append)

lemma calm_host_cb: "counted (Suc h) w \<Longrightarrow> calm (on_hostbyname_done_cb E hr res w)"
proof -
  assume "counted (Suc h) w"
  then have "filter is_teardown (trace w @ host_cb_events (status res) (req w)) = []"
    by (simp add: counted_def)
  from after_sched_append [OF this] show ?thesis
    by (simp add: calm_def)
qed

lemma calm_srv_cb: "counted (Suc h) w \<Longrightarrow> calm (on_srv_query_done_cb E res w)"
proof -
  assume "counted (Suc h) w"
  then have "counted (Suc h) (srv_body E res w)" by (rule counted_srv_body)
  then have "filter is_teardown (trace (srv_body E res w)) = []" by (simp add: counted_def)
  from after_sched_append [OF this] show ?thesis
    by (simp add: calm_def srv_cb_body)
qed

lemma calm_issue_all: "counted (Suc 0) w \<Longrightarrow> calm (issue_all E h p lb w)"
  unfolding issue_all_body by (rule calm_unref [of 0], rule counted_issue_body)

lemma calm_deliver: "counted 0 w \<Longrightarrow> calm w \<Longrightarrow> calm (deliver E d w)"
proof (cases "fst d < length (inflight w)")
  case False
  assume "calm w"
  then show ?thesis using False by (simp add: deliver_def)
next
  case True
  assume c: "counted 0 w"
  let ?w1 = "emit (Callback (inflight w ! fst d) (snd d))
               (w\<lparr>inflight := take (fst d) (inflight w) @ drop (Suc (fst d)) (inflight w)\<rparr>)"
  have "counted (Suc 0) ?w1" using c True by (auto simp add: counted_def)
  then show ?thesis using True
    by (cases "inflight w ! fst d")
       (simp_all add: deliver_def Let_def calm_host_cb calm_srv_cb)
qed

lemma calm_run:
  assumes "request_created E name dp" "inflight w = []" "trace w = []"
  shows "calm (run E name dp cl lb ds w)"
proof -
  have f: "\<And>w. counted 0 w \<Longrightarrow> calm w \<Longrightarrow> calm (fold (deliver E) ds w)"
    by (induction ds) (simp_all add: calm_deliver counted_deliver)
  have "calm (resolve_address_ares_impl E name dp cl lb w)"
    using assms
    by (simp add: resolve_created)
       (rule calm_issue_all, simp add: counted_def new_request_def)
  then show ?thesis using assms by (simp add: run_def f counted_resolve)
qed

lemmas model_defs =
  run_def resolve_address_ares_impl_def deliver_def ares_query_def ares_gethostbyname_def
  next_outcome_def on_srv_query_done_cb_def on_hostbyname_done_cb_def chain_status_error_def
  destroy_hostbyname_request_def create_hostbyname_request_def grpc_ares_request_unref_def
  grpc_ares_request_ref_def emit_def set_req_def

lemmas example_defs =
  example_env_def example_split_def fresh_world_def host_failure_def srv_answer_def
  host_answer_def ARES_SUCCESS_def AF_INET_def AF_INET6_def GRPC_ERROR_CREATE_def
  strhtons_def htons_def atoi_def is_digit_def is_space_def

section \<open>Queries issued by the SRV callback, and the reply holder\<close>

lemma filter_ref_init_setup: "filter is_ref_init (filter is_setup tr) = filter is_ref_init tr"
proof (induction tr)
  case Nil
  then show ?case by simp
next
  case (Cons e tr)
  then show ?case by (cases e) simp_all
qed

lemma filter_query_setup: "filter is_query (filter is_setup tr) = filter is_query tr"
proof (induction tr)
  case Nil
  then show ?case by simp
next
  case (Cons e tr)
  then show ?case by (cases e) simp_all
qed

lemma core_setup: "core w = (c, l, d, s) \<Longrightarrow> filter is_setup (trace w) = s"
  by (simp add: core_def)

lemma core_handles:
  "core w = (c, l, d, s) \<Longrightarrow> on_done (req w) = c \<and> lb_addrs_out (req w) = l \<and> ev_driver (req w) = d"
  by (simp add: core_def)

lemma core_same_driver: "core w' = core w \<Longrightarrow> ev_driver (req w') = ev_driver (req w)"
  by (simp add: core_def)

lemma example_created: "request_created example_env ''example.com:8080'' None"
  by (simp add: request_created_def example_env_def example_split_def)

lemma spawn_unref_events [simp]: "filter is_spawn (unref_events b r) = []"
  by (simp add: unref_events_def)

lemma spawn_host_cb_events [simp]: "filter is_spawn (host_cb_events st r) = []"
  by (simp add: host_cb_events_def)

lemma holder_unref_events [simp]: "filter is_holder (unref_events b r) = []"
  by (simp add: unref_events_def)

lemma holder_host_cb_events [simp]: "filter is_holder (host_cb_events st r) = []"
  by (simp add: host_cb_events_def)

lemma spawn_gethostbyname:
  "filter is_spawn (trace (ares_gethostbyname E hr fam w)) =
     filter is_spawn (trace w) @ [Gethostbyname hr fam]"
proof (cases "script w")
  case Nil
  then show ?thesis by (simp add: ares_gethostbyname_def next_outcome_def)
next
  case (Cons x xs)
  then show ?thesis
    by (cases x) (simp_all add: ares_gethostbyname_def next_outcome_def)
qed

lemma holder_gethostbyname:
  "filter is_holder (trace (ares_gethostbyname E hr fam w)) = filter is_holder (trace w)"
proof (cases "script w")
  case Nil
  then show ?thesis by (simp add: ares_gethostbyname_def next_outcome_def)
next
  case (Cons x xs)
  then show ?thesis
    by (cases x) (simp_all add: ares_gethostbyname_def next_outcome_def)
qed

lemma srv_loop_driver:
  "ev_driver (req (ares_gethostbyname E hr fam (grpc_ares_request_ref w))) = ev_driver (req w)"
  by (rule core_same_driver) simp

lemma spawn_srv_loop:
  "filter is_spawn (trace (srv_loop E rs w)) =
     filter is_spawn (trace w) @ concat (map (spawned E (ev_driver (req w))) rs)"
proof (induction rs arbitrary: w)
  case Nil
  then show ?case by simp
next
  case (Cons r rs)
  let ?hr = "\<lparr>host = srv_host r, port = srv_port r, is_balancer = True\<rparr>"
  let ?w1 = "if grpc_ipv6_loopback_available E
             then ares_gethostbyname E ?hr AF_INET6 (grpc_ares_request_ref w) else w"
  let ?w3 = "ares_gethostbyname E ?hr AF_INET (grpc_ares_request_ref ?w1)"
  let ?w4 = "emit (Driver_start (ev_driver (req ?w3))) ?w3"
  have d1: "ev_driver (req ?w1) = ev_driver (req w)" by (simp add: srv_loop_driver)
  have d3: "ev_driver (req ?w3) = ev_driver (req w)" using d1 by (simp add: srv_loop_driver)
  have t4: "filter is_spawn (trace ?w4) = filter is_spawn (trace w) @ spawned E (ev_driver (req w)) r"
    using d3 by (simp add: spawn_gethostbyname spawned_def)
  have "srv_loop E (r # rs) w = srv_loop E rs ?w4"
    unfolding srv_loop_Cons Let_def ..
  then show ?case using Cons.IH [of ?w4] t4 d3 by simp
qed

lemma holder_srv_loop:
  "filter is_holder (trace (srv_loop E rs w)) = filter is_holder (trace w)"
proof (induction rs arbitrary: w)
  case Nil
  then show ?case by simp
next
  case (Cons r rs)
  show ?case unfolding srv_loop_Cons Let_def by (simp add: Cons.IH holder_gethostbyname)
qed

section \<open>The success flag only rises\<close>

lemma success_gethostbyname:
  "success (req w) \<Longrightarrow> success (req (ares_gethostbyname E hr fam w))"
proof (cases "script w")
  case Nil
  assume "success (req w)"
  then show ?thesis using Nil by (simp add: ares_gethostbyname_def next_outcome_def)
next
  case (Cons x xs)
  assume "success (req w)"
  then show ?thesis using Cons
    by (cases x) (simp_all add: ares_gethostbyname_def next_outcome_def)
qed

lemma success_srv_loop: "success (req w) \<Longrightarrow> success (req (srv_loop E rs w))"
proof (induction rs arbitrary: w)
  case Nil
  then show ?case by simp
next
  case (Cons r rs)
  show ?case
    unfolding srv_loop_Cons Let_def
    by (rule Cons.IH) (simp add: Cons.prems success_gethostbyname)
qed

lemma success_srv_cb: "success (req w) \<Longrightarrow> success (req (on_srv_query_done_cb E res w))"
  by (simp add: on_srv_query_done_cb_def Let_def success_srv_loop)

lemma success_deliver: "success (req w) \<Longrightarrow> success (req (deliver E d w))"
proof (cases "fst d < length (inflight w)")
  case False
  assume "success (req w)"
  then show ?thesis using False by (simp add: deliver_def)
next
  case True
  assume "success (req w)"
  then show ?thesis using True
    by (cases "inflight w ! fst d") (simp_all add: deliver_def Let_def success_srv_cb)
qed

lemma srv_loop_async:
  "script w = [] \<Longrightarrow>
   script (srv_loop E rs w) = [] \<and>
   success (req (srv_loop E rs w)) = success (req w) \<and>
   error (req (srv_loop E rs w)) = error (req w) \<and>
   addrs (srv_loop E rs w) = addrs w \<and> lb_addrs (srv_loop E rs w) = lb_addrs w"
proof (induction rs arbitrary: w)
  case Nil
  then show ?case by simp
next
  case (Cons r rs)
  let ?hr = "\<lparr>host = srv_host r, port = srv_port r, is_balancer = True\<rparr>"
  let ?w1 = "if grpc_ipv6_loopback_available E
             then ares_gethostbyname E ?hr AF_INET6 (grpc_ares_request_ref w) else w"
  let ?w3 = "ares_gethostbyname E ?hr AF_INET (grpc_ares_request_ref ?w1)"
  let ?w4 = "emit (Driver_start (ev_driver (req ?w3))) ?w3"
  have 1: "script ?w1 = [] \<and> success (req ?w1) = success (req w) \<and> error (req ?w1) = error (req w)
           \<and> addrs ?w1 = addrs w \<and> lb_addrs ?w1 = lb_addrs w"
    using Cons.prems by (simp add: gethostbyname_async)
  then have 4: "script ?w4 = [] \<and> success (req ?w4) = success (req w) \<and> error (req ?w4) = error (req w)
           \<and> addrs ?w4 = addrs w \<and> lb_addrs ?w4 = lb_addrs w"
    by (simp add: gethostbyname_async)
  have "srv_loop E (r # rs) w = srv_loop E rs ?w4"
    unfolding srv_loop_Cons Let_def ..
  then show ?case using Cons.IH [of ?w4] 4 by simp
qed

section \<open>The scheduled closure\<close>

lemma sched_in_teardown: "Sched c e \<in> set tr \<Longrightarrow> Sched c e \<in> set (filter is_teardown tr)"
  by simp

lemma run_sched:
  assumes "request_created E name dp" "inflight w = []" "trace w = []"
    and "Sched c e \<in> set (trace (run E name dp cl lb ds w))"
  shows "c = cl \<and> e = error (req (run E name dp cl lb ds w)) \<and>
         inflight (run E name dp cl lb ds w) = []"
proof -
  let ?R = "run E name dp cl lb ds w"
  have c: "counted 0 ?R" using assms(1-3) by (rule counted_run)
  have k: "core ?R = (cl, lb, snd (grpc_ares_ev_driver_create E),
            [Mu_init, Ref_init 1] @
            (if lb then [Query (''_grpclb._tcp.'' @ parsed_host E name)] else []))"
    using assms(1,3) by (rule core_run)
  have m: "Sched c e \<in> set (filter is_teardown (trace ?R))"
    using assms(4) by (rule sched_in_teardown)
  have i: "inflight ?R = []"
  proof (rule ccontr)
    assume "inflight ?R \<noteq> []"
    then have "filter is_teardown (trace ?R) = []" using c by (simp add: counted_def)
    then show False using m by simp
  qed
  then have "filter is_teardown (trace ?R) = teardown_of (req ?R)"
    using c by (simp add: counted_def)
  then have "Sched c e \<in> set (teardown_of (req ?R))" using m by simp
  then show ?thesis using i core_handles [OF k] by (simp add: teardown_of_def)
qed

section \<open>An address query is always part of a request\<close>

lemma served_emit: "served w \<Longrightarrow> served (emit e w)"
  by (auto simp add: served_def)

lemma served_script: "served (w\<lparr>script := s\<rparr>) = served w"
  by (simp add: served_def)

lemma served_ref: "served w \<Longrightarrow> served (grpc_ares_request_ref w)"
  by (auto simp add: served_def)

lemma served_unref: "served w \<Longrightarrow> served (grpc_ares_request_unref b w)"
  by (auto simp add: served_def)

lemma served_chain: "served w \<Longrightarrow> served (chain_status_error E st w)"
  by (auto simp add: served_def)

lemma served_host_cb: "served w \<Longrightarrow> served (on_hostbyname_done_cb E hr res w)"
  by (auto simp add: served_def)

lemma served_after_gethostbyname: "served (ares_gethostbyname E hr fam w)"
proof (cases "script w")
  case Nil
  then show ?thesis by (simp add: ares_gethostbyname_def next_outcome_def served_def)
next
  case (Cons x xs)
  show ?thesis
  proof (cases x)
    case None
    then show ?thesis using Cons
      by (simp add: ares_gethostbyname_def next_outcome_def served_def)
  next
    case (Some res)
    have "served (emit (Callback (Hostbyname hr fam) res) ((emit (Gethostbyname hr fam) w)\<lparr>script := xs\<rparr>))"
      by (simp add: served_def)
    then show ?thesis using Some Cons
      by (simp add: ares_gethostbyname_def next_outcome_def served_host_cb)
  qed
qed

lemma served_srv_loop: "served w \<Longrightarrow> served (srv_loop E rs w)"
proof (induction rs arbitrary: w)
  case Nil
  then show ?case by simp
next
  case (Cons r rs)
  show ?case
    unfolding srv_loop_Cons Let_def
    by (intro Cons.IH served_emit served_after_gethostbyname)
qed

lemma served_srv_cb: "served w \<Longrightarrow> served (on_srv_query_done_cb E res w)"
  unfolding on_srv_query_done_cb_def Let_def
  by (intro served_emit served_unref)
     (auto intro!: served_emit served_srv_loop served_chain)

lemma served_query: "served w \<Longrightarrow> served (ares_query E n w)"
proof (cases "script w")
  case Nil
  assume "served w"
  then show ?thesis using Nil by (auto simp add: ares_query_def next_outcome_def served_def)
next
  case (Cons x xs)
  assume s: "served w"
  show ?thesis
  proof (cases x)
    case None
    then show ?thesis using Cons s
      by (auto simp add: ares_query_def next_outcome_def served_def)
  next
    case (Some res)
    have "served (emit (Callback (Srv_query n) res) ((emit (Query n) w)\<lparr>script := xs\<rparr>))"
      using s by (auto simp add: served_def)
    then show ?thesis using Some Cons
      by (simp add: ares_query_def next_outcome_def served_srv_cb)
  qed
qed

lemma served_issue_all: "served (issue_all E h p lb w)"
  unfolding issue_all_def Let_def
  by (intro served_unref served_emit)
     (auto intro!: served_query served_ref served_after_gethostbyname)

lemma filter_remove_host:
  assumes "i < length qs" "filter is_host_query qs \<noteq> []"
  shows "is_host_query (qs ! i) \<or> filter is_host_query (take i qs @ drop (Suc i) qs) \<noteq> []"
proof -
  have "qs = take i qs @ qs ! i # drop (Suc i) qs"
    using assms(1) by (simp add: id_take_nth_drop)
  then have "filter is_host_query qs =
             filter is_host_query (take i qs) @ filter is_host_query [qs ! i] @
             filter is_host_query (drop (Suc i) qs)"
    by (metis append_Cons append_Nil filter_append)
  then show ?thesis using assms(2) by (auto split: if_splits)
qed

lemma served_deliver: "served w \<Longrightarrow> served (deliver E d w)"
proof (cases "fst d < length (inflight w)")
  case False
  assume "served w"
  then show ?thesis using False by (simp add: deliver_def)
next
  case True
  assume s: "served w"
  let ?w1 = "emit (Callback (inflight w ! fst d) (snd d))
               (w\<lparr>inflight := take (fst d) (inflight w) @ drop (Suc (fst d)) (inflight w)\<rparr>)"
  have "served ?w1"
    using s filter_remove_host [OF True] by (auto simp add: served_def)
  then show ?thesis using True
    by (cases "inflight w ! fst d")
       (simp_all add: deliver_def Let_def served_host_cb served_srv_cb)
qed

lemma served_run: "request_created E name dp \<Longrightarrow> served (run E name dp cl lb ds w)"
proof -
  have f: "\<And>w. served w \<Longrightarrow> served (fold (deliver E) ds w)"
    by (induction ds) (simp_all add: served_deliver)
  assume "request_created E name dp"
  then show ?thesis by (simp add: run_def f resolve_created served_issue_all)
qed

lemma failed_host_callback:
  "filter is_host_callback tr \<noteq> [] \<Longrightarrow> filter host_ok tr = [] \<Longrightarrow> failures E tr \<noteq> []"
proof (induction tr)
  case Nil
  then show ?case by simp
next
  case (Cons ev tr)
  show ?case
  proof (cases ev)
    case (Callback q res)
    then show ?thesis using Cons by (cases q) (auto split: if_splits)
  qed (use Cons in \<open>auto split: if_splits\<close>)
qed

section \<open>Example runs\<close>

lemma lb_world_eq:
  "lb_world =
     \<lparr>req = \<lparr>on_done = 1, lb_addrs_out = True, ev_driver = 7, pending_queries = 2,
             success = False, error = GRPC_ERROR_NONE\<rparr>,
      addrs = None, lb_addrs = None,
      inflight = [Hostbyname direct_hr 2, Srv_query ''_grpclb._tcp.example.com''],
      script = [],
      trace = [Mu_init, Ref_init 1, Ref, Gethostbyname direct_hr 2, Ref,
               Query ''_grpclb._tcp.example.com'', Driver_start 7, Unref]\<rparr>"
  by (simp add: lb_world_def direct_hr_def model_defs example_defs Let_def)

lemma plain_world_eq:
  "plain_world =
     \<lparr>req = \<lparr>on_done = 1, lb_addrs_out = False, ev_driver = 7, pending_queries = 1,
             success = False, error = GRPC_ERROR_NONE\<rparr>,
      addrs = None, lb_addrs = None,
      inflight = [Hostbyname direct_hr 2],
      script = [],
      trace = [Mu_init, Ref_init 1, Ref, Gethostbyname direct_hr 2, Driver_start 7, Unref]\<rparr>"
  by (simp add: plain_world_def direct_hr_def model_defs example_defs Let_def)

lemma lb_host_failed:
  "deliver example_env (0, host_failure) lb_world =
     \<lparr>req = \<lparr>on_done = 1, lb_addrs_out = True, ev_driver = 7, pending_queries = 1,
             success = False, error = not_found\<rparr>,
      addrs = None, lb_addrs = None,
      inflight = [Srv_query ''_grpclb._tcp.example.com''],
      script = [],
      trace = trace lb_world @
              [Callback (Hostbyname direct_hr 2) host_failure,
               Mu_lock, Rd F_success, Rd F_error, Wr F_error, Mu_unlock, Unref]\<rparr>"
  by (simp add: lb_world_eq not_found_def deliver_def on_hostbyname_done_cb_def
        chain_status_error_def destroy_hostbyname_request_def grpc_ares_request_unref_def
        emit_def set_req_def Let_def host_failure_def ARES_SUCCESS_def GRPC_ERROR_CREATE_def
        example_env_def)

lemma plain_empty_success:
  "deliver example_env (0, host_answer 2 []) plain_world =
     \<lparr>req = \<lparr>on_done = 1, lb_addrs_out = False, ev_driver = 7, pending_queries = 0,
             success = True, error = GRPC_ERROR_NONE\<rparr>,
      addrs = Some [], lb_addrs = None, inflight = [], script = [],
      trace = trace plain_world @
              [Callback (Hostbyname direct_hr 2) (host_answer 2 []),
               Mu_lock, Rd F_error, Wr F_error, Wr F_success, Mu_unlock, Unref,
               Sched 1 GRPC_ERROR_NONE, Exec_ctx_finish, Mu_destroy, Driver_destroy 7,
               Free_request]\<rparr>"
  by (simp add: plain_world_eq deliver_def on_hostbyname_done_cb_def append_addresses_eq
        destroy_hostbyname_request_def grpc_ares_request_unref_def
        emit_def set_req_def Let_def host_answer_def ARES_SUCCESS_def)

lemma plain_host_failed:
  "deliver example_env (0, host_failure) plain_world =
     \<lparr>req = \<lparr>on_done = 1, lb_addrs_out = False, ev_driver = 7, pending_queries = 0,
             success = False, error = not_found\<rparr>,
      addrs = None, lb_addrs = None, inflight = [], script = [],
      trace = trace plain_world @
              [Callback (Hostbyname direct_hr 2) host_failure,
               Mu_lock, Rd F_success, Rd F_error, Wr F_error, Mu_unlock, Unref,
               Sched 1 not_found, Exec_ctx_finish, Mu_destroy, Driver_destroy 7,
               Free_request]\<rparr>"
  by (simp add: plain_world_eq not_found_def deliver_def on_hostbyname_done_cb_def
        chain_status_error_def destroy_hostbyname_request_def grpc_ares_request_unref_def
        emit_def set_req_def Let_def host_failure_def ARES_SUCCESS_def GRPC_ERROR_CREATE_def
        example_env_def)

lemma lb_srv_one:
  "deliver example_env (1, srv_one) lb_world =
     \<lparr>req = \<lparr>on_done = 1, lb_addrs_out = True, ev_driver = 7, pending_queries = 2,
             success = False, error = GRPC_ERROR_NONE\<rparr>,
      addrs = None, lb_addrs = None,
      inflight = [Hostbyname direct_hr 2, Hostbyname balancer_hr 2],
      script = [],
      trace = trace lb_world @
              [Callback (Srv_query ''_grpclb._tcp.example.com'') srv_one,
               Parse_srv_reply, Ref, Gethostbyname balancer_hr 2, Driver_start 7, Free_data,
               Unref, Exec_ctx_finish]\<rparr>"
  by (simp add: lb_world_eq deliver_def on_srv_query_done_cb_def grpc_ares_request_unref_def
        grpc_ares_request_ref_def create_hostbyname_request_def ares_gethostbyname_def
        next_outcome_def example_env_def balancer_hr_def AF_INET_def
        emit_def set_req_def Let_def srv_answer_def srv_one_def ARES_SUCCESS_def)

lemma lb_srv_one_answered:
  "lb_addrs (deliver example_env (1, host_answer 2 [[10, 0, 0, 1]])
               (deliver example_env (1, srv_one) lb_world)) =
     Some [\<lparr>address = \<lparr>len = 16, sa_family = 2, sa_port = 1234, sa_addr = [10, 0, 0, 1]\<rparr>,
            lb_is_balancer = True, balancer_name = Some ''lb.example.com'', user_data = None\<rparr>]"
  unfolding lb_srv_one
  by (simp add: deliver_def append_lb_addresses_eq lb_address_of_def
        resolved_address_of_def balancer_hr_def host_answer_def ARES_SUCCESS_def AF_INET6_def
        sizeof_sockaddr_in_def sizeof_in_addr_def Let_def)

lemma run_two: "run E name dp cl lb [d1, d2] w = deliver E d2 (deliver E d1 (run E name dp cl lb [] w))"
  by (simp add: run_def)

lemma run_one: "run E name dp cl lb [d1] w = deliver E d1 (run E name dp cl lb [] w)"
  by (simp add: run_def)

lemma run_lb_host_failed:
  "run example_env ''example.com:8080'' None 1 True [(0, host_failure)] fresh_world =
     deliver example_env (0, host_failure) lb_world"
  by (simp only: run_one lb_world_def)

lemma run_plain_empty_success:
  "run example_env ''example.com:8080'' None 1 False [(0, host_answer 2 [])] fresh_world =
     deliver example_env (0, host_answer 2 []) plain_world"
  by (simp only: run_one plain_world_def)

lemma run_plain_host_failed:
  "run example_env ''example.com:8080'' None 1 False [(0, host_failure)] fresh_world =
     deliver example_env (0, host_failure) plain_world"
  by (simp only: run_one plain_world_def)

lemma run_lb_srv_one:
  "run example_env ''example.com:8080'' None 1 True [(1, srv_one)] fresh_world =
     deliver example_env (1, srv_one) lb_world"
  by (simp only: run_one lb_world_def)

lemma run_lb_srv_one_answered:
  "run example_env ''example.com:8080'' None 1 True
     [(1, srv_one), (1, host_answer 2 [[10, 0, 0, 1]])] fresh_world =
   deliver example_env (1, host_answer 2 [[10, 0, 0, 1]]) (deliver example_env (1, srv_one) lb_world)"
  by (simp only: run_two lb_world_def)

section \<open>Facts about ports\<close>

text \<open>What \<open>strhtons\<close> gives, and that \<open>htons\<close> puts the high byte first in memory.\<close>

lemma strhtons_http: "strhtons E ''http'' = htons E 80"
  by (simp add: strhtons_def)

lemma strhtons_https: "strhtons E ''https'' = htons E 443"
  by (simp add: strhtons_def)

lemma strhtons_other:
  "p \<noteq> ''http'' \<Longrightarrow> p \<noteq> ''https'' \<Longrightarrow> strhtons E p = htons E (word_of_int (atoi p))"
  by (simp add: strhtons_def)

lemma atoi_examples:
  "atoi ''8080'' = 8080" "atoi ''70000'' = 70000" "atoi ''grpc'' = 0" "atoi '''' = 0"
  "atoi '' 42x'' = 42" "atoi ''-1'' = - 1"
  by (simp_all add: atoi_def is_space_def is_digit_def)

lemma htons_network_order: "mem_bytes E (htons E x) = [hi_byte x, lo_byte x]"
proof (cases "big_endian E")
  case True
  then show ?thesis by (simp add: mem_bytes_def htons_def)
next
  case False
  have h: "hi_byte (push_bit 8 x OR drop_bit 8 x) = lo_byte x"
    unfolding hi_byte_def lo_byte_def
    by (rule bit_word_eqI) (auto simp: bit_simps)
  have l: "lo_byte (push_bit 8 x OR drop_bit 8 x) = hi_byte x"
    unfolding hi_byte_def lo_byte_def
    by (rule bit_word_eqI) (auto simp: bit_simps)
  show ?thesis using False by (simp add: mem_bytes_def htons_def h l)
qed

section \<open>A failed driver, and the mutex\<close>

lemma driver_failure:
  assumes "gpr_split_host_port E name = (Some h, Some p)"
    and "fst (grpc_ares_ev_driver_create E) \<noteq> GRPC_ERROR_NONE"
  shows "resolve_address_ares_impl E name dp cl lb w =
           emit (Log_if_error (fst (grpc_ares_ev_driver_create E))) w"
  using assms
  by (cases "grpc_ares_ev_driver_create E") (simp add: resolve_address_ares_impl_def)

lemma host_cb_guarded:
  "guarded False (host_cb_events st r @ unref_events b r')"
  by (simp add: host_cb_events_def unref_events_def)

lemma fresh_fields:
  "inflight fresh_world = []" "trace fresh_world = []" "addrs fresh_world = None"
  "lb_addrs fresh_world = None" "script fresh_world = []"
  "success (req fresh_world) = False" "error (req fresh_world) = GRPC_ERROR_NONE"
  "lb_addrs_out (req fresh_world) = False" "ev_driver (req fresh_world) = 0"
  by (simp_all add: fresh_world_def)

lemma example_statuses:
  "status host_failure \<noteq> ARES_SUCCESS" "status (srv_answer ps rs) = ARES_SUCCESS"
  "status (host_answer f as) = ARES_SUCCESS" "parse_status (srv_answer ps rs) = ps"
  "reply (srv_answer ps rs) = rs" "hostent (host_answer f as) = \<lparr>h_addrtype = f, h_addr_list = as\<rparr>"
  by (simp_all add: host_failure_def srv_answer_def host_answer_def ARES_SUCCESS_def)

lemma example_strerror:
  "ares_strerror example_env (status host_failure) = ''Domain name not found''"
  by (simp add: example_env_def host_failure_def)

lemma srv_failure_unguarded:
  "status res \<noteq> ARES_SUCCESS \<Longrightarrow>
   \<not> guarded False (drop (length (trace w)) (trace (on_srv_query_done_cb E res w)))"
  by (simp add: on_srv_query_done_cb_def Let_def)

lemma host_completion_guarded:
  "guarded False (drop (length (trace w)) (trace (on_hostbyname_done_cb E hr res w)))"
  by (simp add: host_cb_guarded)

lemma driver_failure_run:
  assumes "gpr_split_host_port E name = (Some h, Some p)"
    and "fst (grpc_ares_ev_driver_create E) \<noteq> GRPC_ERROR_NONE"
    and "inflight w = []"
  shows "run E name dp cl lb ds w = emit (Log_if_error (fst (grpc_ares_ev_driver_create E))) w"
proof -
  have f: "\<And>v. inflight v = [] \<Longrightarrow> fold (deliver E) ds v = v"
    by (induction ds) (simp_all add: deliver_def)
  show ?thesis
    unfolding run_def driver_failure [OF assms(1,2)] using assms(3) by (simp add: f)
qed

section \<open>Example runs in load-balancer mode\<close>

lemma lb_host_failed_srv_one:
  "deliver example_env (0, srv_one) (deliver example_env (0, host_failure) lb_world) =
     \<lparr>req = \<lparr>on_done = 1, lb_addrs_out = True, ev_driver = 7, pending_queries = 1,
             success = False, error = not_found\<rparr>,
      addrs = None, lb_addrs = None, inflight = [Hostbyname balancer_hr 2], script = [],
      trace = trace lb_world @
              [Callback (Hostbyname direct_hr 2) host_failure,
               Mu_lock, Rd F_success, Rd F_error, Wr F_error, Mu_unlock, Unref,
               Callback (Srv_query ''_grpclb._tcp.example.com'') srv_one,
               Parse_srv_reply, Ref, Gethostbyname balancer_hr 2, Driver_start 7, Free_data,
               Unref, Exec_ctx_finish]\<rparr>"
  unfolding lb_host_failed
  by (simp add: deliver_def on_srv_query_done_cb_def grpc_ares_request_unref_def
        grpc_ares_request_ref_def create_hostbyname_request_def ares_gethostbyname_def
        next_outcome_def example_env_def balancer_hr_def AF_INET_def
        emit_def set_req_def Let_def srv_answer_def srv_one_def ARES_SUCCESS_def)

lemma lb_host_failed_srv_one_failed:
  "deliver example_env (0, host_failure)
     (deliver example_env (0, srv_one) (deliver example_env (0, host_failure) lb_world)) =
     \<lparr>req = \<lparr>on_done = 1, lb_addrs_out = True, ev_driver = 7, pending_queries = 0,
             success = False, error = both_not_found\<rparr>,
      addrs = None, lb_addrs = None, inflight = [], script = [],
      trace = trace lb_world @
              [Callback (Hostbyname direct_hr 2) host_failure,
               Mu_lock, Rd F_success, Rd F_error, Wr F_error, Mu_unlock, Unref,
               Callback (Srv_query ''_grpclb._tcp.example.com'') srv_one,
               Parse_srv_reply, Ref, Gethostbyname balancer_hr 2, Driver_start 7, Free_data,
               Unref, Exec_ctx_finish,
               Callback (Hostbyname balancer_hr 2) host_failure,
               Mu_lock, Rd F_success, Rd F_error, Wr F_error, Mu_unlock, Unref,
               Sched 1 both_not_found, Exec_ctx_finish, Mu_destroy, Driver_destroy 7,
               Free_request]\<rparr>"
  unfolding lb_host_failed_srv_one
  by (simp add: both_not_found_def not_found_def deliver_def on_hostbyname_done_cb_def
        chain_status_error_def destroy_hostbyname_request_def grpc_ares_request_unref_def
        emit_def set_req_def Let_def host_failure_def ARES_SUCCESS_def GRPC_ERROR_CREATE_def
        example_env_def)

lemma lb_srv_one_failed:
  "deliver example_env (0, host_failure) (deliver example_env (1, srv_one) lb_world) =
     \<lparr>req = \<lparr>on_done = 1, lb_addrs_out = True, ev_driver = 7, pending_queries = 1,
             success = False, error = not_found\<rparr>,
      addrs = None, lb_addrs = None, inflight = [Hostbyname balancer_hr 2], script = [],
      trace = trace lb_world @
              [Callback (Srv_query ''_grpclb._tcp.example.com'') srv_one,
               Parse_srv_reply, Ref, Gethostbyname balancer_hr 2, Driver_start 7, Free_data,
               Unref, Exec_ctx_finish,
               Callback (Hostbyname direct_hr 2) host_failure,
               Mu_lock, Rd F_success, Rd F_error, Wr F_error, Mu_unlock, Unref]\<rparr>"
  unfolding lb_srv_one
  by (simp add: not_found_def deliver_def on_hostbyname_done_cb_def
        chain_status_error_def destroy_hostbyname_request_def grpc_ares_request_unref_def
        emit_def set_req_def Let_def host_failure_def ARES_SUCCESS_def GRPC_ERROR_CREATE_def
        example_env_def)

lemma lb_srv_one_failed_failed:
  "deliver example_env (0, host_failure)
     (deliver example_env (0, host_failure) (deliver example_env (1, srv_one) lb_world)) =
     \<lparr>req = \<lparr>on_done = 1, lb_addrs_out = True, ev_driver = 7, pending_queries = 0,
             success = False, error = both_not_found\<rparr>,
      addrs = None, lb_addrs = None, inflight = [], script = [],
      trace = trace lb_world @
              [Callback (Srv_query ''_grpclb._tcp.example.com'') srv_one,
               Parse_srv_reply, Ref, Gethostbyname balancer_hr 2, Driver_start 7, Free_data,
               Unref, Exec_ctx_finish,
               Callback (Hostbyname direct_hr 2) host_failure,
               Mu_lock, Rd F_success, Rd F_error, Wr F_error, Mu_unlock, Unref,
               Callback (Hostbyname balancer_hr 2) host_failure,
               Mu_lock, Rd F_success, Rd F_error, Wr F_error, Mu_unlock, Unref,
               Sched 1 both_not_found, Exec_ctx_finish, Mu_destroy, Driver_destroy 7,
               Free_request]\<rparr>"
  unfolding lb_srv_one_failed
  by (simp add: both_not_found_def not_found_def deliver_def on_hostbyname_done_cb_def
        chain_status_error_def destroy_hostbyname_request_def grpc_ares_request_unref_def
        emit_def set_req_def Let_def host_failure_def ARES_SUCCESS_def GRPC_ERROR_CREATE_def
        example_env_def)

lemma run_three:
  "run E name dp cl lb [d1, d2, d3] w =
     deliver E d3 (deliver E d2 (deliver E d1 (run E name dp cl lb [] w)))"
  by (simp add: run_def)

lemma run_lb_host_failed_srv_one:
  "run example_env ''example.com:8080'' None 1 True [(0, host_failure), (0, srv_one)] fresh_world =
   deliver example_env (0, srv_one) (deliver example_env (0, host_failure) lb_world)"
  by (simp only: run_two lb_world_def)

lemma run_lb_host_failed_srv_one_failed:
  "run example_env ''example.com:8080'' None 1 True
     [(0, host_failure), (0, srv_one), (0, host_failure)] fresh_world =
   deliver example_env (0, host_failure)
     (deliver example_env (0, srv_one) (deliver example_env (0, host_failure) lb_world))"
  by (simp only: run_three lb_world_def)

lemma run_lb_srv_one_failed_failed:
  "run example_env ''example.com:8080'' None 1 True
     [(1, srv_one), (0, host_failure), (0, host_failure)] fresh_world =
   deliver example_env (0, host_failure)
     (deliver example_env (0, host_failure) (deliver example_env (1, srv_one) lb_world))"
  by (simp only: run_three lb_world_def)

lemma lb_fields:
  "success (req lb_world) = False" "error (req lb_world) = GRPC_ERROR_NONE"
  "script lb_world = []" "lb_addrs_out (req lb_world) = True"
  by (simp_all add: lb_world_eq)

lemma host_one_status: "status host_one = ARES_SUCCESS"
  by (simp add: host_one_def host_answer_def ARES_SUCCESS_def)

lemma lb_host_one:
  "deliver example_env (0, host_one) lb_world =
     \<lparr>req = \<lparr>on_done = 1, lb_addrs_out = True, ev_driver = 7, pending_queries = 1,
             success = True, error = GRPC_ERROR_NONE\<rparr>,
      addrs = None, lb_addrs = Some [direct_entry],
      inflight = [Srv_query ''_grpclb._tcp.example.com''],
      script = [],
      trace = trace lb_world @
              [Callback (Hostbyname direct_hr 2) host_one,
               Mu_lock, Rd F_error, Wr F_error, Wr F_success, Mu_unlock, Unref]\<rparr>"
  by (simp add: lb_world_eq deliver_def on_hostbyname_done_cb_def append_lb_addresses_eq
        lb_address_of_def resolved_address_of_def direct_hr_def direct_entry_def host_one_def
        destroy_hostbyname_request_def grpc_ares_request_unref_def
        emit_def set_req_def Let_def host_answer_def ARES_SUCCESS_def AF_INET6_def
        sizeof_sockaddr_in_def sizeof_in_addr_def)

lemma lb_host_one_srv_failed:
  "deliver example_env (0, host_failure) (deliver example_env (0, host_one) lb_world) =
     \<lparr>req = \<lparr>on_done = 1, lb_addrs_out = True, ev_driver = 7, pending_queries = 0,
             success = True, error = GRPC_ERROR_NONE\<rparr>,
      addrs = None, lb_addrs = Some [direct_entry], inflight = [], script = [],
      trace = trace lb_world @
              [Callback (Hostbyname direct_hr 2) host_one,
               Mu_lock, Rd F_error, Wr F_error, Wr F_success, Mu_unlock, Unref,
               Callback (Srv_query ''_grpclb._tcp.example.com'') host_failure,
               Rd F_success, Unref, Sched 1 GRPC_ERROR_NONE, Mu_destroy, Driver_destroy 7,
               Free_request, Exec_ctx_finish]\<rparr>"
  unfolding lb_host_one
  by (simp add: deliver_def on_srv_query_done_cb_def grpc_ares_request_unref_def
        emit_def set_req_def Let_def host_failure_def ARES_SUCCESS_def)

lemma run_lb_host_one_srv_failed:
  "run example_env ''example.com:8080'' None 1 True [(0, host_one), (0, host_failure)] fresh_world =
   deliver example_env (0, host_failure) (deliver example_env (0, host_one) lb_world)"
  by (simp only: run_two lb_world_def)

section \<open>An SRV failure that overlaps a success\<close>

text \<open>
  The two parts of the failure branch make up the SRV callback, and \<open>deliver_overlapped\<close>
  is \<open>deliver\<close> when the completion in between finds no query. When an address query
  succeeds in between, the SRV callback still stores its error, having seen the flag false:
  the closure is scheduled with that error although the request has succeeded and its
  slot holds the address. The statements about the scheduled error in C2 and C7 below are
  therefore statements about completions that run one at a time.
\<close>

lemma srv_failed_parts:
  "status res \<noteq> ARES_SUCCESS \<Longrightarrow>
   on_srv_query_done_cb E res w =
     srv_failed_end E res (fst (srv_failed_begin w)) (snd (srv_failed_begin w))"
  by (simp add: on_srv_query_done_cb_def srv_failed_begin_def srv_failed_end_def Let_def)

lemma deliver_overlapped_alone:
  "status (snd s) \<noteq> ARES_SUCCESS \<Longrightarrow> fst s < length (inflight w) \<Longrightarrow>
   inflight w ! fst s = Srv_query name \<Longrightarrow> length (inflight w) \<le> Suc (fst d) \<Longrightarrow>
   deliver_overlapped E s d w = deliver E s w"
  by (simp add: deliver_overlapped_def deliver_def [of E s] deliver_def [of E d] Let_def
        srv_failed_parts split_beta srv_failed_begin_def)

lemma lb_srv_failed_begun:
  "srv_failed_begin
     (emit (Callback (Srv_query ''_grpclb._tcp.example.com'') host_failure)
        (lb_world\<lparr>inflight := [Hostbyname direct_hr 2]\<rparr>)) =
   (False,
     \<lparr>req = \<lparr>on_done = 1, lb_addrs_out = True, ev_driver = 7, pending_queries = 2,
             success = False, error = GRPC_ERROR_NONE\<rparr>,
      addrs = None, lb_addrs = None,
      inflight = [Hostbyname direct_hr 2],
      script = [],
      trace = [Mu_init, Ref_init 1, Ref, Gethostbyname direct_hr 2, Ref,
               Query ''_grpclb._tcp.example.com'', Driver_start 7, Unref,
               Callback (Srv_query ''_grpclb._tcp.example.com'') host_failure,
               Rd F_success]\<rparr>)"
  by (simp add: lb_world_eq srv_failed_begin_def emit_def Let_def)

lemma lb_srv_failed_begun_host_one:
  "deliver example_env (0, host_one)
     \<lparr>req = \<lparr>on_done = 1, lb_addrs_out = True, ev_driver = 7, pending_queries = 2,
             success = False, error = GRPC_ERROR_NONE\<rparr>,
      addrs = None, lb_addrs = None,
      inflight = [Hostbyname direct_hr 2],
      script = [],
      trace = [Mu_init, Ref_init 1, Ref, Gethostbyname direct_hr 2, Ref,
               Query ''_grpclb._tcp.example.com'', Driver_start 7, Unref,
               Callback (Srv_query ''_grpclb._tcp.example.com'') host_failure,
               Rd F_success]\<rparr> =
     \<lparr>req = \<lparr>on_done = 1, lb_addrs_out = True, ev_driver = 7, pending_queries = 1,
             success = True, error = GRPC_ERROR_NONE\<rparr>,
      addrs = None, lb_addrs = Some [direct_entry],
      inflight = [],
      script = [],
      trace = [Mu_init, Ref_init 1, Ref, Gethostbyname direct_hr 2, Ref,
               Query ''_grpclb._tcp.example.com'', Driver_start 7, Unref,
               Callback (Srv_query ''_grpclb._tcp.example.com'') host_failure,
               Rd F_success,
               Callback (Hostbyname direct_hr 2) host_one,
               Mu_lock, Rd F_error, Wr F_error, Wr F_success, Mu_unlock, Unref]\<rparr>"
  by (simp add: deliver_def on_hostbyname_done_cb_def append_lb_addresses_eq
        lb_address_of_def resolved_address_of_def direct_hr_def direct_entry_def host_one_def
        destroy_hostbyname_request_def grpc_ares_request_unref_def
        emit_def set_req_def Let_def host_answer_def ARES_SUCCESS_def AF_INET6_def
        sizeof_sockaddr_in_def sizeof_in_addr_def)

lemma lb_overlapped:
  "deliver_overlapped example_env (1, host_failure) (0, host_one) lb_world =
     \<lparr>req = \<lparr>on_done = 1, lb_addrs_out = True, ev_driver = 7, pending_queries = 0,
             success = True, error = not_found\<rparr>,
      addrs = None, lb_addrs = Some [direct_entry],
      inflight = [],
      script = [],
      trace = [Mu_init, Ref_init 1, Ref, Gethostbyname direct_hr 2, Ref,
               Query ''_grpclb._tcp.example.com'', Driver_start 7, Unref,
               Callback (Srv_query ''_grpclb._tcp.example.com'') host_failure,
               Rd F_success,
               Callback (Hostbyname direct_hr 2) host_one,
               Mu_lock, Rd F_error, Wr F_error, Wr F_success, Mu_unlock, Unref,
               Rd F_error, Wr F_error, Unref, Sched 1 not_found, Mu_destroy,
               Driver_destroy 7, Free_request, Exec_ctx_finish]\<rparr>"
proof -
  have i: "inflight lb_world = [Hostbyname direct_hr 2, Srv_query ''_grpclb._tcp.example.com'']"
    by (simp add: lb_world_eq)
  have f: "status host_failure \<noteq> ARES_SUCCESS" by (simp add: host_failure_def ARES_SUCCESS_def)
  have "deliver_overlapped example_env (1, host_failure) (0, host_one) lb_world =
        srv_failed_end example_env host_failure False
          (deliver example_env (0, host_one)
             (snd (srv_failed_begin
                (emit (Callback (Srv_query ''_grpclb._tcp.example.com'') host_failure)
                   (lb_world\<lparr>inflight := [Hostbyname direct_hr 2]\<rparr>)))))"
    using f by (simp add: deliver_overlapped_def i Let_def split_beta lb_srv_failed_begun)
  also have "\<dots> = srv_failed_end example_env host_failure False
     \<lparr>req = \<lparr>on_done = 1, lb_addrs_out = True, ev_driver = 7, pending_queries = 1,
             success = True, error = GRPC_ERROR_NONE\<rparr>,
      addrs = None, lb_addrs = Some [direct_entry],
      inflight = [],
      script = [],
      trace = [Mu_init, Ref_init 1, Ref, Gethostbyname direct_hr 2, Ref,
               Query ''_grpclb._tcp.example.com'', Driver_start 7, Unref,
               Callback (Srv_query ''_grpclb._tcp.example.com'') host_failure,
               Rd F_success,
               Callback (Hostbyname direct_hr 2) host_one,
               Mu_lock, Rd F_error, Wr F_error, Wr F_success, Mu_unlock, Unref]\<rparr>"
    by (simp only: lb_srv_failed_begun snd_conv lb_srv_failed_begun_host_one)
  also have "\<dots> =
     \<lparr>req = \<lparr>on_done = 1, lb_addrs_out = True, ev_driver = 7, pending_queries = 0,
             success = True, error = not_found\<rparr>,
      addrs = None, lb_addrs = Some [direct_entry],
      inflight = [],
      script = [],
      trace = [Mu_init, Ref_init 1, Ref, Gethostbyname direct_hr 2, Ref,
               Query ''_grpclb._tcp.example.com'', Driver_start 7, Unref,
               Callback (Srv_query ''_grpclb._tcp.example.com'') host_failure,
               Rd F_success,
               Callback (Hostbyname direct_hr 2) host_one,
               Mu_lock, Rd F_error, Wr F_error, Wr F_success, Mu_unlock, Unref,
               Rd F_error, Wr F_error, Unref, Sched 1 not_found, Mu_destroy,
               Driver_destroy 7, Free_request, Exec_ctx_finish]\<rparr>"
    by (simp add: srv_failed_end_def chain_status_error_def grpc_ares_request_unref_def
          emit_def set_req_def Let_def not_found_def GRPC_ERROR_CREATE_def host_failure_def
          example_env_def)
  finally show ?thesis .
qed

lemma overlapped_error_after_success:
  "success (req (deliver_overlapped example_env (1, host_failure) (0, host_one) lb_world)) \<and>
   lb_addrs (deliver_overlapped example_env (1, host_failure) (0, host_one) lb_world) =
     Some [direct_entry] \<and>
   filter host_ok (trace (deliver_overlapped example_env (1, host_failure) (0, host_one) lb_world))
     = [Callback (Hostbyname direct_hr 2) host_one] \<and>
   filter is_sched (trace (deliver_overlapped example_env (1, host_failure) (0, host_one) lb_world))
     = [Sched 1 not_found] \<and>
   not_found \<noteq> GRPC_ERROR_NONE"
proof -
  have h: "status host_one = ARES_SUCCESS" by (simp add: host_one_def host_answer_def ARES_SUCCESS_def)
  have 1: "success (req (deliver_overlapped example_env (1, host_failure) (0, host_one) lb_world))"
    by (simp only: lb_overlapped world.select_convs grpc_ares_request.select_convs)
  have 2: "lb_addrs (deliver_overlapped example_env (1, host_failure) (0, host_one) lb_world) =
     Some [direct_entry]"
    by (simp only: lb_overlapped world.select_convs)
  have 3: "filter host_ok (trace (deliver_overlapped example_env (1, host_failure) (0, host_one) lb_world))
     = [Callback (Hostbyname direct_hr 2) host_one]"
    by (simp only: lb_overlapped world.select_convs) (simp add: h)
  have 4: "filter is_sched (trace (deliver_overlapped example_env (1, host_failure) (0, host_one) lb_world))
     = [Sched 1 not_found]"
    by (simp only: lb_overlapped world.select_convs) simp
  have 5: "not_found \<noteq> GRPC_ERROR_NONE" by (simp add: not_found_def)
  show ?thesis using 1 2 3 4 5 by (intro conjI)
qed

section \<open>The claims\<close>

text \<open>
  Claim C1. For a resolve call that creates a request, run to any point of any order of
  completions: the count is initialised once, to 1; as many references are taken as
  queries are issued, each right before its query; every issued query is in flight or has
  had its callback, once; the count has been released once per callback and once by the
  creator, and equals the number of queries in flight. The closure is scheduled, the mutex
  and the driver destroyed and the request freed exactly once and in this order, exactly
  when no query is left in flight, and nothing is issued, completed or counted after that.
\<close>

theorem C1_pending_count_lifecycle:
  fixes E :: env and name :: string and dp :: "string option" and cl :: nat and lb :: bool
    and ds :: "(nat \<times> ares_result) list" and w :: world
  assumes "request_created E name dp" and "inflight w = []" and "trace w = []"
  defines "R \<equiv> run E name dp cl lb ds w"
  shows "filter is_ref_init (trace R) = [Ref_init 1] \<and>
         count_ev is_ref R = count_ev is_issue R \<and>
         dispatch_ok R \<and>
         count_ev is_issue R = count_ev is_callback R + length (inflight R) \<and>
         count_ev is_unref R = count_ev is_callback R + 1 \<and>
         pending_queries (req R) = int (length (inflight R)) \<and>
         filter is_teardown (trace R) =
           (if inflight R = []
            then [Sched cl (error (req R)), Mu_destroy,
                  Driver_destroy (snd (grpc_ares_ev_driver_create E)), Free_request]
            else []) \<and>
         calm R"
proof -
  have c: "counted 0 R" unfolding R_def using assms(1-3) by (rule counted_run)
  have b: "balanced 0 0 1 R" unfolding R_def using assms(1-3) by (rule balanced_run)
  have d: "dispatch_ok R" unfolding R_def using assms(1,3) by (rule dispatch_run)
  have q: "calm R" unfolding R_def using assms(1-3) by (rule calm_run)
  have k: "core R = (cl, lb, snd (grpc_ares_ev_driver_create E),
            [Mu_init, Ref_init 1] @
            (if lb then [Query (''_grpclb._tcp.'' @ parsed_host E name)] else []))"
    unfolding R_def using assms(1,3) by (rule core_run)
  have p: "pending_queries (req R) = int (length (inflight R))"
    using c by (simp add: counted_def)
  have i: "filter is_ref_init (trace R) = [Ref_init 1]"
    using filter_ref_init_setup [of "trace R"] core_setup [OF k] by simp
  have r: "count_ev is_ref R = count_ev is_issue R"
    using b by (simp add: balanced_def b_ref_def sum_wt_ref count_ev_def)
  have f: "count_ev is_issue R = count_ev is_callback R + length (inflight R)"
    using b by (simp add: balanced_def b_fly_def sum_wt_fly count_ev_def)
  have u: "count_ev is_unref R = count_ev is_callback R + 1"
    using b p by (simp add: balanced_def b_unref_def sum_wt_unref count_ev_def)
  have t: "filter is_teardown (trace R) =
           (if inflight R = []
            then [Sched cl (error (req R)), Mu_destroy,
                  Driver_destroy (snd (grpc_ares_ev_driver_create E)), Free_request]
            else [])"
    using c core_handles [OF k] by (simp add: counted_def teardown_of_def)
  show ?thesis using i r d f u p t q by simp
qed

text \<open>C1 at two runs: with two queries in flight nothing is torn down; after the only
  query has failed everything is, once.\<close>

theorem C1_witness:
  "request_created example_env ''example.com:8080'' None \<and>
   inflight fresh_world = [] \<and> trace fresh_world = [] \<and>
   pending_queries
     (req (run example_env ''example.com:8080'' None 1 True [(1, srv_one)] fresh_world)) = 2 \<and>
   filter is_teardown
     (trace (run example_env ''example.com:8080'' None 1 True [(1, srv_one)] fresh_world)) = [] \<and>
   pending_queries
     (req (run example_env ''example.com:8080'' None 1 False [(0, host_failure)] fresh_world)) = 0 \<and>
   filter is_teardown
     (trace (run example_env ''example.com:8080'' None 1 False [(0, host_failure)] fresh_world)) =
     [Sched 1 not_found, Mu_destroy, Driver_destroy 7, Free_request]"
proof -
  let ?R1 = "run example_env ''example.com:8080'' None 1 True [(1, srv_one)] fresh_world"
  let ?R2 = "run example_env ''example.com:8080'' None 1 False [(0, host_failure)] fresh_world"
  have i1: "inflight ?R1 = [Hostbyname direct_hr 2, Hostbyname balancer_hr 2]"
    by (simp only: run_lb_srv_one lb_srv_one world.select_convs)
  have i2: "inflight ?R2 = []"
    by (simp only: run_plain_host_failed plain_host_failed world.select_convs)
  have e2: "error (req ?R2) = not_found"
    by (simp only: run_plain_host_failed plain_host_failed world.select_convs
          grpc_ares_request.select_convs)
  have d: "snd (grpc_ares_ev_driver_create example_env) = 7" by (simp add: example_env_def)
  note a = C1_pending_count_lifecycle
             [OF example_created fresh_fields(1) fresh_fields(2), of 1 True "[(1, srv_one)]"]
  note b = C1_pending_count_lifecycle
             [OF example_created fresh_fields(1) fresh_fields(2), of 1 False "[(0, host_failure)]"]
  show ?thesis using a b example_created fresh_fields(1) fresh_fields(2) i1 i2 e2 d by simp
qed

text \<open>
  Claim C2, amended, for completions that run one at a time (each callback has returned
  when the next is called). A failing completion, of an address query or of the SRV query,
  makes an error from the status text and links it in (as the root over the prior chain,
  or alone) exactly if the success flag is false, and changes nothing otherwise. A
  successful completion of an address query clears the error and sets the flag. A
  successful completion of the SRV query, by itself, changes neither. The flag is never
  reset, and over a \<open>run\<close>, which delivers the completions one at a time, the error the
  closure is scheduled with is the no-error sentinel if some address query succeeded, and
  the chain of all failures otherwise.
\<close>

theorem C2_failures_chain_until_hostname_success:
  "(status res \<noteq> ARES_SUCCESS \<longrightarrow>
      success (req (on_hostbyname_done_cb E hr res w)) = success (req w) \<and>
      error (req (on_hostbyname_done_cb E hr res w)) =
        (if success (req w) then error (req w)
         else if error (req w) = GRPC_ERROR_NONE
         then GRPC_ERROR (''C-ares status is not ARES_SUCCESS: '' @ ares_strerror E (status res)) None []
         else GRPC_ERROR (''C-ares status is not ARES_SUCCESS: '' @ ares_strerror E (status res)) None
                [error (req w)]) \<and>
      success (req (on_srv_query_done_cb E res w)) = success (req w) \<and>
      error (req (on_srv_query_done_cb E res w)) =
        (if success (req w) then error (req w)
         else if error (req w) = GRPC_ERROR_NONE
         then GRPC_ERROR (''C-ares status is not ARES_SUCCESS: '' @ ares_strerror E (status res)) None []
         else GRPC_ERROR (''C-ares status is not ARES_SUCCESS: '' @ ares_strerror E (status res)) None
                [error (req w)])) \<and>
   (status res = ARES_SUCCESS \<longrightarrow>
      success (req (on_hostbyname_done_cb E hr res w)) \<and>
      error (req (on_hostbyname_done_cb E hr res w)) = GRPC_ERROR_NONE) \<and>
   (status res = ARES_SUCCESS \<and> script w = [] \<longrightarrow>
      success (req (on_srv_query_done_cb E res w)) = success (req w) \<and>
      error (req (on_srv_query_done_cb E res w)) = error (req w)) \<and>
   (success (req w) \<longrightarrow> success (req (deliver E d w))) \<and>
   (request_created E name dp \<and> inflight w = [] \<and> trace w = [] \<and> addrs w = None \<and>
    lb_addrs w = None \<and> Sched c e \<in> set (trace (run E name dp cl lb ds w)) \<longrightarrow>
      e = (if filter host_ok (trace (run E name dp cl lb ds w)) \<noteq> [] then GRPC_ERROR_NONE
           else chain_of (rev (failures E (trace (run E name dp cl lb ds w))))))"
proof (intro conjI impI)
  have le: "\<And>x. link_error E (status res) x =
      (if x = GRPC_ERROR_NONE
       then GRPC_ERROR (''C-ares status is not ARES_SUCCESS: '' @ ares_strerror E (status res)) None []
       else GRPC_ERROR (''C-ares status is not ARES_SUCCESS: '' @ ares_strerror E (status res)) None [x])"
    by (simp add: link_error_def GRPC_ERROR_CREATE_def)
  {
    assume a: "status res \<noteq> ARES_SUCCESS"
    show "success (req (on_hostbyname_done_cb E hr res w)) = success (req w)"
      using a by simp
    show "error (req (on_hostbyname_done_cb E hr res w)) =
        (if success (req w) then error (req w)
         else if error (req w) = GRPC_ERROR_NONE
         then GRPC_ERROR (''C-ares status is not ARES_SUCCESS: '' @ ares_strerror E (status res)) None []
         else GRPC_ERROR (''C-ares status is not ARES_SUCCESS: '' @ ares_strerror E (status res)) None
                [error (req w)])"
      using a by (simp add: le)
    show "success (req (on_srv_query_done_cb E res w)) = success (req w)"
      using a by (simp add: on_srv_query_done_cb_def Let_def)
    show "error (req (on_srv_query_done_cb E res w)) =
        (if success (req w) then error (req w)
         else if error (req w) = GRPC_ERROR_NONE
         then GRPC_ERROR (''C-ares status is not ARES_SUCCESS: '' @ ares_strerror E (status res)) None []
         else GRPC_ERROR (''C-ares status is not ARES_SUCCESS: '' @ ares_strerror E (status res)) None
                [error (req w)])"
      using a by (simp add: on_srv_query_done_cb_def Let_def le)
  }
  {
    assume a: "status res = ARES_SUCCESS"
    show "success (req (on_hostbyname_done_cb E hr res w))" using a by simp
    show "error (req (on_hostbyname_done_cb E hr res w)) = GRPC_ERROR_NONE" using a by simp
  }
  {
    assume a: "status res = ARES_SUCCESS \<and> script w = []"
    have s: "script (emit Parse_srv_reply w) = []" using a by simp
    show "success (req (on_srv_query_done_cb E res w)) = success (req w)"
      using a srv_loop_async [OF s, of E "reply res"]
      by (simp add: on_srv_query_done_cb_def Let_def)
    show "error (req (on_srv_query_done_cb E res w)) = error (req w)"
      using a srv_loop_async [OF s, of E "reply res"]
      by (simp add: on_srv_query_done_cb_def Let_def)
  }
  {
    assume "success (req w)"
    then show "success (req (deliver E d w))" by (rule success_deliver)
  }
  {
    assume a: "request_created E name dp \<and> inflight w = [] \<and> trace w = [] \<and> addrs w = None \<and>
      lb_addrs w = None \<and> Sched c e \<in> set (trace (run E name dp cl lb ds w))"
    let ?R = "run E name dp cl lb ds w"
    have f: "folded E ?R" using a by (intro folded_run) simp_all
    have "e = error (req ?R)" using a run_sched [of E name dp w c e cl lb ds] by simp
    then show "e = (if filter host_ok (trace ?R) \<noteq> [] then GRPC_ERROR_NONE
           else chain_of (rev (failures E (trace ?R))))"
      using f by (simp add: folded_def)
  }
qed

text \<open>C2 (amended) in load-balancer mode with both queries in flight: a failing completion
  of each kind, an address success after a failure, an SRV success, an SRV failure after
  an address success (dropped, and the closure gets the no-error sentinel), and in plain
  mode a run whose only query fails.\<close>

theorem C2_witness:
  "error (req (on_hostbyname_done_cb example_env direct_hr host_failure lb_world)) = not_found \<and>
   error (req (on_srv_query_done_cb example_env host_failure lb_world)) = not_found \<and>
   error (req (deliver example_env (0, host_failure) lb_world)) = not_found \<and>
   error (req (on_hostbyname_done_cb example_env direct_hr host_one
                 (deliver example_env (0, host_failure) lb_world))) = GRPC_ERROR_NONE \<and>
   success (req (on_hostbyname_done_cb example_env direct_hr host_one lb_world)) \<and>
   success (req (on_srv_query_done_cb example_env srv_one lb_world)) = False \<and>
   inflight (deliver example_env (0, host_one) lb_world) = [Srv_query ''_grpclb._tcp.example.com''] \<and>
   error (req (on_srv_query_done_cb example_env host_failure
                 (deliver example_env (0, host_one) lb_world))) = GRPC_ERROR_NONE \<and>
   success (req (deliver example_env (0, host_failure)
                   (deliver example_env (0, host_one) lb_world))) \<and>
   Sched 1 GRPC_ERROR_NONE
     \<in> set (trace (run example_env ''example.com:8080'' None 1 True
                      [(0, host_one), (0, host_failure)] fresh_world)) \<and>
   failures example_env
     (trace (run example_env ''example.com:8080'' None 1 True
               [(0, host_one), (0, host_failure)] fresh_world)) =
     [''C-ares status is not ARES_SUCCESS: Domain name not found''] \<and>
   filter host_ok
     (trace (run example_env ''example.com:8080'' None 1 True
               [(0, host_one), (0, host_failure)] fresh_world)) \<noteq> [] \<and>
   chain_of (rev (failures example_env
                    (trace (run example_env ''example.com:8080'' None 1 False
                              [(0, host_failure)] fresh_world)))) = not_found"
proof -
  note A = C2_failures_chain_until_hostname_success
             [where res = host_failure and E = example_env and hr = direct_hr and w = lb_world
                and name = "''example.com:8080''" and dp = None and cl = 1 and lb = False
                and ds = "[(0, host_failure)]" and c = 1 and e = not_found]
  note A0 = C2_failures_chain_until_hostname_success
             [where E = example_env and w = fresh_world
                and name = "''example.com:8080''" and dp = None and cl = 1 and lb = False
                and ds = "[(0, host_failure)]" and c = 1 and e = not_found]
  note B = C2_failures_chain_until_hostname_success
             [where res = host_one and E = example_env and hr = direct_hr and w = lb_world]
  note B' = C2_failures_chain_until_hostname_success
             [where res = host_one and E = example_env and hr = direct_hr
                and w = "deliver example_env (0, host_failure) lb_world"]
  note C = C2_failures_chain_until_hostname_success
             [where res = srv_one and E = example_env and w = lb_world]
  note D = C2_failures_chain_until_hostname_success
             [where res = host_failure and E = example_env
                and w = "deliver example_env (0, host_one) lb_world"
                and d = "(0, host_failure)"]
  note F = C2_failures_chain_until_hostname_success
             [where E = example_env and w = fresh_world
                and name = "''example.com:8080''" and dp = None and cl = 1 and lb = True
                and ds = "[(0, host_one), (0, host_failure)]" and c = 1 and e = GRPC_ERROR_NONE]
  have so: "status srv_one = ARES_SUCCESS"
    by (simp add: srv_one_def srv_answer_def ARES_SUCCESS_def)
  have s: "Sched 1 not_found \<in> set (trace (run example_env ''example.com:8080'' None 1 False
                              [(0, host_failure)] fresh_world))"
    by (simp only: run_plain_host_failed plain_host_failed world.select_convs) simp
  have h: "filter host_ok (trace (run example_env ''example.com:8080'' None 1 False
                              [(0, host_failure)] fresh_world)) = []"
    by (simp only: run_plain_host_failed plain_host_failed world.select_convs)
       (simp add: plain_world_eq example_statuses)
  have ok: "success (req (deliver example_env (0, host_one) lb_world))"
    by (simp only: lb_host_one world.select_convs grpc_ares_request.select_convs)
  have ok_err: "error (req (deliver example_env (0, host_one) lb_world)) = GRPC_ERROR_NONE"
    by (simp only: lb_host_one world.select_convs grpc_ares_request.select_convs)
  have 1: "error (req (on_hostbyname_done_cb example_env direct_hr host_failure lb_world)) = not_found"
    using A by (simp add: example_statuses lb_fields example_strerror not_found_def)
  have 2: "error (req (on_srv_query_done_cb example_env host_failure lb_world)) = not_found"
    using A by (simp add: example_statuses lb_fields example_strerror not_found_def)
  have 3: "error (req (deliver example_env (0, host_failure) lb_world)) = not_found"
    by (simp only: lb_host_failed world.select_convs grpc_ares_request.select_convs)
  have 4: "error (req (on_hostbyname_done_cb example_env direct_hr host_one
                 (deliver example_env (0, host_failure) lb_world))) = GRPC_ERROR_NONE"
    using B' by (simp add: host_one_status)
  have 5: "success (req (on_hostbyname_done_cb example_env direct_hr host_one lb_world))"
    using B by (simp add: host_one_status)
  have 6: "success (req (on_srv_query_done_cb example_env srv_one lb_world)) = False"
    using C by (simp add: so lb_fields)
  have 7: "inflight (deliver example_env (0, host_one) lb_world) =
             [Srv_query ''_grpclb._tcp.example.com'']"
    by (simp only: lb_host_one world.select_convs)
  have 8: "error (req (on_srv_query_done_cb example_env host_failure
                 (deliver example_env (0, host_one) lb_world))) = GRPC_ERROR_NONE"
    using D ok ok_err by (simp add: example_statuses)
  have 9: "success (req (deliver example_env (0, host_failure)
                   (deliver example_env (0, host_one) lb_world)))"
    using D ok by simp
  have 10: "Sched 1 GRPC_ERROR_NONE
     \<in> set (trace (run example_env ''example.com:8080'' None 1 True
                      [(0, host_one), (0, host_failure)] fresh_world))"
    by (simp only: run_lb_host_one_srv_failed lb_host_one_srv_failed world.select_convs) simp
  have 11: "failures example_env
     (trace (run example_env ''example.com:8080'' None 1 True
               [(0, host_one), (0, host_failure)] fresh_world)) =
     [''C-ares status is not ARES_SUCCESS: Domain name not found'']"
    by (simp only: run_lb_host_one_srv_failed lb_host_one_srv_failed world.select_convs)
       (simp add: lb_world_eq host_one_status example_statuses status_message_def
          example_strerror)
  have 12: "chain_of (rev (failures example_env
                    (trace (run example_env ''example.com:8080'' None 1 False
                              [(0, host_failure)] fresh_world)))) = not_found"
    using A0 s h example_created by (simp add: fresh_fields)
  have 13: "filter host_ok
     (trace (run example_env ''example.com:8080'' None 1 True
               [(0, host_one), (0, host_failure)] fresh_world)) \<noteq> []"
    using F 10 11 example_created by (auto simp add: fresh_fields split: if_splits)
  show ?thesis using 1 2 3 4 5 6 7 8 9 10 11 13 12 by (intro conjI)
qed

text \<open>
  C2 as first stated fails. In load-balancer mode the address query fails, then the SRV
  query completes successfully with one record: the success flag stays false and the error
  of the failed query stays. When the address query for the record's host fails too, the
  closure is scheduled with the chain of both failures.
\<close>

theorem C2_counterexample:
  "error (req (run example_env ''example.com:8080'' None 1 True [(0, host_failure)] fresh_world)) =
     not_found \<and>
   not_found \<noteq> GRPC_ERROR_NONE \<and>
   inflight (run example_env ''example.com:8080'' None 1 True [(0, host_failure)] fresh_world) =
     [Srv_query ''_grpclb._tcp.example.com''] \<and>
   status srv_one = ARES_SUCCESS \<and> parse_status srv_one = ARES_SUCCESS \<and>
   success (req (run example_env ''example.com:8080'' None 1 True
                   [(0, host_failure), (0, srv_one)] fresh_world)) = False \<and>
   error (req (run example_env ''example.com:8080'' None 1 True
                 [(0, host_failure), (0, srv_one)] fresh_world)) = not_found \<and>
   Sched 1 both_not_found
     \<in> set (trace (run example_env ''example.com:8080'' None 1 True
                      [(0, host_failure), (0, srv_one), (0, host_failure)] fresh_world)) \<and>
   both_not_found \<noteq> GRPC_ERROR_NONE"
proof -
  have a: "status srv_one = ARES_SUCCESS" "parse_status srv_one = ARES_SUCCESS"
    by (simp_all add: srv_one_def srv_answer_def ARES_SUCCESS_def)
  have b: "not_found \<noteq> GRPC_ERROR_NONE" "both_not_found \<noteq> GRPC_ERROR_NONE"
    by (simp_all add: not_found_def both_not_found_def)
  have 1: "error (req (run example_env ''example.com:8080'' None 1 True [(0, host_failure)] fresh_world)) =
     not_found"
    by (simp only: run_lb_host_failed lb_host_failed world.select_convs
          grpc_ares_request.select_convs)
  have 2: "inflight (run example_env ''example.com:8080'' None 1 True [(0, host_failure)] fresh_world) =
     [Srv_query ''_grpclb._tcp.example.com'']"
    by (simp only: run_lb_host_failed lb_host_failed world.select_convs)
  have 3: "success (req (run example_env ''example.com:8080'' None 1 True
                   [(0, host_failure), (0, srv_one)] fresh_world)) = False"
    by (simp only: run_lb_host_failed_srv_one lb_host_failed_srv_one world.select_convs
          grpc_ares_request.select_convs)
  have 4: "error (req (run example_env ''example.com:8080'' None 1 True
                 [(0, host_failure), (0, srv_one)] fresh_world)) = not_found"
    by (simp only: run_lb_host_failed_srv_one lb_host_failed_srv_one world.select_convs
          grpc_ares_request.select_convs)
  have 5: "Sched 1 both_not_found
     \<in> set (trace (run example_env ''example.com:8080'' None 1 True
                      [(0, host_failure), (0, srv_one), (0, host_failure)] fresh_world))"
    by (simp only: run_lb_host_failed_srv_one_failed lb_host_failed_srv_one_failed
          world.select_convs) simp
  show ?thesis using a b 1 2 3 4 5 by (intro conjI)
qed

text \<open>
  Claim C3. A name without a host schedules the closure at once with the error
  "unparseable host:port" carrying the name; a name with a host, no port and no default
  port schedules it with "no port in name" carrying the name; in both cases the world is
  otherwise untouched (no request, no query). With a default port and no port in the name
  the call does what it does for the same host with the default as its port, and the
  queries it leaves in flight carry the default port.
\<close>

theorem C3_parse_errors_and_default_port:
  "(fst (gpr_split_host_port E name) = None \<longrightarrow>
      resolve_address_ares_impl E name dp cl lb w =
        emit (Sched cl (GRPC_ERROR ''unparseable host:port'' (Some name) [])) w) \<and>
   (gpr_split_host_port E name = (Some h, None) \<and> dp = None \<longrightarrow>
      resolve_address_ares_impl E name dp cl lb w =
        emit (Sched cl (GRPC_ERROR ''no port in name'' (Some name) [])) w) \<and>
   (gpr_split_host_port E name = (Some h, None) \<and> dp = Some d \<and>
    gpr_split_host_port E name' = (Some h, Some d) \<longrightarrow>
      resolve_address_ares_impl E name dp cl lb w =
        resolve_address_ares_impl E name' dp' cl lb w) \<and>
   (gpr_split_host_port E name = (Some h, None) \<and> dp = Some d \<and>
    fst (grpc_ares_ev_driver_create E) = GRPC_ERROR_NONE \<and> script w = [] \<longrightarrow>
      inflight (resolve_address_ares_impl E name dp cl lb w) =
        inflight w @
        (if grpc_ipv6_loopback_available E
         then [Hostbyname \<lparr>host = h, port = strhtons E d, is_balancer = False\<rparr> AF_INET6] else [])
        @ [Hostbyname \<lparr>host = h, port = strhtons E d, is_balancer = False\<rparr> AF_INET]
        @ (if lb then [Srv_query (''_grpclb._tcp.'' @ h)] else []))"
proof (intro conjI impI)
  assume "fst (gpr_split_host_port E name) = None"
  then show "resolve_address_ares_impl E name dp cl lb w =
        emit (Sched cl (GRPC_ERROR ''unparseable host:port'' (Some name) [])) w"
    by (cases "gpr_split_host_port E name")
       (simp add: resolve_address_ares_impl_def GRPC_ERROR_CREATE_def)
next
  assume "gpr_split_host_port E name = (Some h, None) \<and> dp = None"
  then show "resolve_address_ares_impl E name dp cl lb w =
        emit (Sched cl (GRPC_ERROR ''no port in name'' (Some name) [])) w"
    by (simp add: resolve_address_ares_impl_def GRPC_ERROR_CREATE_def)
next
  assume "gpr_split_host_port E name = (Some h, None) \<and> dp = Some d \<and>
    gpr_split_host_port E name' = (Some h, Some d)"
  then show "resolve_address_ares_impl E name dp cl lb w =
        resolve_address_ares_impl E name' dp' cl lb w"
    by (simp add: resolve_address_ares_impl_def)
next
  assume a: "gpr_split_host_port E name = (Some h, None) \<and> dp = Some d \<and>
    fst (grpc_ares_ev_driver_create E) = GRPC_ERROR_NONE \<and> script w = []"
  obtain drv where drv: "grpc_ares_ev_driver_create E = (GRPC_ERROR_NONE, drv)"
    using a by (cases "grpc_ares_ev_driver_create E") simp
  show "inflight (resolve_address_ares_impl E name dp cl lb w) =
        inflight w @
        (if grpc_ipv6_loopback_available E
         then [Hostbyname \<lparr>host = h, port = strhtons E d, is_balancer = False\<rparr> AF_INET6] else [])
        @ [Hostbyname \<lparr>host = h, port = strhtons E d, is_balancer = False\<rparr> AF_INET]
        @ (if lb then [Srv_query (''_grpclb._tcp.'' @ h)] else [])"
    using a drv
    by (simp add: resolve_address_ares_impl_def create_hostbyname_request_def
          gethostbyname_async query_async Let_def)
qed

text \<open>C3 at four calls.\<close>

theorem C3_witness:
  "resolve_address_ares_impl example_env '':80'' (Some ''443'') 1 True fresh_world =
     emit (Sched 1 (GRPC_ERROR ''unparseable host:port'' (Some '':80'') [])) fresh_world \<and>
   resolve_address_ares_impl example_env ''example.com'' None 1 False fresh_world =
     emit (Sched 1 (GRPC_ERROR ''no port in name'' (Some ''example.com'') [])) fresh_world \<and>
   resolve_address_ares_impl example_env ''example.com'' (Some ''8080'') 1 True fresh_world =
     resolve_address_ares_impl example_env ''example.com:8080'' None 1 True fresh_world \<and>
   inflight (resolve_address_ares_impl example_env ''example.com'' (Some ''https'') 1 True fresh_world) =
     [Hostbyname \<lparr>host = ''example.com'', port = 47873, is_balancer = False\<rparr> 2,
      Srv_query ''_grpclb._tcp.example.com'']"
proof -
  have s1: "fst (gpr_split_host_port example_env '':80'') = None"
    by (simp add: example_env_def example_split_def)
  have s2: "gpr_split_host_port example_env ''example.com'' = (Some ''example.com'', None)"
    by (simp add: example_env_def example_split_def)
  have s2': "gpr_split_host_port example_env ''example.com:8080'' = (Some ''example.com'', Some ''8080'')"
    by (simp add: example_env_def example_split_def)
  have s3: "fst (grpc_ares_ev_driver_create example_env) = GRPC_ERROR_NONE"
    by (simp add: example_env_def)
  have v6: "grpc_ipv6_loopback_available example_env = False" by (simp add: example_env_def)
  have p: "strhtons example_env ''https'' = 47873"
    by (simp add: strhtons_def htons_def example_env_def)
  note A = C3_parse_errors_and_default_port
         [where E = example_env and name = "'':80''" and dp = "Some ''443''" and cl = 1
            and lb = True and w = fresh_world]
  note B = C3_parse_errors_and_default_port
         [where E = example_env and name = "''example.com''" and dp = None and cl = 1
            and lb = False and w = fresh_world and h = "''example.com''"]
  note C = C3_parse_errors_and_default_port
         [where E = example_env and name = "''example.com''" and dp = "Some ''8080''" and cl = 1
            and lb = True and w = fresh_world and h = "''example.com''" and d = "''8080''"
            and name' = "''example.com:8080''" and dp' = None]
  note D = C3_parse_errors_and_default_port
         [where E = example_env and name = "''example.com''" and dp = "Some ''https''" and cl = 1
            and lb = True and w = fresh_world and h = "''example.com''" and d = "''https''"]
  have a: "resolve_address_ares_impl example_env '':80'' (Some ''443'') 1 True fresh_world =
     emit (Sched 1 (GRPC_ERROR ''unparseable host:port'' (Some '':80'') [])) fresh_world"
    using A s1 by blast
  have b: "resolve_address_ares_impl example_env ''example.com'' None 1 False fresh_world =
     emit (Sched 1 (GRPC_ERROR ''no port in name'' (Some ''example.com'') [])) fresh_world"
    using B s2 by blast
  have c: "resolve_address_ares_impl example_env ''example.com'' (Some ''8080'') 1 True fresh_world =
     resolve_address_ares_impl example_env ''example.com:8080'' None 1 True fresh_world"
    using C s2 s2' by blast
  have d: "inflight (resolve_address_ares_impl example_env ''example.com'' (Some ''https'') 1 True fresh_world) =
     [Hostbyname \<lparr>host = ''example.com'', port = 47873, is_balancer = False\<rparr> 2,
      Srv_query ''_grpclb._tcp.example.com'']"
    using D s2 s3 by (simp add: fresh_fields v6 p AF_INET_def)
  show ?thesis using a b c d by (intro conjI)
qed

text \<open>
  Claim C4, the failing input. On a little-endian host, an SRV reply names the target
  \<open>lb.example.com\<close> with port 1234. The sub-request for the name of the call carries the
  port 8080 converted by \<open>htons\<close>; the sub-request spawned for the target carries 1234 as
  the parser gave it, not \<open>htons 1234 = 53764\<close>, and its address is stamped with 1234,
  whose bytes in memory are D2 04 where network order is 04 D2.
\<close>

theorem C4_srv_port_left_in_host_order:
  "inflight (run example_env ''example.com:8080'' None 1 True [(1, srv_one)] fresh_world) =
     [Hostbyname direct_hr 2, Hostbyname balancer_hr 2] \<and>
   port direct_hr = htons example_env 8080 \<and>
   port balancer_hr = 1234 \<and>
   htons example_env 1234 = 53764 \<and>
   lb_addrs (run example_env ''example.com:8080'' None 1 True
               [(1, srv_one), (1, host_answer 2 [[10, 0, 0, 1]])] fresh_world) =
     Some [\<lparr>address = \<lparr>len = 16, sa_family = 2, sa_port = 1234, sa_addr = [10, 0, 0, 1]\<rparr>,
            lb_is_balancer = True, balancer_name = Some ''lb.example.com'', user_data = None\<rparr>] \<and>
   mem_bytes example_env 1234 = [210, 4] \<and>
   mem_bytes example_env (htons example_env 1234) = [4, 210]"
proof -
  have 1: "port direct_hr = htons example_env 8080"
    by (simp add: direct_hr_def htons_def example_env_def)
  have 2: "port balancer_hr = 1234" by (simp add: balancer_hr_def)
  have 3: "htons example_env 1234 = 53764" by (simp add: htons_def example_env_def)
  have 4: "mem_bytes example_env 1234 = [210, 4]"
    by (simp add: mem_bytes_def example_env_def hi_byte_def lo_byte_def)
  have 5: "mem_bytes example_env (htons example_env 1234) = [4, 210]"
    unfolding 3 by (simp add: mem_bytes_def example_env_def hi_byte_def lo_byte_def)
  have 6: "inflight (run example_env ''example.com:8080'' None 1 True [(1, srv_one)] fresh_world) =
     [Hostbyname direct_hr 2, Hostbyname balancer_hr 2]"
    by (simp only: run_lb_srv_one lb_srv_one world.select_convs)
  have 7: "lb_addrs (run example_env ''example.com:8080'' None 1 True
               [(1, srv_one), (1, host_answer 2 [[10, 0, 0, 1]])] fresh_world) =
     Some [\<lparr>address = \<lparr>len = 16, sa_family = 2, sa_port = 1234, sa_addr = [10, 0, 0, 1]\<rparr>,
            lb_is_balancer = True, balancer_name = Some ''lb.example.com'', user_data = None\<rparr>]"
    by (simp only: run_lb_srv_one_answered lb_srv_one_answered)
  show ?thesis using 1 2 3 4 5 6 7 by (intro conjI)
qed

text \<open>
  Claim C5. A call that creates a request issues the SRV query exactly once in
  load-balancer mode and never in plain mode, for the name \<open>_grpclb._tcp.\<close> followed by the
  host, right after taking a reference. On a reply that parses, the SRV callback issues,
  for each record in order, an IPv6 query for the record's host as a balancer exactly if
  IPv6 loopback is available, then an IPv4 query for it as a balancer, then restarts the
  driver, each query right after taking a reference. On a reply that does not parse it
  issues nothing and leaves the error and the success flag as they are.
\<close>

theorem C5_srv_discovery:
  "(request_created E name dp \<and> fst (gpr_split_host_port E name) = Some h \<and> trace w = [] \<longrightarrow>
      filter is_query (trace (run E name dp cl lb ds w)) =
        (if lb then [Query (''_grpclb._tcp.'' @ h)] else []) \<and>
      dispatch_ok (run E name dp cl lb ds w)) \<and>
   (status res = ARES_SUCCESS \<and> parse_status res = ARES_SUCCESS \<longrightarrow>
      filter is_spawn (trace (on_srv_query_done_cb E res w)) =
        filter is_spawn (trace w) @
        concat (map (\<lambda>r.
          (if grpc_ipv6_loopback_available E
           then [Gethostbyname \<lparr>host = srv_host r, port = srv_port r, is_balancer = True\<rparr> AF_INET6]
           else [])
          @ [Gethostbyname \<lparr>host = srv_host r, port = srv_port r, is_balancer = True\<rparr> AF_INET,
             Driver_start (ev_driver (req w))]) (reply res)) \<and>
      (dispatch_ok w \<longrightarrow> dispatch_ok (on_srv_query_done_cb E res w))) \<and>
   (status res = ARES_SUCCESS \<and> parse_status res \<noteq> ARES_SUCCESS \<longrightarrow>
      filter is_spawn (trace (on_srv_query_done_cb E res w)) = filter is_spawn (trace w) \<and>
      inflight (on_srv_query_done_cb E res w) = inflight w \<and>
      error (req (on_srv_query_done_cb E res w)) = error (req w) \<and>
      success (req (on_srv_query_done_cb E res w)) = success (req w))"
proof (intro conjI impI)
  assume a: "request_created E name dp \<and> fst (gpr_split_host_port E name) = Some h \<and> trace w = []"
  then have ph: "parsed_host E name = h" by (simp add: parsed_host_def)
  have k: "core (run E name dp cl lb ds w) =
           (cl, lb, snd (grpc_ares_ev_driver_create E),
            [Mu_init, Ref_init 1] @
            (if lb then [Query (''_grpclb._tcp.'' @ parsed_host E name)] else []))"
    using a by (intro core_run) simp_all
  have "filter is_query (trace (run E name dp cl lb ds w)) =
        filter is_query (filter is_setup (trace (run E name dp cl lb ds w)))"
    by (simp only: filter_query_setup)
  also have "\<dots> = filter is_query ([Mu_init, Ref_init 1] @
            (if lb then [Query (''_grpclb._tcp.'' @ parsed_host E name)] else []))"
    by (simp only: core_setup [OF k])
  also have "\<dots> = (if lb then [Query (''_grpclb._tcp.'' @ h)] else [])"
    by (simp add: ph)
  finally show "filter is_query (trace (run E name dp cl lb ds w)) =
        (if lb then [Query (''_grpclb._tcp.'' @ h)] else [])" .
  show "dispatch_ok (run E name dp cl lb ds w)"
    using a by (intro dispatch_run) simp_all
next
  assume a: "status res = ARES_SUCCESS \<and> parse_status res = ARES_SUCCESS"
  have s: "spawned E (ev_driver (req w)) = (\<lambda>r.
          (if grpc_ipv6_loopback_available E
           then [Gethostbyname \<lparr>host = srv_host r, port = srv_port r, is_balancer = True\<rparr> AF_INET6]
           else [])
          @ [Gethostbyname \<lparr>host = srv_host r, port = srv_port r, is_balancer = True\<rparr> AF_INET,
             Driver_start (ev_driver (req w))])"
    by (rule ext) (simp add: spawned_def)
  show "filter is_spawn (trace (on_srv_query_done_cb E res w)) =
        filter is_spawn (trace w) @
        concat (map (\<lambda>r.
          (if grpc_ipv6_loopback_available E
           then [Gethostbyname \<lparr>host = srv_host r, port = srv_port r, is_balancer = True\<rparr> AF_INET6]
           else [])
          @ [Gethostbyname \<lparr>host = srv_host r, port = srv_port r, is_balancer = True\<rparr> AF_INET,
             Driver_start (ev_driver (req w))]) (reply res))"
    unfolding s [symmetric] using a
    by (simp add: on_srv_query_done_cb_def Let_def spawn_srv_loop)
next
  assume "dispatch_ok w"
  then show "dispatch_ok (on_srv_query_done_cb E res w)" by (rule dispatch_srv_cb)
next
  assume a: "status res = ARES_SUCCESS \<and> parse_status res \<noteq> ARES_SUCCESS"
  then show "filter is_spawn (trace (on_srv_query_done_cb E res w)) = filter is_spawn (trace w)"
    by (simp add: on_srv_query_done_cb_def Let_def)
  show "inflight (on_srv_query_done_cb E res w) = inflight w"
    using a by (simp add: on_srv_query_done_cb_def Let_def)
  show "error (req (on_srv_query_done_cb E res w)) = error (req w)"
    using a by (simp add: on_srv_query_done_cb_def Let_def)
  show "success (req (on_srv_query_done_cb E res w)) = success (req w)"
    using a by (simp add: on_srv_query_done_cb_def Let_def)
qed

text \<open>C5 at a call in each mode, a reply with one record and a reply that fails to parse.\<close>

theorem C5_witness:
  "filter is_query (trace (run example_env ''example.com:8080'' None 1 True [] fresh_world)) =
     [Query ''_grpclb._tcp.example.com''] \<and>
   filter is_query (trace (run example_env ''example.com:8080'' None 1 False [] fresh_world)) = [] \<and>
   filter is_spawn (trace (on_srv_query_done_cb example_env srv_one fresh_world)) =
     [Gethostbyname balancer_hr 2, Driver_start 0] \<and>
   inflight (on_srv_query_done_cb example_env (srv_answer 1 []) fresh_world) = []"
proof -
  note A = C5_srv_discovery
             [where E = example_env and name = "''example.com:8080''" and dp = None
                and h = "''example.com''" and w = fresh_world and cl = 1 and lb = True
                and ds = "[]" and res = srv_one]
  note B = C5_srv_discovery
             [where E = example_env and name = "''example.com:8080''" and dp = None
                and h = "''example.com''" and w = fresh_world and cl = 1 and lb = False
                and ds = "[]" and res = "srv_answer 1 []"]
  have sp: "fst (gpr_split_host_port example_env ''example.com:8080'') = Some ''example.com''"
    by (simp add: example_env_def example_split_def)
  have v6: "grpc_ipv6_loopback_available example_env = False" by (simp add: example_env_def)
  have 1: "filter is_query (trace (run example_env ''example.com:8080'' None 1 True [] fresh_world)) =
     [Query ''_grpclb._tcp.example.com'']"
    using A example_created sp by (simp add: fresh_fields)
  have 2: "filter is_query (trace (run example_env ''example.com:8080'' None 1 False [] fresh_world)) = []"
    using B example_created sp by (simp add: fresh_fields)
  have 3: "filter is_spawn (trace (on_srv_query_done_cb example_env srv_one fresh_world)) =
     [Gethostbyname balancer_hr 2, Driver_start 0]"
    using A by (simp add: srv_one_def example_statuses fresh_fields v6 balancer_hr_def
                  AF_INET_def ARES_SUCCESS_def)
  have 4: "inflight (on_srv_query_done_cb example_env (srv_answer 1 []) fresh_world) = []"
    using B by (simp add: example_statuses fresh_fields ARES_SUCCESS_def)
  show ?thesis using 1 2 3 4 by (intro conjI)
qed

text \<open>
  Claim C6. A successful completion of an address query stores, in the slot of the
  request's mode, the list that was there (none counts as empty) followed by one entry per
  returned address, in the order returned; the other slot, and both slots on a failure,
  stay as they are. A plain entry has the length of \<open>sockaddr_in6\<close> for family
  \<open>AF_INET6\<close> and of \<open>sockaddr_in\<close> otherwise, the family and the port of the
  sub-request; a load-balancer entry has this address, the is-balancer flag of the
  sub-request, its host name as balancer name exactly if the flag is set, and no user data.
  Over a run that starts with empty slots, a slot is absent until the first address query
  succeeds and then holds the entries of all successful completions in their order.
\<close>

theorem C6_address_lists_grow_by_appending:
  "(status res = ARES_SUCCESS \<and> \<not> lb_addrs_out (req w) \<longrightarrow>
      addrs (on_hostbyname_done_cb E hr res w) =
        Some ((case addrs w of None \<Rightarrow> [] | Some xs \<Rightarrow> xs) @
              map (\<lambda>a. if h_addrtype (hostent res) = AF_INET6
                        then \<lparr>len = sizeof_sockaddr_in6, sa_family = h_addrtype (hostent res),
                              sa_port = port hr, sa_addr = take sizeof_in6_addr a\<rparr>
                        else \<lparr>len = sizeof_sockaddr_in, sa_family = h_addrtype (hostent res),
                              sa_port = port hr, sa_addr = take sizeof_in_addr a\<rparr>)
                  (h_addr_list (hostent res))) \<and>
      lb_addrs (on_hostbyname_done_cb E hr res w) = lb_addrs w) \<and>
   (status res = ARES_SUCCESS \<and> lb_addrs_out (req w) \<longrightarrow>
      lb_addrs (on_hostbyname_done_cb E hr res w) =
        Some ((case lb_addrs w of None \<Rightarrow> [] | Some xs \<Rightarrow> xs) @
              map (\<lambda>a. \<lparr>address =
                           (if h_addrtype (hostent res) = AF_INET6
                            then \<lparr>len = sizeof_sockaddr_in6, sa_family = h_addrtype (hostent res),
                                  sa_port = port hr, sa_addr = take sizeof_in6_addr a\<rparr>
                            else \<lparr>len = sizeof_sockaddr_in, sa_family = h_addrtype (hostent res),
                                  sa_port = port hr, sa_addr = take sizeof_in_addr a\<rparr>),
                         lb_is_balancer = is_balancer hr,
                         balancer_name = (if is_balancer hr then Some (host hr) else None),
                         user_data = None\<rparr>)
                  (h_addr_list (hostent res))) \<and>
      addrs (on_hostbyname_done_cb E hr res w) = addrs w) \<and>
   (status res \<noteq> ARES_SUCCESS \<longrightarrow>
      addrs (on_hostbyname_done_cb E hr res w) = addrs w \<and>
      lb_addrs (on_hostbyname_done_cb E hr res w) = lb_addrs w) \<and>
   (request_created E name dp \<and> trace w = [] \<and> addrs w = None \<and> lb_addrs w = None \<longrightarrow>
      addrs (run E name dp cl lb ds w) =
        (if filter host_ok (trace (run E name dp cl lb ds w)) \<noteq> [] \<and> \<not> lb
         then Some (plain_batches (trace (run E name dp cl lb ds w))) else None) \<and>
      lb_addrs (run E name dp cl lb ds w) =
        (if filter host_ok (trace (run E name dp cl lb ds w)) \<noteq> [] \<and> lb
         then Some (lb_batches (trace (run E name dp cl lb ds w))) else None))"
proof (intro conjI impI)
  have ra: "resolved_address_of hr (hostent res) =
      (\<lambda>a. if h_addrtype (hostent res) = AF_INET6
                        then \<lparr>len = sizeof_sockaddr_in6, sa_family = h_addrtype (hostent res),
                              sa_port = port hr, sa_addr = take sizeof_in6_addr a\<rparr>
                        else \<lparr>len = sizeof_sockaddr_in, sa_family = h_addrtype (hostent res),
                              sa_port = port hr, sa_addr = take sizeof_in_addr a\<rparr>)"
    by (rule ext) (simp add: resolved_address_of_def)
  have la: "lb_address_of hr (hostent res) =
      (\<lambda>a. \<lparr>address =
                           (if h_addrtype (hostent res) = AF_INET6
                            then \<lparr>len = sizeof_sockaddr_in6, sa_family = h_addrtype (hostent res),
                                  sa_port = port hr, sa_addr = take sizeof_in6_addr a\<rparr>
                            else \<lparr>len = sizeof_sockaddr_in, sa_family = h_addrtype (hostent res),
                                  sa_port = port hr, sa_addr = take sizeof_in_addr a\<rparr>),
                         lb_is_balancer = is_balancer hr,
                         balancer_name = (if is_balancer hr then Some (host hr) else None),
                         user_data = None\<rparr>)"
    by (rule ext) (simp add: lb_address_of_def resolved_address_of_def)
  {
    assume a: "status res = ARES_SUCCESS \<and> \<not> lb_addrs_out (req w)"
    show "addrs (on_hostbyname_done_cb E hr res w) =
        Some ((case addrs w of None \<Rightarrow> [] | Some xs \<Rightarrow> xs) @
              map (\<lambda>a. if h_addrtype (hostent res) = AF_INET6
                        then \<lparr>len = sizeof_sockaddr_in6, sa_family = h_addrtype (hostent res),
                              sa_port = port hr, sa_addr = take sizeof_in6_addr a\<rparr>
                        else \<lparr>len = sizeof_sockaddr_in, sa_family = h_addrtype (hostent res),
                              sa_port = port hr, sa_addr = take sizeof_in_addr a\<rparr>)
                  (h_addr_list (hostent res)))"
      unfolding ra [symmetric] using a by (simp add: append_addresses_eq)
    show "lb_addrs (on_hostbyname_done_cb E hr res w) = lb_addrs w" using a by simp
  }
  {
    assume a: "status res = ARES_SUCCESS \<and> lb_addrs_out (req w)"
    show "lb_addrs (on_hostbyname_done_cb E hr res w) =
        Some ((case lb_addrs w of None \<Rightarrow> [] | Some xs \<Rightarrow> xs) @
              map (\<lambda>a. \<lparr>address =
                           (if h_addrtype (hostent res) = AF_INET6
                            then \<lparr>len = sizeof_sockaddr_in6, sa_family = h_addrtype (hostent res),
                                  sa_port = port hr, sa_addr = take sizeof_in6_addr a\<rparr>
                            else \<lparr>len = sizeof_sockaddr_in, sa_family = h_addrtype (hostent res),
                                  sa_port = port hr, sa_addr = take sizeof_in_addr a\<rparr>),
                         lb_is_balancer = is_balancer hr,
                         balancer_name = (if is_balancer hr then Some (host hr) else None),
                         user_data = None\<rparr>)
                  (h_addr_list (hostent res)))"
      unfolding la [symmetric] using a by (simp add: append_lb_addresses_eq)
    show "addrs (on_hostbyname_done_cb E hr res w) = addrs w" using a by simp
  }
  {
    assume a: "status res \<noteq> ARES_SUCCESS"
    show "addrs (on_hostbyname_done_cb E hr res w) = addrs w" using a by simp
    show "lb_addrs (on_hostbyname_done_cb E hr res w) = lb_addrs w" using a by simp
  }
  {
    assume a: "request_created E name dp \<and> trace w = [] \<and> addrs w = None \<and> lb_addrs w = None"
    let ?R = "run E name dp cl lb ds w"
    have f: "folded E ?R" using a by (intro folded_run) simp_all
    have k: "core ?R = (cl, lb, snd (grpc_ares_ev_driver_create E),
            [Mu_init, Ref_init 1] @
            (if lb then [Query (''_grpclb._tcp.'' @ parsed_host E name)] else []))"
      using a by (intro core_run) simp_all
    have l: "lb_addrs_out (req ?R) = lb" using core_handles [OF k] by simp
    show "addrs ?R = (if filter host_ok (trace ?R) \<noteq> [] \<and> \<not> lb
         then Some (plain_batches (trace ?R)) else None)"
      using f l by (simp add: folded_def)
    show "lb_addrs ?R = (if filter host_ok (trace ?R) \<noteq> [] \<and> lb
         then Some (lb_batches (trace ?R)) else None)"
      using f l by (simp add: folded_def)
  }
qed

text \<open>C6 at an IPv4 answer in plain mode, an IPv6 answer for a balancer, a failure, and
  two runs.\<close>

theorem C6_witness:
  "addrs (on_hostbyname_done_cb example_env direct_hr (host_answer 2 [[10, 0, 0, 1], [10, 0, 0, 2]])
            plain_world) =
     Some [\<lparr>len = 16, sa_family = 2, sa_port = 36895, sa_addr = [10, 0, 0, 1]\<rparr>,
           \<lparr>len = 16, sa_family = 2, sa_port = 36895, sa_addr = [10, 0, 0, 2]\<rparr>] \<and>
   lb_addrs (on_hostbyname_done_cb example_env balancer_hr
               (host_answer 10 [[32, 1, 13, 184, 0, 0, 0, 0, 0, 0, 0, 0, 0, 0, 0, 1]]) lb_world) =
     Some [\<lparr>address = \<lparr>len = 28, sa_family = 10, sa_port = 1234,
                        sa_addr = [32, 1, 13, 184, 0, 0, 0, 0, 0, 0, 0, 0, 0, 0, 0, 1]\<rparr>,
            lb_is_balancer = True, balancer_name = Some ''lb.example.com'', user_data = None\<rparr>] \<and>
   addrs (on_hostbyname_done_cb example_env direct_hr host_failure plain_world) = None \<and>
   addrs (run example_env ''example.com:8080'' None 1 False [(0, host_failure)] fresh_world) = None \<and>
   addrs (run example_env ''example.com:8080'' None 1 False [(0, host_answer 2 [])] fresh_world) =
     Some (plain_batches (trace (run example_env ''example.com:8080'' None 1 False
                                   [(0, host_answer 2 [])] fresh_world)))"
proof -
  note A = C6_address_lists_grow_by_appending
             [where res = "host_answer 2 [[10, 0, 0, 1], [10, 0, 0, 2]]" and w = plain_world
                and E = example_env and hr = direct_hr]
  note B = C6_address_lists_grow_by_appending
             [where res = "host_answer 10 [[32, 1, 13, 184, 0, 0, 0, 0, 0, 0, 0, 0, 0, 0, 0, 1]]"
                and w = lb_world and E = example_env and hr = balancer_hr]
  note C = C6_address_lists_grow_by_appending
             [where res = host_failure and w = plain_world and E = example_env and hr = direct_hr]
  note D = C6_address_lists_grow_by_appending
             [where w = fresh_world and E = example_env and name = "''example.com:8080''"
                and dp = None and cl = 1 and lb = False and ds = "[(0, host_failure)]"]
  note F = C6_address_lists_grow_by_appending
             [where w = fresh_world and E = example_env and name = "''example.com:8080''"
                and dp = None and cl = 1 and lb = False and ds = "[(0, host_answer 2 [])]"]
  have p: "lb_addrs_out (req plain_world) = False" "addrs plain_world = None"
    by (simp_all add: plain_world_eq)
  have l: "lb_addrs_out (req lb_world) = True" "lb_addrs lb_world = None"
    by (simp_all add: lb_world_eq)
  have h: "filter host_ok (trace (run example_env ''example.com:8080'' None 1 False
                              [(0, host_failure)] fresh_world)) = []"
    by (simp only: run_plain_host_failed plain_host_failed world.select_convs)
       (simp add: plain_world_eq example_statuses)
  have g: "filter host_ok (trace (run example_env ''example.com:8080'' None 1 False
                              [(0, host_answer 2 [])] fresh_world)) \<noteq> []"
    by (simp only: run_plain_empty_success plain_empty_success world.select_convs)
       (simp add: plain_world_eq example_statuses)
  have 1: "addrs (on_hostbyname_done_cb example_env direct_hr (host_answer 2 [[10, 0, 0, 1], [10, 0, 0, 2]])
            plain_world) =
     Some [\<lparr>len = 16, sa_family = 2, sa_port = 36895, sa_addr = [10, 0, 0, 1]\<rparr>,
           \<lparr>len = 16, sa_family = 2, sa_port = 36895, sa_addr = [10, 0, 0, 2]\<rparr>]"
    using A p by (simp add: example_statuses AF_INET6_def sizeof_sockaddr_in_def
                    sizeof_in_addr_def direct_hr_def)
  have 2: "lb_addrs (on_hostbyname_done_cb example_env balancer_hr
               (host_answer 10 [[32, 1, 13, 184, 0, 0, 0, 0, 0, 0, 0, 0, 0, 0, 0, 1]]) lb_world) =
     Some [\<lparr>address = \<lparr>len = 28, sa_family = 10, sa_port = 1234,
                        sa_addr = [32, 1, 13, 184, 0, 0, 0, 0, 0, 0, 0, 0, 0, 0, 0, 1]\<rparr>,
            lb_is_balancer = True, balancer_name = Some ''lb.example.com'', user_data = None\<rparr>]"
    using B l by (simp add: example_statuses AF_INET6_def sizeof_sockaddr_in6_def
                    sizeof_in6_addr_def balancer_hr_def)
  have 3: "addrs (on_hostbyname_done_cb example_env direct_hr host_failure plain_world) = None"
    using C p by (simp add: example_statuses)
  have 4: "addrs (run example_env ''example.com:8080'' None 1 False [(0, host_failure)] fresh_world) = None"
    using D h example_created by (simp add: fresh_fields)
  have 5: "addrs (run example_env ''example.com:8080'' None 1 False [(0, host_answer 2 [])] fresh_world) =
     Some (plain_batches (trace (run example_env ''example.com:8080'' None 1 False
                                   [(0, host_answer 2 [])] fresh_world)))"
    using F g example_created by (simp add: fresh_fields)
  show ?thesis using 1 2 3 4 5 by (intro conjI)
qed

text \<open>
  Claim C7, amended, for a \<open>run\<close>: the completions run one at a time, each callback
  having returned when the next is called. When the closure of a created request is
  scheduled, every issued query has completed and the error passed is the request's. It
  is the no-error sentinel exactly if some address query completed with success, and then
  the slot of the request's mode holds the addresses of the successful completions
  (possibly none). Otherwise it is the chain of all failed completions, no address query
  succeeded (the SRV query may have), and both slots are absent.
\<close>

theorem C7_completion_error_amended:
  fixes E :: env and name :: string and dp :: "string option" and cl :: nat and lb :: bool
    and ds :: "(nat \<times> ares_result) list" and w :: world
  assumes "request_created E name dp" and "inflight w = []" and "trace w = []"
    and "addrs w = None" and "lb_addrs w = None"
    and "Sched c e \<in> set (trace (run E name dp cl lb ds w))"
  defines "R \<equiv> run E name dp cl lb ds w"
  shows "c = cl \<and> e = error (req R) \<and> inflight R = [] \<and>
         count_ev is_callback R = count_ev is_issue R \<and>
         (e = GRPC_ERROR_NONE) = (filter host_ok (trace R) \<noteq> []) \<and>
         (if e = GRPC_ERROR_NONE
          then (if lb then lb_addrs R = Some (lb_batches (trace R)) \<and> addrs R = None
                else addrs R = Some (plain_batches (trace R)) \<and> lb_addrs R = None)
          else e = chain_of (rev (failures E (trace R))) \<and> addrs R = None \<and> lb_addrs R = None)"
proof -
  have s: "c = cl \<and> e = error (req R) \<and> inflight R = []"
    unfolding R_def using assms(1-3,6) by (rule run_sched)
  have f: "folded E R" unfolding R_def using assms(1,3,4,5) by (rule folded_run)
  have b: "balanced 0 0 1 R" unfolding R_def using assms(1-3) by (rule balanced_run)
  have v: "served R" unfolding R_def using assms(1) by (rule served_run)
  have k: "core R = (cl, lb, snd (grpc_ares_ev_driver_create E),
            [Mu_init, Ref_init 1] @
            (if lb then [Query (''_grpclb._tcp.'' @ parsed_host E name)] else []))"
    unfolding R_def using assms(1,3) by (rule core_run)
  have l: "lb_addrs_out (req R) = lb" using core_handles [OF k] by simp
  have n: "count_ev is_callback R = count_ev is_issue R"
    using b s by (simp add: balanced_def b_fly_def sum_wt_fly count_ev_def)
  have hc: "filter is_host_callback (trace R) \<noteq> []"
    using v s by (simp add: served_def)
  have iff: "(e = GRPC_ERROR_NONE) = (filter host_ok (trace R) \<noteq> [])"
  proof (cases "filter host_ok (trace R) = []")
    case True
    then have "failures E (trace R) \<noteq> []" using hc by (intro failed_host_callback)
    then show ?thesis using True f s by (simp add: folded_def)
  next
    case False
    then show ?thesis using f s by (simp add: folded_def)
  qed
  show ?thesis using s n iff f l by (auto simp add: folded_def)
qed

text \<open>C7 (amended) at a run whose query fails, a run whose query succeeds, and a run in
  load-balancer mode whose address query succeeds before the SRV query fails.\<close>

theorem C7_witness:
  "request_created example_env ''example.com:8080'' None \<and>
   Sched 1 not_found \<in> set (trace (run example_env ''example.com:8080'' None 1 False
                                     [(0, host_failure)] fresh_world)) \<and>
   not_found = chain_of (rev (failures example_env
                    (trace (run example_env ''example.com:8080'' None 1 False
                              [(0, host_failure)] fresh_world)))) \<and>
   addrs (run example_env ''example.com:8080'' None 1 False [(0, host_failure)] fresh_world) = None \<and>
   filter host_ok (trace (run example_env ''example.com:8080'' None 1 False
                              [(0, host_failure)] fresh_world)) = [] \<and>
   Sched 1 GRPC_ERROR_NONE \<in> set (trace (run example_env ''example.com:8080'' None 1 False
                                     [(0, host_answer 2 [])] fresh_world)) \<and>
   filter host_ok (trace (run example_env ''example.com:8080'' None 1 False
                              [(0, host_answer 2 [])] fresh_world)) \<noteq> [] \<and>
   Sched 1 GRPC_ERROR_NONE
     \<in> set (trace (run example_env ''example.com:8080'' None 1 True
                      [(0, host_one), (0, host_failure)] fresh_world)) \<and>
   lb_addrs (run example_env ''example.com:8080'' None 1 True
               [(0, host_one), (0, host_failure)] fresh_world) =
     Some (lb_batches (trace (run example_env ''example.com:8080'' None 1 True
                                [(0, host_one), (0, host_failure)] fresh_world))) \<and>
   lb_addrs (run example_env ''example.com:8080'' None 1 True
               [(0, host_one), (0, host_failure)] fresh_world) = Some [direct_entry]"
proof -
  have s: "Sched 1 not_found \<in> set (trace (run example_env ''example.com:8080'' None 1 False
                              [(0, host_failure)] fresh_world))"
    by (simp only: run_plain_host_failed plain_host_failed world.select_convs) simp
  have t: "Sched 1 GRPC_ERROR_NONE \<in> set (trace (run example_env ''example.com:8080'' None 1 False
                                     [(0, host_answer 2 [])] fresh_world))"
    by (simp only: run_plain_empty_success plain_empty_success world.select_convs) simp
  have u: "Sched 1 GRPC_ERROR_NONE
     \<in> set (trace (run example_env ''example.com:8080'' None 1 True
                      [(0, host_one), (0, host_failure)] fresh_world))"
    by (simp only: run_lb_host_one_srv_failed lb_host_one_srv_failed world.select_convs) simp
  have v: "lb_addrs (run example_env ''example.com:8080'' None 1 True
               [(0, host_one), (0, host_failure)] fresh_world) = Some [direct_entry]"
    by (simp only: run_lb_host_one_srv_failed lb_host_one_srv_failed world.select_convs)
  have n: "not_found \<noteq> GRPC_ERROR_NONE" by (simp add: not_found_def)
  note A = C7_completion_error_amended
             [OF example_created fresh_fields(1) fresh_fields(2) fresh_fields(3) fresh_fields(4) s]
  note B = C7_completion_error_amended
             [OF example_created fresh_fields(1) fresh_fields(2) fresh_fields(3) fresh_fields(4) t]
  note C = C7_completion_error_amended
             [OF example_created fresh_fields(1) fresh_fields(2) fresh_fields(3) fresh_fields(4) u]
  have c: "lb_addrs (run example_env ''example.com:8080'' None 1 True
               [(0, host_one), (0, host_failure)] fresh_world) =
     Some (lb_batches (trace (run example_env ''example.com:8080'' None 1 True
                                [(0, host_one), (0, host_failure)] fresh_world)))"
    using C by simp
  have ab: "request_created example_env ''example.com:8080'' None \<and>
   Sched 1 not_found \<in> set (trace (run example_env ''example.com:8080'' None 1 False
                                     [(0, host_failure)] fresh_world)) \<and>
   not_found = chain_of (rev (failures example_env
                    (trace (run example_env ''example.com:8080'' None 1 False
                              [(0, host_failure)] fresh_world)))) \<and>
   addrs (run example_env ''example.com:8080'' None 1 False [(0, host_failure)] fresh_world) = None \<and>
   filter host_ok (trace (run example_env ''example.com:8080'' None 1 False
                              [(0, host_failure)] fresh_world)) = [] \<and>
   Sched 1 GRPC_ERROR_NONE \<in> set (trace (run example_env ''example.com:8080'' None 1 False
                                     [(0, host_answer 2 [])] fresh_world)) \<and>
   filter host_ok (trace (run example_env ''example.com:8080'' None 1 False
                              [(0, host_answer 2 [])] fresh_world)) \<noteq> []"
    using A B s t n example_created by simp
  show ?thesis using ab u c v by simp
qed

text \<open>
  C7 as first stated fails twice. The SRV query succeeds with one record and both address
  queries fail: the closure gets an error although a query succeeded. In plain mode the
  address query succeeds with no address: the closure gets the no-error sentinel although
  no address was resolved.
\<close>

theorem C7_counterexample:
  "status srv_one = ARES_SUCCESS \<and> parse_status srv_one = ARES_SUCCESS \<and>
   Callback (Srv_query ''_grpclb._tcp.example.com'') srv_one
     \<in> set (trace (run example_env ''example.com:8080'' None 1 True
                      [(1, srv_one), (0, host_failure), (0, host_failure)] fresh_world)) \<and>
   Sched 1 both_not_found
     \<in> set (trace (run example_env ''example.com:8080'' None 1 True
                      [(1, srv_one), (0, host_failure), (0, host_failure)] fresh_world)) \<and>
   both_not_found \<noteq> GRPC_ERROR_NONE \<and>
   Sched 1 GRPC_ERROR_NONE
     \<in> set (trace (run example_env ''example.com:8080'' None 1 False
                      [(0, host_answer 2 [])] fresh_world)) \<and>
   addrs (run example_env ''example.com:8080'' None 1 False [(0, host_answer 2 [])] fresh_world) =
     Some []"
proof -
  have a: "status srv_one = ARES_SUCCESS" "parse_status srv_one = ARES_SUCCESS"
    by (simp_all add: srv_one_def srv_answer_def ARES_SUCCESS_def)
  have b: "both_not_found \<noteq> GRPC_ERROR_NONE" by (simp add: both_not_found_def)
  have 1: "Callback (Srv_query ''_grpclb._tcp.example.com'') srv_one
     \<in> set (trace (run example_env ''example.com:8080'' None 1 True
                      [(1, srv_one), (0, host_failure), (0, host_failure)] fresh_world))"
    by (simp only: run_lb_srv_one_failed_failed lb_srv_one_failed_failed world.select_convs) simp
  have 2: "Sched 1 both_not_found
     \<in> set (trace (run example_env ''example.com:8080'' None 1 True
                      [(1, srv_one), (0, host_failure), (0, host_failure)] fresh_world))"
    by (simp only: run_lb_srv_one_failed_failed lb_srv_one_failed_failed world.select_convs) simp
  have 3: "Sched 1 GRPC_ERROR_NONE
     \<in> set (trace (run example_env ''example.com:8080'' None 1 False
                      [(0, host_answer 2 [])] fresh_world))"
    by (simp only: run_plain_empty_success plain_empty_success world.select_convs) simp
  have 4: "addrs (run example_env ''example.com:8080'' None 1 False [(0, host_answer 2 [])] fresh_world) =
     Some []"
    by (simp only: run_plain_empty_success plain_empty_success world.select_convs)
  show ?thesis using a b 1 2 3 4 by (intro conjI)
qed

text \<open>
  Claim C8, the failing input. The name parses and creation of the driver fails: the call
  logs the error and returns; no closure is scheduled, then or later.
\<close>

theorem C8_driver_failure_schedules_nothing:
  "resolve_address_ares_impl failing_driver_env ''example.com:8080'' None 1 False fresh_world =
     emit (Log_if_error (GRPC_ERROR ''ares_init_options failed'' None [])) fresh_world \<and>
   trace (run failing_driver_env ''example.com:8080'' None 1 False [] fresh_world) =
     [Log_if_error (GRPC_ERROR ''ares_init_options failed'' None [])] \<and>
   inflight (run failing_driver_env ''example.com:8080'' None 1 False [] fresh_world) = [] \<and>
   filter is_sched (trace (run failing_driver_env ''example.com:8080'' None 1 False [] fresh_world)) = []"
proof -
  have s: "gpr_split_host_port failing_driver_env ''example.com:8080'' =
             (Some ''example.com'', Some ''8080'')"
    by (simp add: failing_driver_env_def example_env_def example_split_def)
  have d: "fst (grpc_ares_ev_driver_create failing_driver_env) =
             GRPC_ERROR ''ares_init_options failed'' None []"
    by (simp add: failing_driver_env_def example_env_def)
  have r: "resolve_address_ares_impl failing_driver_env ''example.com:8080'' None 1 False fresh_world =
     emit (Log_if_error (GRPC_ERROR ''ares_init_options failed'' None [])) fresh_world"
    using driver_failure [OF s, of None 1 False fresh_world] d by simp
  show ?thesis unfolding run_def r by (simp add: fresh_world_def)
qed

text \<open>
  Claim C9, the failing input. A failing SRV completion while no query has succeeded reads
  the success flag and reads and writes the error without locking the mutex; the
  completion of an address query does the same under the lock.
\<close>

theorem C9_srv_callback_touches_state_unlocked:
  "trace (deliver example_env (1, host_failure) lb_world) =
     trace lb_world @
     [Callback (Srv_query ''_grpclb._tcp.example.com'') host_failure,
      Rd F_success, Rd F_error, Wr F_error, Unref, Exec_ctx_finish] \<and>
   error (req (deliver example_env (1, host_failure) lb_world)) = not_found \<and>
   guarded False
     [Callback (Srv_query ''_grpclb._tcp.example.com'') host_failure,
      Rd F_success, Rd F_error, Wr F_error, Unref, Exec_ctx_finish] = False \<and>
   guarded False
     (drop (length (trace lb_world)) (trace (deliver example_env (0, host_failure) lb_world))) = True"
proof -
  have a: "deliver example_env (1, host_failure) lb_world =
     \<lparr>req = \<lparr>on_done = 1, lb_addrs_out = True, ev_driver = 7, pending_queries = 1,
             success = False, error = not_found\<rparr>,
      addrs = None, lb_addrs = None,
      inflight = [Hostbyname direct_hr 2],
      script = [],
      trace = trace lb_world @
        [Callback (Srv_query ''_grpclb._tcp.example.com'') host_failure,
         Rd F_success, Rd F_error, Wr F_error, Unref, Exec_ctx_finish]\<rparr>"
    by (simp add: lb_world_eq not_found_def deliver_def on_srv_query_done_cb_def
        chain_status_error_def grpc_ares_request_unref_def
        emit_def set_req_def Let_def host_failure_def ARES_SUCCESS_def GRPC_ERROR_CREATE_def
        example_env_def)
  show ?thesis unfolding a by (simp add: lb_host_failed)
qed

text \<open>
  Claim C10. In one run of the SRV callback, the reply holder is released only after the
  parser was called, and the parser is called exactly if the query succeeded: on a failed
  query there is neither call; on a successful one the parser runs and the release
  follows exactly if the holder is not NULL, whatever the parser's status.
\<close>

theorem C10_reply_released_only_after_parse:
  "filter is_holder (trace (on_srv_query_done_cb E res w)) =
     filter is_holder (trace w) @
     (if status res = ARES_SUCCESS
      then Parse_srv_reply # (if reply res \<noteq> [] then [Free_data] else [])
      else [])"
  by (simp add: on_srv_query_done_cb_def Let_def holder_srv_loop)

text \<open>C10 at a failed query, a reply that does not parse and a reply with one record.\<close>

theorem C10_witness:
  "filter is_holder (trace (on_srv_query_done_cb example_env host_failure fresh_world)) = [] \<and>
   filter is_holder (trace (on_srv_query_done_cb example_env (srv_answer 1 []) fresh_world)) =
     [Parse_srv_reply] \<and>
   filter is_holder (trace (on_srv_query_done_cb example_env srv_one fresh_world)) =
     [Parse_srv_reply, Free_data]"
  using C10_reply_released_only_after_parse [of example_env host_failure fresh_world]
    C10_reply_released_only_after_parse [of example_env "srv_answer 1 []" fresh_world]
    C10_reply_released_only_after_parse [of example_env srv_one fresh_world]
  by (simp add: example_statuses fresh_fields srv_one_def)

end
